theory Spec2Isabelle
  imports Main "HOL-Library.Word"
begin

unbundle bit_operations_syntax

section \<open>Bit extraction and insertion macros\<close>

text \<open>
  The block decoders of \<^verbatim>\<open>ktx.cc\<close> work on two \<^verbatim>\<open>unsigned int\<close> half-words.
  They are 32-bit words here; \<^verbatim>\<open>uint8\<close> is an 8-bit word; values the C code
  promotes to \<^verbatim>\<open>int\<close> before doing arithmetic are integers (all of them stay far
  below the 32-bit range). Every use of the macros in the file has
  \<open>sz \<le> startpos + 1\<close> for the field width \<open>sz\<close>, so the shift amount \<open>startpos - sz + 1\<close> is written
  \<open>startpos + 1 - sz\<close> on natural numbers.
\<close>

type_synonym uint8 = "8 word"
type_synonym uint = "32 word"

definition SHIFT :: "nat \<Rightarrow> nat \<Rightarrow> nat" where
  "SHIFT sz startpos = startpos + 1 - sz"

definition MASK :: "nat \<Rightarrow> nat \<Rightarrow> uint" where
  "MASK sz startpos = push_bit (SHIFT sz startpos) (push_bit (sz - 1) 2 - 1)"

definition PUTBITS :: "uint \<Rightarrow> uint \<Rightarrow> nat \<Rightarrow> nat \<Rightarrow> uint" where
  "PUTBITS dest data sz startpos =
     ((dest AND NOT (MASK sz startpos))
      OR (push_bit (SHIFT sz startpos) data AND MASK sz startpos))"

definition SHIFTHIGH :: "nat \<Rightarrow> nat \<Rightarrow> nat" where
  "SHIFTHIGH sz startpos = (startpos - 32) + 1 - sz"

definition MASKHIGH :: "nat \<Rightarrow> nat \<Rightarrow> uint" where
  "MASKHIGH sz startpos = push_bit (SHIFTHIGH sz startpos) (push_bit sz 1 - 1)"

definition PUTBITSHIGH :: "uint \<Rightarrow> uint \<Rightarrow> nat \<Rightarrow> nat \<Rightarrow> uint" where
  "PUTBITSHIGH dest data sz startpos =
     ((dest AND NOT (MASKHIGH sz startpos))
      OR (push_bit (SHIFTHIGH sz startpos) data AND MASKHIGH sz startpos))"

definition GETBITS :: "uint \<Rightarrow> nat \<Rightarrow> nat \<Rightarrow> uint" where
  "GETBITS source sz startpos =
     (drop_bit (startpos + 1 - sz) source AND (push_bit sz 1 - 1))"

definition GETBITSHIGH :: "uint \<Rightarrow> nat \<Rightarrow> nat \<Rightarrow> uint" where
  "GETBITSHIGH source sz startpos =
     (drop_bit ((startpos - 32) + 1 - sz) source AND (push_bit sz 1 - 1))"

definition CLAMP :: "int \<Rightarrow> int \<Rightarrow> int \<Rightarrow> int" where
  "CLAMP ll x ul = (if x < ll then ll else if x > ul then ul else x)"

section \<open>Global tables\<close>

definition table59T :: "int list" where
  "table59T = [3, 6, 11, 16, 23, 32, 41, 64]"

definition table58H :: "int list" where
  "table58H = [3, 6, 11, 16, 23, 32, 41, 64]"

definition compressParams :: "int list list" where
  "compressParams =
    [[-8, -2, 2, 8], [-8, -2, 2, 8], [-17, -5, 5, 17],
     [-17, -5, 5, 17], [-29, -9, 9, 29], [-29, -9, 9, 29],
     [-42, -13, 13, 42], [-42, -13, 13, 42], [-60, -18, 18, 60],
     [-60, -18, 18, 60], [-80, -24, 24, 80], [-80, -24, 24, 80],
     [-106, -33, 33, 106], [-106, -33, 33, 106], [-183, -47, 47, 183],
     [-183, -47, 47, 183]]"

definition unscramble :: "nat list" where
  "unscramble = [2, 3, 1, 0]"

definition alphaBase :: "int list list" where
  "alphaBase =
    [[-15, -9, -6, -3], [-13, -10, -7, -3], [-13, -8, -5, -2], [-13, -6, -4, -2],
     [-12, -8, -6, -3], [-11, -9, -7, -3], [-11, -8, -7, -4], [-11, -8, -5, -3],
     [-10, -8, -6, -2], [-10, -8, -5, -2], [-10, -8, -4, -2], [-10, -7, -5, -2],
     [-10, -7, -4, -3], [-10, -3, -2, -1], [-9, -8, -6, -4], [-9, -7, -5, -3]]"

section \<open>The alpha modifier table\<close>

text \<open>
  The process-wide state of the alpha codec: the flag \<^verbatim>\<open>alphaTableInitialized\<close>
  and the array \<^verbatim>\<open>int alphaTable[256][8]\<close>. The entries never exceed 15 * 15 in
  absolute value, so \<^verbatim>\<open>int\<close> is modelled by the integers.
\<close>

record globals =
  alphaTableInitialized :: int
  alphaTable :: "int list list"

text \<open>A C global is zero-initialised.\<close>

definition initial_globals :: globals where
  "initial_globals =
     \<lparr>alphaTableInitialized = 0, alphaTable = replicate 256 (replicate 8 0)\<rparr>"

text \<open>Body of the first loop nest: one assignment \<^verbatim>\<open>alphaTable[i][j] = ...\<close>.\<close>

definition seed_cell :: "nat \<Rightarrow> int list list \<Rightarrow> nat \<Rightarrow> int list list" where
  "seed_cell i t j =
     (let buf = alphaBase ! (i - 16) ! (3 - j mod 4)
      in if j < 4 then t[i := (t ! i)[j := buf]]
         else t[i := (t ! i)[j := - buf - 1]])"

definition seed_row :: "nat \<Rightarrow> int list list \<Rightarrow> int list list" where
  "seed_row i t = fold (\<lambda>j t. seed_cell i t j) [0..<8] t"

definition seed_rows :: "int list list \<Rightarrow> int list list" where
  "seed_rows t = fold seed_row [16..<32] t"

text \<open>Body of the second loop nest; it reads the table it is writing.\<close>

definition mul_cell :: "nat \<Rightarrow> int list list \<Rightarrow> nat \<Rightarrow> int list list" where
  "mul_cell i t j =
     (let mul = i div 16; old = 16 + i mod 16
      in t[i := (t ! i)[j := t ! old ! j * int mul]])"

definition mul_row :: "nat \<Rightarrow> int list list \<Rightarrow> int list list" where
  "mul_row i t = fold (\<lambda>j t. mul_cell i t j) [0..<8] t"

definition mul_rows :: "int list list \<Rightarrow> int list list" where
  "mul_rows t = fold mul_row [0..<256] t"

definition setupAlphaTable :: "globals \<Rightarrow> globals" where
  "setupAlphaTable s =
     (if alphaTableInitialized s \<noteq> 0 then s
      else s\<lparr>alphaTableInitialized := 1,
              alphaTable := mul_rows (seed_rows (alphaTable s))\<rparr>)"

text \<open>
  The seed rows as the specification describes them: row \<open>k\<close> copies
  \<^verbatim>\<open>alphaBase[k][3 - j]\<close> for the first four columns and holds the negated entry
  minus one for the last four.
\<close>

definition seed :: "nat \<Rightarrow> nat \<Rightarrow> int" where
  "seed k j = (if j < 4 then alphaBase ! k ! (3 - j)
               else - (alphaBase ! k ! (3 - j mod 4)) - 1)"

definition table_shape :: "int list list \<Rightarrow> bool" where
  "table_shape t \<longleftrightarrow> length t = 256 \<and> list_all (\<lambda>r. length r = 8) t"

section \<open>Unstuffing converters\<close>

text \<open>
  The three converters assemble the canonical word pair with a fixed sequence of
  \<^verbatim>\<open>GETBITS\<close>/\<^verbatim>\<open>PUTBITS\<close> steps. The \<^verbatim>\<open>uint8\<close> temporaries of
  \<^verbatim>\<open>unstuff57bits\<close> hold at most seven bits, so the casts lose nothing and the
  fields are kept as 32-bit words, the type \<^verbatim>\<open>PUTBITS\<close> shifts them in.
\<close>

definition unstuff57bits :: "uint \<Rightarrow> uint \<Rightarrow> uint \<times> uint" where
  "unstuff57bits planar_word1 planar_word2 =
     (let RO = GETBITSHIGH planar_word1 6 62;
          GO1 = GETBITSHIGH planar_word1 1 56;
          GO2 = GETBITSHIGH planar_word1 6 54;
          BO1 = GETBITSHIGH planar_word1 1 48;
          BO2 = GETBITSHIGH planar_word1 2 44;
          BO3 = GETBITSHIGH planar_word1 3 41;
          RH1 = GETBITSHIGH planar_word1 5 38;
          RH2 = GETBITSHIGH planar_word1 1 32;
          GH = GETBITS planar_word2 7 31;
          BH = GETBITS planar_word2 6 24;
          RV = GETBITS planar_word2 6 18;
          GV = GETBITS planar_word2 7 12;
          BV = GETBITS planar_word2 6 5;
          planar57_word1 = 0;
          planar57_word2 = 0;
          planar57_word1 = PUTBITSHIGH planar57_word1 RO 6 63;
          planar57_word1 = PUTBITSHIGH planar57_word1 GO1 1 57;
          planar57_word1 = PUTBITSHIGH planar57_word1 GO2 6 56;
          planar57_word1 = PUTBITSHIGH planar57_word1 BO1 1 50;
          planar57_word1 = PUTBITSHIGH planar57_word1 BO2 2 49;
          planar57_word1 = PUTBITSHIGH planar57_word1 BO3 3 47;
          planar57_word1 = PUTBITSHIGH planar57_word1 RH1 5 44;
          planar57_word1 = PUTBITSHIGH planar57_word1 RH2 1 39;
          planar57_word1 = PUTBITSHIGH planar57_word1 GH 7 38;
          planar57_word2 = PUTBITS planar57_word2 BH 6 31;
          planar57_word2 = PUTBITS planar57_word2 RV 6 25;
          planar57_word2 = PUTBITS planar57_word2 GV 7 19;
          planar57_word2 = PUTBITS planar57_word2 BV 6 12
      in (planar57_word1, planar57_word2))"

definition unstuff58bits :: "uint \<Rightarrow> uint \<Rightarrow> uint \<times> uint" where
  "unstuff58bits thumbH_word1 thumbH_word2 =
     (let part0 = GETBITSHIGH thumbH_word1 7 62;
          part1 = GETBITSHIGH thumbH_word1 2 52;
          part2 = GETBITSHIGH thumbH_word1 16 49;
          part3 = GETBITSHIGH thumbH_word1 1 32;
          thumbH58_word1 = 0;
          thumbH58_word1 = PUTBITSHIGH thumbH58_word1 part0 7 57;
          thumbH58_word1 = PUTBITSHIGH thumbH58_word1 part1 2 50;
          thumbH58_word1 = PUTBITSHIGH thumbH58_word1 part2 16 48;
          thumbH58_word1 = PUTBITSHIGH thumbH58_word1 part3 1 32
      in (thumbH58_word1, thumbH_word2))"

definition unstuff59bits :: "uint \<Rightarrow> uint \<Rightarrow> uint \<times> uint" where
  "unstuff59bits thumbT_word1 thumbT_word2 =
     (let thumbT59_word1 = drop_bit 1 thumbT_word1;
          thumbT59_word1 = PUTBITSHIGH thumbT59_word1 thumbT_word1 1 32;
          R0a = GETBITSHIGH thumbT_word1 2 60;
          thumbT59_word1 = PUTBITSHIGH thumbT59_word1 R0a 2 58;
          thumbT59_word1 = PUTBITSHIGH thumbT59_word1 0 5 63
      in (thumbT59_word1, thumbT_word2))"

section \<open>Writes into the pixel buffer\<close>

text \<open>
  A block decoder never reads the image it is given: its whole effect is a sequence of
  byte stores \<^verbatim>\<open>img[offset] = value\<close>. A decoder is therefore modelled by the list of
  its stores, in program order, and \<open>store_writes\<close> replays such a list on a memory
  (a later store to an address overwrites an earlier one). The
  offsets are the \<^verbatim>\<open>int\<close> expressions of the source, taken as unbounded integers
  (the image sizes the callers use keep them far from the 32-bit limit); a memory is
  indexed by every integer, so that the model needs no buffer length.
\<close>

type_synonym "write" = "int \<times> uint8"
type_synonym memory = "int \<Rightarrow> uint8"

definition store_writes :: "('a \<times> 'v) list \<Rightarrow> ('a \<Rightarrow> 'v) \<Rightarrow> ('a \<Rightarrow> 'v)" where
  "store_writes ws m = fold (\<lambda>(a, v) m. m(a := v)) ws m"

section \<open>T-mode and H-mode decoders\<close>

definition PATTERN_H :: nat where "PATTERN_H = 0"
definition PATTERN_T :: nat where "PATTERN_T = 1"

text \<open>
  One component of \<^verbatim>\<open>decompressColor\<close>: \<^verbatim>\<open>(c << (8 - bits)) | (c >> (bits - (8 - bits)))\<close>
  computed on \<^verbatim>\<open>int\<close> and stored in a \<^verbatim>\<open>uint8\<close>.
\<close>

definition expand_component :: "nat \<Rightarrow> uint8 \<Rightarrow> uint8" where
  "expand_component bits c =
     word_of_int (push_bit (8 - bits) (uint c) OR drop_bit (bits - (8 - bits)) (uint c))"

definition decompressColor ::
  "nat \<Rightarrow> nat \<Rightarrow> nat \<Rightarrow> uint8 list list \<Rightarrow> uint8 list list" where
  "decompressColor R_B G_B B_B colors_RGB444 =
     [[expand_component R_B (colors_RGB444 ! 0 ! 0),
       expand_component G_B (colors_RGB444 ! 0 ! 1),
       expand_component B_B (colors_RGB444 ! 0 ! 2)],
      [expand_component R_B (colors_RGB444 ! 1 ! 0),
       expand_component G_B (colors_RGB444 ! 1 ! 1),
       expand_component B_B (colors_RGB444 ! 1 ! 2)]]"

definition clamp_uint8 :: "int \<Rightarrow> uint8" where
  "clamp_uint8 v = word_of_int (CLAMP 0 v 255)"

text \<open>
  \<^verbatim>\<open>calculatePaintColors59T\<close> and \<^verbatim>\<open>calculatePaintColors58H\<close> print a message and
  call \<^verbatim>\<open>exit(1)\<close> on a pattern they do not know: the result \<open>None\<close>.
\<close>

definition calculatePaintColors59T ::
  "uint8 \<Rightarrow> nat \<Rightarrow> uint8 list list \<Rightarrow> uint8 list list option" where
  "calculatePaintColors59T d p colors =
     (let C4 = [clamp_uint8 (uint (colors ! 1 ! 0) - table59T ! unat d),
                clamp_uint8 (uint (colors ! 1 ! 1) - table59T ! unat d),
                clamp_uint8 (uint (colors ! 1 ! 2) - table59T ! unat d)]
      in if p = PATTERN_T then
           Some [[colors ! 0 ! 0, colors ! 0 ! 1, colors ! 0 ! 2],
                 [clamp_uint8 (uint (colors ! 1 ! 0) + table59T ! unat d),
                  clamp_uint8 (uint (colors ! 1 ! 1) + table59T ! unat d),
                  clamp_uint8 (uint (colors ! 1 ! 2) + table59T ! unat d)],
                 [colors ! 1 ! 0, colors ! 1 ! 1, colors ! 1 ! 2],
                 C4]
         else None)"

definition calculatePaintColors58H ::
  "uint8 \<Rightarrow> nat \<Rightarrow> uint8 list list \<Rightarrow> uint8 list list option" where
  "calculatePaintColors58H d p colors =
     (let C4 = [clamp_uint8 (uint (colors ! 1 ! 0) - table58H ! unat d),
                clamp_uint8 (uint (colors ! 1 ! 1) - table58H ! unat d),
                clamp_uint8 (uint (colors ! 1 ! 2) - table58H ! unat d)]
      in if p = PATTERN_H then
           Some [[clamp_uint8 (uint (colors ! 0 ! 0) + table58H ! unat d),
                  clamp_uint8 (uint (colors ! 0 ! 1) + table58H ! unat d),
                  clamp_uint8 (uint (colors ! 0 ! 2) + table58H ! unat d)],
                 [clamp_uint8 (uint (colors ! 0 ! 0) - table58H ! unat d),
                  clamp_uint8 (uint (colors ! 0 ! 1) - table58H ! unat d),
                  clamp_uint8 (uint (colors ! 0 ! 2) - table58H ! unat d)],
                 [clamp_uint8 (uint (colors ! 1 ! 0) + table58H ! unat d),
                  clamp_uint8 (uint (colors ! 1 ! 1) + table58H ! unat d),
                  clamp_uint8 (uint (colors ! 1 ! 2) + table58H ! unat d)],
                 C4]
         else None)"

text \<open>
  The texel loop shared, statement for statement, by the T-mode and the H-mode decoder:
  the two-bit mask of texel \<open>(x, y)\<close> picks a paint colour, which is stored in the three
  colour channels.
\<close>

definition block_mask :: "uint \<Rightarrow> nat \<Rightarrow> nat \<Rightarrow> uint8" where
  "block_mask block_part2 x y =
     (ucast (push_bit 1 (GETBITS block_part2 1 ((y + x * 4) + 16))) :: uint8)
       OR ucast (GETBITS block_part2 1 (y + x * 4))"

definition paint_texel ::
  "uint8 list list \<Rightarrow> uint \<Rightarrow> int \<Rightarrow> int \<Rightarrow> int \<Rightarrow> int \<Rightarrow> nat \<Rightarrow> nat \<Rightarrow> write list" where
  "paint_texel paint_colors block_part2 width startx starty channels x y =
     (let m = unat (block_mask block_part2 x y)
      in [(channels * ((starty + int y) * width + startx + int x) + 0,
             clamp_uint8 (uint (paint_colors ! m ! 0))),
          (channels * ((starty + int y) * width + startx + int x) + 1,
             clamp_uint8 (uint (paint_colors ! m ! 1))),
          (channels * ((starty + int y) * width + startx + int x) + 2,
             clamp_uint8 (uint (paint_colors ! m ! 2)))])"

definition paint_block ::
  "uint8 list list \<Rightarrow> uint \<Rightarrow> int \<Rightarrow> int \<Rightarrow> int \<Rightarrow> int \<Rightarrow> write list" where
  "paint_block paint_colors block_part2 width startx starty channels =
     concat (map (\<lambda>x. concat (map (\<lambda>y.
        paint_texel paint_colors block_part2 width startx starty channels x y) [0..<4]))
       [0..<4])"

definition decompressBlockTHUMB59Tc ::
  "uint \<Rightarrow> uint \<Rightarrow> int \<Rightarrow> int \<Rightarrow> int \<Rightarrow> int \<Rightarrow> int \<Rightarrow> write list option" where
  "decompressBlockTHUMB59Tc block_part1 block_part2 width height startx starty channels =
     (let colorsRGB444 =
            [[ucast (GETBITSHIGH block_part1 4 58), ucast (GETBITSHIGH block_part1 4 54),
              ucast (GETBITSHIGH block_part1 4 50)],
             [ucast (GETBITSHIGH block_part1 4 46), ucast (GETBITSHIGH block_part1 4 42),
              ucast (GETBITSHIGH block_part1 4 38)]];
          distance = ucast (GETBITSHIGH block_part1 3 34);
          colors = decompressColor 4 4 4 colorsRGB444
      in case calculatePaintColors59T distance PATTERN_T colors of
           None \<Rightarrow> None
         | Some paint_colors \<Rightarrow>
             Some (paint_block paint_colors block_part2 width startx starty channels))"

text \<open>Lines 857 to 865 of the H-mode decoder: the distance index.\<close>

definition THUMB58H_distance :: "uint \<Rightarrow> uint8" where
  "THUMB58H_distance block_part1 =
     (let distance = (ucast (push_bit 1 (GETBITSHIGH block_part1 2 33)) :: uint8);
          col0 = GETBITSHIGH block_part1 12 57;
          col1 = GETBITSHIGH block_part1 12 45
      in if col0 \<ge> col1 then distance OR 1 else distance)"

definition decompressBlockTHUMB58Hc ::
  "uint \<Rightarrow> uint \<Rightarrow> int \<Rightarrow> int \<Rightarrow> int \<Rightarrow> int \<Rightarrow> int \<Rightarrow> write list option" where
  "decompressBlockTHUMB58Hc block_part1 block_part2 width height startx starty channels =
     (let colorsRGB444 =
            [[ucast (GETBITSHIGH block_part1 4 57), ucast (GETBITSHIGH block_part1 4 53),
              ucast (GETBITSHIGH block_part1 4 49)],
             [ucast (GETBITSHIGH block_part1 4 45), ucast (GETBITSHIGH block_part1 4 41),
              ucast (GETBITSHIGH block_part1 4 37)]];
          distance = THUMB58H_distance block_part1;
          colors = decompressColor 4 4 4 colorsRGB444
      in case calculatePaintColors58H distance PATTERN_H colors of
           None \<Rightarrow> None
         | Some paint_colors \<Rightarrow>
             Some (paint_block paint_colors block_part2 width startx starty channels))"

section \<open>Planar decoder\<close>

definition planar_channel :: "uint8 \<Rightarrow> uint8 \<Rightarrow> uint8 \<Rightarrow> nat \<Rightarrow> nat \<Rightarrow> uint8" where
  "planar_channel cO cH cV xx yy =
     clamp_uint8 (drop_bit 2 (int xx * (uint cH - uint cO) + int yy * (uint cV - uint cO)
                              + 4 * uint cO + 2))"

definition decompressBlockPlanar57c ::
  "uint \<Rightarrow> uint \<Rightarrow> int \<Rightarrow> int \<Rightarrow> int \<Rightarrow> int \<Rightarrow> int \<Rightarrow> write list" where
  "decompressBlockPlanar57c compressed57_1 compressed57_2 width height startx starty channels =
     (let colorO = [ucast (GETBITSHIGH compressed57_1 6 63) :: uint8,
                    ucast (GETBITSHIGH compressed57_1 7 57),
                    ucast (GETBITSHIGH compressed57_1 6 50)];
          colorH = [ucast (GETBITSHIGH compressed57_1 6 44) :: uint8,
                    ucast (GETBITSHIGH compressed57_1 7 38),
                    ucast (GETBITS compressed57_2 6 31)];
          colorV = [ucast (GETBITS compressed57_2 6 25) :: uint8,
                    ucast (GETBITS compressed57_2 7 19),
                    ucast (GETBITS compressed57_2 6 12)];
          colorO = [push_bit 2 (colorO ! 0) OR drop_bit 4 (colorO ! 0),
                    push_bit 1 (colorO ! 1) OR drop_bit 6 (colorO ! 1),
                    push_bit 2 (colorO ! 2) OR drop_bit 4 (colorO ! 2)];
          colorH = [push_bit 2 (colorH ! 0) OR drop_bit 4 (colorH ! 0),
                    push_bit 1 (colorH ! 1) OR drop_bit 6 (colorH ! 1),
                    push_bit 2 (colorH ! 2) OR drop_bit 4 (colorH ! 2)];
          colorV = [push_bit 2 (colorV ! 0) OR drop_bit 4 (colorV ! 0),
                    push_bit 1 (colorV ! 1) OR drop_bit 6 (colorV ! 1),
                    push_bit 2 (colorV ! 2) OR drop_bit 4 (colorV ! 2)]
      in concat (map (\<lambda>xx. concat (map (\<lambda>yy.
           [(channels * width * (starty + int yy) + channels * (startx + int xx) + 0,
               planar_channel (colorO ! 0) (colorH ! 0) (colorV ! 0) xx yy),
            (channels * width * (starty + int yy) + channels * (startx + int xx) + 1,
               planar_channel (colorO ! 1) (colorH ! 1) (colorV ! 1) xx yy),
            (channels * width * (starty + int yy) + channels * (startx + int xx) + 2,
               planar_channel (colorO ! 2) (colorH ! 2) (colorV ! 2) xx yy)])
          [0..<4])) [0..<4]))"

section \<open>Individual and differential decoder\<close>

text \<open>
  The texel body of the eight loop nests of \<^verbatim>\<open>decompressBlockDiffFlipC\<close>: the two index
  bits at position \<open>shift\<close> of the two planes, unscrambled, select the modifier which is
  added to the three channels of \<^verbatim>\<open>avg_color\<close>.
\<close>

definition pixel_index :: "uint \<Rightarrow> uint \<Rightarrow> nat \<Rightarrow> nat" where
  "pixel_index pixel_indices_MSB pixel_indices_LSB shift =
     (let index = unat (push_bit 1 (drop_bit shift pixel_indices_MSB AND 1)
                        OR (drop_bit shift pixel_indices_LSB AND 1))
      in unscramble ! index)"

definition diff_texel ::
  "uint8 list \<Rightarrow> nat \<Rightarrow> uint \<Rightarrow> uint \<Rightarrow> int \<Rightarrow> int \<Rightarrow> int \<Rightarrow> int \<Rightarrow> nat \<Rightarrow> write list" where
  "diff_texel avg_color table pixel_indices_MSB pixel_indices_LSB width channels x y shift =
     (let index = pixel_index pixel_indices_MSB pixel_indices_LSB shift
      in [(channels * (y * width + x) + 0,
             clamp_uint8 (uint (avg_color ! 0) + compressParams ! table ! index)),
          (channels * (y * width + x) + 1,
             clamp_uint8 (uint (avg_color ! 1) + compressParams ! table ! index)),
          (channels * (y * width + x) + 2,
             clamp_uint8 (uint (avg_color ! 2) + compressParams ! table ! index))])"

text \<open>
  A loop nest \<^verbatim>\<open>for (x ...) { for (y ...) { body; shift++; } shift += skip; }\<close> over
  the columns \<open>xs\<close> and the rows \<open>ys\<close>, threading \<open>shift\<close> and collecting the stores.
  The unflipped nests have \<open>skip = 0\<close>, the flipped ones \<open>skip = 2\<close>.
\<close>

definition texel_rows ::
  "(int \<Rightarrow> int \<Rightarrow> nat \<Rightarrow> 'w list) \<Rightarrow> int \<Rightarrow> int list \<Rightarrow> 'w list \<times> nat \<Rightarrow> 'w list \<times> nat" where
  "texel_rows body x ys st = fold (\<lambda>y (ws, shift). (ws @ body x y shift, shift + 1)) ys st"

definition texel_loops ::
  "(int \<Rightarrow> int \<Rightarrow> nat \<Rightarrow> 'w list) \<Rightarrow> int list \<Rightarrow> int list \<Rightarrow> nat \<Rightarrow> nat \<Rightarrow> 'w list" where
  "texel_loops body xs ys shift skip =
     fst (fold (\<lambda>x st. (let (ws, shift) = texel_rows body x ys st in (ws, shift + skip)))
            xs ([], shift))"

text \<open>The values \<open>from, from + 1, ..., from + n - 1\<close> a \<^verbatim>\<open>for\<close> loop runs through.\<close>

definition steps :: "int \<Rightarrow> nat \<Rightarrow> int list" where
  "steps from n = map (\<lambda>d. from + int d) [0..<n]"

text \<open>Sign extension of a three-bit field held in a \<^verbatim>\<open>signed char\<close>: shift left by
  five, then arithmetic shift right by five.\<close>

definition extend_sign :: "uint8 \<Rightarrow> uint8" where
  "extend_sign diff = signed_drop_bit 5 (push_bit 5 diff)"

definition expand5 :: "uint8 \<Rightarrow> uint8" where
  "expand5 c = push_bit 3 c OR drop_bit 2 c"

definition expand4 :: "uint8 \<Rightarrow> uint8" where
  "expand4 c = c OR push_bit 4 c"

definition decompressBlockDiffFlipC ::
  "uint \<Rightarrow> uint \<Rightarrow> int \<Rightarrow> int \<Rightarrow> int \<Rightarrow> int \<Rightarrow> int \<Rightarrow> write list" where
  "decompressBlockDiffFlipC block_part1 block_part2 width height startx starty channels =
     (let diffbit = GETBITSHIGH block_part1 1 33;
          flipbit = GETBITSHIGH block_part1 1 32
      in if diffbit = 0 then
           (let avg_color = [expand4 (ucast (GETBITSHIGH block_part1 4 63)),
                             expand4 (ucast (GETBITSHIGH block_part1 4 55)),
                             expand4 (ucast (GETBITSHIGH block_part1 4 47))];
                table = unat (push_bit 1 (GETBITSHIGH block_part1 3 39));
                pixel_indices_MSB = GETBITS block_part2 16 31;
                pixel_indices_LSB = GETBITS block_part2 16 15;
                first =
                  (if flipbit = 0 then
                     texel_loops (diff_texel avg_color table pixel_indices_MSB
                                    pixel_indices_LSB width channels)
                       (steps startx 2) (steps starty 4) 0 0
                   else
                     texel_loops (diff_texel avg_color table pixel_indices_MSB
                                    pixel_indices_LSB width channels)
                       (steps startx 4) (steps starty 2) 0 2);
                avg_color = [expand4 (ucast (GETBITSHIGH block_part1 4 59)),
                             expand4 (ucast (GETBITSHIGH block_part1 4 51)),
                             expand4 (ucast (GETBITSHIGH block_part1 4 43))];
                table = unat (push_bit 1 (GETBITSHIGH block_part1 3 36));
                pixel_indices_MSB = GETBITS block_part2 16 31;
                pixel_indices_LSB = GETBITS block_part2 16 15;
                second =
                  (if flipbit = 0 then
                     texel_loops (diff_texel avg_color table pixel_indices_MSB
                                    pixel_indices_LSB width channels)
                       (steps (startx + 2) 2) (steps starty 4) 8 0
                   else
                     texel_loops (diff_texel avg_color table pixel_indices_MSB
                                    pixel_indices_LSB width channels)
                       (steps startx 4) (steps (starty + 2) 2) 2 2)
            in first @ second)
         else
           (let enc_color1 = [ucast (GETBITSHIGH block_part1 5 63) :: uint8,
                              ucast (GETBITSHIGH block_part1 5 55),
                              ucast (GETBITSHIGH block_part1 5 47)];
                avg_color = [expand5 (enc_color1 ! 0), expand5 (enc_color1 ! 1),
                             expand5 (enc_color1 ! 2)];
                table = unat (push_bit 1 (GETBITSHIGH block_part1 3 39));
                pixel_indices_MSB = GETBITS block_part2 16 31;
                pixel_indices_LSB = GETBITS block_part2 16 15;
                first =
                  (if flipbit = 0 then
                     texel_loops (diff_texel avg_color table pixel_indices_MSB
                                    pixel_indices_LSB width channels)
                       (steps startx 2) (steps starty 4) 0 0
                   else
                     texel_loops (diff_texel avg_color table pixel_indices_MSB
                                    pixel_indices_LSB width channels)
                       (steps startx 4) (steps starty 2) 0 2);
                diff = [extend_sign (ucast (GETBITSHIGH block_part1 3 58)),
                        extend_sign (ucast (GETBITSHIGH block_part1 3 50)),
                        extend_sign (ucast (GETBITSHIGH block_part1 3 42))];
                enc_color2 = [enc_color1 ! 0 + diff ! 0, enc_color1 ! 1 + diff ! 1,
                              enc_color1 ! 2 + diff ! 2];
                avg_color = [expand5 (enc_color2 ! 0), expand5 (enc_color2 ! 1),
                             expand5 (enc_color2 ! 2)];
                table = unat (push_bit 1 (GETBITSHIGH block_part1 3 36));
                pixel_indices_MSB = GETBITS block_part2 16 31;
                pixel_indices_LSB = GETBITS block_part2 16 15;
                second =
                  (if flipbit = 0 then
                     texel_loops (diff_texel avg_color table pixel_indices_MSB
                                    pixel_indices_LSB width channels)
                       (steps (startx + 2) 2) (steps starty 4) 8 0
                   else
                     texel_loops (diff_texel avg_color table pixel_indices_MSB
                                    pixel_indices_LSB width channels)
                       (steps startx 4) (steps (starty + 2) 2) 2 2)
            in first @ second))"

section \<open>Mode dispatcher\<close>

text \<open>
  \<^verbatim>\<open>decompressBlockETC2c\<close> chooses a decoder and calls it. The choice is the function
  \<open>ETC2c_mode\<close>, which keeps the order of the \<^verbatim>\<open>if\<close> chain of the source;
  \<^verbatim>\<open>red\<close>, \<^verbatim>\<open>green\<close> and \<^verbatim>\<open>blue\<close> are \<^verbatim>\<open>signed char\<close>, compared as signed bytes.
\<close>

datatype mode = Mode_T | Mode_H | Mode_Planar | Mode_DiffFlip

definition second_color :: "uint \<Rightarrow> uint8 list" where
  "second_color block_part1 =
     (let color1 = [ucast (GETBITSHIGH block_part1 5 63) :: uint8,
                    ucast (GETBITSHIGH block_part1 5 55),
                    ucast (GETBITSHIGH block_part1 5 47)];
          diff = [extend_sign (ucast (GETBITSHIGH block_part1 3 58)),
                  extend_sign (ucast (GETBITSHIGH block_part1 3 50)),
                  extend_sign (ucast (GETBITSHIGH block_part1 3 42))]
      in [color1 ! 0 + diff ! 0, color1 ! 1 + diff ! 1, color1 ! 2 + diff ! 2])"

definition ETC2c_mode :: "uint \<Rightarrow> mode" where
  "ETC2c_mode block_part1 =
     (let diffbit = GETBITSHIGH block_part1 1 33
      in if diffbit \<noteq> 0 then
           (let red = second_color block_part1 ! 0;
                green = second_color block_part1 ! 1;
                blue = second_color block_part1 ! 2
            in if sint red < 0 \<or> sint red > 31 then Mode_T
               else if sint green < 0 \<or> sint green > 31 then Mode_H
               else if sint blue < 0 \<or> sint blue > 31 then Mode_Planar
               else Mode_DiffFlip)
         else Mode_DiffFlip)"

definition decompressBlockETC2c ::
  "uint \<Rightarrow> uint \<Rightarrow> int \<Rightarrow> int \<Rightarrow> int \<Rightarrow> int \<Rightarrow> int \<Rightarrow> write list option" where
  "decompressBlockETC2c block_part1 block_part2 width height startx starty channels =
     (case ETC2c_mode block_part1 of
        Mode_T \<Rightarrow>
          (let (block59_part1, block59_part2) = unstuff59bits block_part1 block_part2
           in decompressBlockTHUMB59Tc block59_part1 block59_part2 width height
                startx starty channels)
      | Mode_H \<Rightarrow>
          (let (block58_part1, block58_part2) = unstuff58bits block_part1 block_part2
           in decompressBlockTHUMB58Hc block58_part1 block58_part2 width height
                startx starty channels)
      | Mode_Planar \<Rightarrow>
          (let (block57_part1, block57_part2) = unstuff57bits block_part1 block_part2
           in Some (decompressBlockPlanar57c block57_part1 block57_part2 width height
                startx starty channels))
      | Mode_DiffFlip \<Rightarrow>
          Some (decompressBlockDiffFlipC block_part1 block_part2 width height
                  startx starty channels))"

section \<open>Punch-through differential decoder\<close>

text \<open>
  \<^verbatim>\<open>decompressBlockDifferentialWithAlphaC\<close> stores through two pointers, \<^verbatim>\<open>img\<close> and
  \<^verbatim>\<open>alpha\<close>. With \<^verbatim>\<open>channelsRGB == 3\<close> the alpha buffer is the caller's separate one;
  otherwise \<^verbatim>\<open>alpha = &img[0 + 3]\<close>, so that \<^verbatim>\<open>alpha[k]\<close> is \<^verbatim>\<open>img[3 + k]\<close>.
\<close>

datatype target = To_img | To_alpha

type_synonym awrite = "(target \<times> int) \<times> uint8"
type_synonym amemory = "target \<times> int \<Rightarrow> uint8"

definition alpha_store :: "int \<Rightarrow> int \<Rightarrow> uint8 \<Rightarrow> awrite" where
  "alpha_store channelsRGB k v =
     (if channelsRGB = 3 then ((To_alpha, k), v) else ((To_img, 3 + k), v))"

definition alpha_diff_texel ::
  "uint \<Rightarrow> uint8 list \<Rightarrow> nat \<Rightarrow> uint \<Rightarrow> uint \<Rightarrow> int \<Rightarrow> int \<Rightarrow> int \<Rightarrow> int \<Rightarrow> nat
     \<Rightarrow> awrite list" where
  "alpha_diff_texel diffbit avg_color table pixel_indices_MSB pixel_indices_LSB
       width channelsRGB x y shift =
     (let channelsA = (if channelsRGB = 3 then 1 else 4);
          index = pixel_index pixel_indices_MSB pixel_indices_LSB shift;
          modifier = compressParams ! table ! index;
          modifier = (if diffbit = 0 \<and> (index = 1 \<or> index = 2) then 0 else modifier);
          rgb = [((To_img, channelsRGB * (y * width + x) + 0),
                    clamp_uint8 (uint (avg_color ! 0) + modifier)),
                 ((To_img, channelsRGB * (y * width + x) + 1),
                    clamp_uint8 (uint (avg_color ! 1) + modifier)),
                 ((To_img, channelsRGB * (y * width + x) + 2),
                    clamp_uint8 (uint (avg_color ! 2) + modifier))]
      in if diffbit = 0 \<and> index = 1 then
           rgb @ [alpha_store channelsRGB ((y * width + x) * channelsA) 0,
                  ((To_img, channelsRGB * (y * width + x) + 0), 0),
                  ((To_img, channelsRGB * (y * width + x) + 1), 0),
                  ((To_img, channelsRGB * (y * width + x) + 2), 0)]
         else rgb @ [alpha_store channelsRGB ((y * width + x) * channelsA) 255])"

definition decompressBlockDifferentialWithAlphaC ::
  "uint \<Rightarrow> uint \<Rightarrow> int \<Rightarrow> int \<Rightarrow> int \<Rightarrow> int \<Rightarrow> int \<Rightarrow> awrite list" where
  "decompressBlockDifferentialWithAlphaC block_part1 block_part2 width height
       startx starty channelsRGB =
     (let diffbit = GETBITSHIGH block_part1 1 33;
          flipbit = GETBITSHIGH block_part1 1 32;
          enc_color1 = [ucast (GETBITSHIGH block_part1 5 63) :: uint8,
                        ucast (GETBITSHIGH block_part1 5 55),
                        ucast (GETBITSHIGH block_part1 5 47)];
          avg_color = [expand5 (enc_color1 ! 0), expand5 (enc_color1 ! 1),
                       expand5 (enc_color1 ! 2)];
          table = unat (push_bit 1 (GETBITSHIGH block_part1 3 39));
          pixel_indices_MSB = GETBITS block_part2 16 31;
          pixel_indices_LSB = GETBITS block_part2 16 15;
          first =
            (if flipbit = 0 then
               texel_loops (alpha_diff_texel diffbit avg_color table pixel_indices_MSB
                              pixel_indices_LSB width channelsRGB)
                 (steps startx 2) (steps starty 4) 0 0
             else
               texel_loops (alpha_diff_texel diffbit avg_color table pixel_indices_MSB
                              pixel_indices_LSB width channelsRGB)
                 (steps startx 4) (steps starty 2) 0 2);
          diff = [extend_sign (ucast (GETBITSHIGH block_part1 3 58)),
                  extend_sign (ucast (GETBITSHIGH block_part1 3 50)),
                  extend_sign (ucast (GETBITSHIGH block_part1 3 42))];
          enc_color2 = [enc_color1 ! 0 + diff ! 0, enc_color1 ! 1 + diff ! 1,
                        enc_color1 ! 2 + diff ! 2];
          avg_color = [expand5 (enc_color2 ! 0), expand5 (enc_color2 ! 1),
                       expand5 (enc_color2 ! 2)];
          table = unat (push_bit 1 (GETBITSHIGH block_part1 3 36));
          pixel_indices_MSB = GETBITS block_part2 16 31;
          pixel_indices_LSB = GETBITS block_part2 16 15;
          second =
            (if flipbit = 0 then
               texel_loops (alpha_diff_texel diffbit avg_color table pixel_indices_MSB
                              pixel_indices_LSB width channelsRGB)
                 (steps (startx + 2) 2) (steps starty 4) 8 0
             else
               texel_loops (alpha_diff_texel diffbit avg_color table pixel_indices_MSB
                              pixel_indices_LSB width channelsRGB)
                 (steps startx 4) (steps (starty + 2) 2) 2 2)
      in first @ second)"

section \<open>Eight-bit alpha decoder\<close>

text \<open>
  \<^verbatim>\<open>data\<close> is a pointer into the compressed stream: the memory from that address on,
  indexed by the byte offset.
\<close>

definition getbit :: "uint8 \<Rightarrow> nat \<Rightarrow> nat \<Rightarrow> uint8" where
  "getbit input frompos topos =
     (if frompos > topos
      then word_of_int (drop_bit (frompos - topos) (push_bit frompos 1 AND uint input))
      else word_of_int (push_bit (topos - frompos) (push_bit frompos 1 AND uint input)))"

definition clamp :: "int \<Rightarrow> int" where
  "clamp val =
     (let val = (if val < 0 then 0 else val);
          val = (if val > 255 then 255 else val)
      in val)"

text \<open>One round of the \<^verbatim>\<open>bitpos\<close> loop, on the state \<^verbatim>\<open>(index, bit, byte)\<close>.\<close>

definition alpha_index_step ::
  "(nat \<Rightarrow> uint8) \<Rightarrow> nat \<Rightarrow> int \<times> nat \<times> nat \<Rightarrow> int \<times> nat \<times> nat" where
  "alpha_index_step data bitpos = (\<lambda>(index, bit, byte).
     let index = index OR uint (getbit (data byte) (7 - bit) (2 - bitpos));
         bit = bit + 1
     in if bit > 7 then (index, 0, byte + 1) else (index, bit, byte))"

text \<open>One texel, on the state \<^verbatim>\<open>(stores so far, bit, byte)\<close>.\<close>

definition alpha_texel ::
  "globals \<Rightarrow> (nat \<Rightarrow> uint8) \<Rightarrow> int \<Rightarrow> nat \<Rightarrow> int \<Rightarrow> int \<Rightarrow> int \<Rightarrow> int \<Rightarrow> nat \<Rightarrow> nat
     \<Rightarrow> write list \<times> nat \<times> nat \<Rightarrow> write list \<times> nat \<times> nat" where
  "alpha_texel g data alpha table width ix iy channels x y = (\<lambda>(ws, bit, byte).
     let (index, bit, byte) = fold (alpha_index_step data) [0..<3] (0, bit, byte)
     in (ws @ [((ix + int x + (iy + int y) * width) * channels,
                 word_of_int (clamp (alpha + alphaTable g ! table ! nat index)))],
         bit, byte))"

definition decompressBlockAlphaC ::
  "globals \<Rightarrow> (nat \<Rightarrow> uint8) \<Rightarrow> int \<Rightarrow> int \<Rightarrow> int \<Rightarrow> int \<Rightarrow> int \<Rightarrow> write list" where
  "decompressBlockAlphaC g data width height ix iy channels =
     (let alpha = uint (data 0);
          table = unat (data 1)
      in fst (fold (\<lambda>x st. fold (\<lambda>y st.
                 alpha_texel g data alpha table width ix iy channels x y st) [0..<4] st)
               [0..<4] ([], 0, 2)))"

section \<open>The block fields, read as numbers\<close>

text \<open>
  The fields of the first half-word as the format describes them, by position and width,
  written with \<open>div\<close> and \<open>mod\<close> on the value of the word: bit \<open>b\<close> of the 64-bit
  block, for \<open>b \<ge> 32\<close>, is bit \<open>b - 32\<close> of \<^verbatim>\<open>block_part1\<close>. Channel \<open>c\<close> is 0 for
  red, 1 for green and 2 for blue. The five-bit base colour of channel \<open>c\<close> sits at bits
  \<open>63 - 8c\<close> down to \<open>59 - 8c\<close>, the three-bit delta below it.
\<close>

definition sign_extend3 :: "nat \<Rightarrow> int" where
  "sign_extend3 d = (if d < 4 then int d else int d - 8)"

definition base5 :: "uint \<Rightarrow> nat \<Rightarrow> nat" where
  "base5 block_part1 c = (unat block_part1 div 2 ^ (27 - 8 * c)) mod 32"

definition delta3 :: "uint \<Rightarrow> nat \<Rightarrow> nat" where
  "delta3 block_part1 c = (unat block_part1 div 2 ^ (24 - 8 * c)) mod 8"

definition second_base :: "uint \<Rightarrow> nat \<Rightarrow> int" where
  "second_base block_part1 c =
     int (base5 block_part1 c) + sign_extend3 (delta3 block_part1 c)"

definition out_of_range :: "int \<Rightarrow> bool" where
  "out_of_range v \<longleftrightarrow> v < 0 \<or> 31 < v"

text \<open>
  The remaining fields of the individual and differential layouts. Texel \<open>(x, y)\<close> of a
  block has column \<open>x\<close> and row \<open>y\<close>, both from 0 to 3; its two index bits sit at
  position \<open>4x + y\<close> of the two sixteen-bit planes of \<^verbatim>\<open>block_part2\<close>. Sub-block 0 is
  the left half (the top half when the flip bit, bit 32, is set), sub-block 1 the other
  half. The three-bit table codeword of sub-block 0 is at bits 39 to 37, that of sub-block
  1 at bits 36 to 34; the four-bit base colours of the individual layout are at bits
  \<open>63 - 8c\<close> to \<open>60 - 8c\<close> and \<open>59 - 8c\<close> to \<open>56 - 8c\<close>.
\<close>

definition sub_block :: "uint \<Rightarrow> nat \<Rightarrow> nat \<Rightarrow> nat" where
  "sub_block block_part1 x y =
     (if unat block_part1 mod 2 = 0 then (if x < 2 then 0 else 1)
      else (if y < 2 then 0 else 1))"

definition codeword :: "uint \<Rightarrow> nat \<Rightarrow> nat" where
  "codeword block_part1 sub = (unat block_part1 div 2 ^ (5 - 3 * sub)) mod 8"

definition base4 :: "uint \<Rightarrow> nat \<Rightarrow> nat \<Rightarrow> nat" where
  "base4 block_part1 sub c = (unat block_part1 div 2 ^ (28 - 8 * c - 4 * sub)) mod 16"

text \<open>
  The base colour of a sub-block expanded to eight bits, as the specification writes it:
  \<open>(v << 4) | v\<close> for a four-bit value, \<open>(v << 3) | (v >> 2)\<close> for a five-bit one (the
  base of sub-block 0, and base plus delta for sub-block 1).
\<close>

definition base_color :: "uint \<Rightarrow> nat \<Rightarrow> nat \<Rightarrow> int" where
  "base_color block_part1 sub c =
     (if (unat block_part1 div 2) mod 2 = 0
      then (let v = int (base4 block_part1 sub c) in push_bit 4 v OR v)
      else (let v = (if sub = 0 then int (base5 block_part1 c)
                     else second_base block_part1 c)
            in push_bit 3 v OR drop_bit 2 v))"

definition texel_bits :: "uint \<Rightarrow> nat \<Rightarrow> nat \<Rightarrow> nat" where
  "texel_bits block_part2 x y =
     2 * ((unat block_part2 div 2 ^ (16 + (4 * x + y))) mod 2)
     + (unat block_part2 div 2 ^ (4 * x + y)) mod 2"

text \<open>
  The order in which the loop nests of the differential decoders visit the sixteen
  texels, and the arguments they run the texel body with.
\<close>

definition texel_order :: "uint \<Rightarrow> (nat \<times> nat) list" where
  "texel_order block_part1 =
     (if GETBITSHIGH block_part1 1 32 = 0
      then [(0, 0), (0, 1), (0, 2), (0, 3), (1, 0), (1, 1), (1, 2), (1, 3),
            (2, 0), (2, 1), (2, 2), (2, 3), (3, 0), (3, 1), (3, 2), (3, 3)]
      else [(0, 0), (0, 1), (1, 0), (1, 1), (2, 0), (2, 1), (3, 0), (3, 1),
            (0, 2), (0, 3), (1, 2), (1, 3), (2, 2), (2, 3), (3, 2), (3, 3)])"

definition in_second_half :: "uint \<Rightarrow> nat \<Rightarrow> nat \<Rightarrow> bool" where
  "in_second_half block_part1 x y =
     (if GETBITSHIGH block_part1 1 32 = 0 then 2 \<le> x else 2 \<le> y)"

definition avg_individual :: "uint \<Rightarrow> bool \<Rightarrow> uint8 list" where
  "avg_individual block_part1 second =
     (if second
      then [expand4 (ucast (GETBITSHIGH block_part1 4 59)),
            expand4 (ucast (GETBITSHIGH block_part1 4 51)),
            expand4 (ucast (GETBITSHIGH block_part1 4 43))]
      else [expand4 (ucast (GETBITSHIGH block_part1 4 63)),
            expand4 (ucast (GETBITSHIGH block_part1 4 55)),
            expand4 (ucast (GETBITSHIGH block_part1 4 47))])"

definition avg_differential :: "uint \<Rightarrow> bool \<Rightarrow> uint8 list" where
  "avg_differential block_part1 second =
     (if second
      then [expand5 (ucast (GETBITSHIGH block_part1 5 63)
                     + extend_sign (ucast (GETBITSHIGH block_part1 3 58))),
            expand5 (ucast (GETBITSHIGH block_part1 5 55)
                     + extend_sign (ucast (GETBITSHIGH block_part1 3 50))),
            expand5 (ucast (GETBITSHIGH block_part1 5 47)
                     + extend_sign (ucast (GETBITSHIGH block_part1 3 42)))]
      else [expand5 (ucast (GETBITSHIGH block_part1 5 63)),
            expand5 (ucast (GETBITSHIGH block_part1 5 55)),
            expand5 (ucast (GETBITSHIGH block_part1 5 47))])"

definition half_table :: "uint \<Rightarrow> bool \<Rightarrow> nat" where
  "half_table block_part1 second =
     (if second then unat (push_bit 1 (GETBITSHIGH block_part1 3 36))
      else unat (push_bit 1 (GETBITSHIGH block_part1 3 39)))"

definition diff_chunk ::
  "uint \<Rightarrow> uint \<Rightarrow> int \<Rightarrow> int \<Rightarrow> int \<Rightarrow> int \<Rightarrow> nat \<times> nat \<Rightarrow> write list" where
  "diff_chunk block_part1 block_part2 width startx starty channels = (\<lambda>(x, y).
     diff_texel
       (if GETBITSHIGH block_part1 1 33 = 0
        then avg_individual block_part1 (in_second_half block_part1 x y)
        else avg_differential block_part1 (in_second_half block_part1 x y))
       (half_table block_part1 (in_second_half block_part1 x y))
       (GETBITS block_part2 16 31) (GETBITS block_part2 16 15) width channels
       (startx + int x) (starty + int y) (4 * x + y))"

definition alpha_diff_chunk ::
  "uint \<Rightarrow> uint \<Rightarrow> int \<Rightarrow> int \<Rightarrow> int \<Rightarrow> int \<Rightarrow> nat \<times> nat \<Rightarrow> awrite list" where
  "alpha_diff_chunk block_part1 block_part2 width startx starty channelsRGB = (\<lambda>(x, y).
     alpha_diff_texel (GETBITSHIGH block_part1 1 33)
       (avg_differential block_part1 (in_second_half block_part1 x y))
       (half_table block_part1 (in_second_half block_part1 x y))
       (GETBITS block_part2 16 31) (GETBITS block_part2 16 15) width channelsRGB
       (startx + int x) (starty + int y) (4 * x + y))"

text \<open>The value the specification gives channel \<open>c\<close> of texel \<open>(x, y)\<close>.\<close>

definition texel_value :: "uint \<Rightarrow> uint \<Rightarrow> nat \<Rightarrow> nat \<Rightarrow> nat \<Rightarrow> int" where
  "texel_value block_part1 block_part2 x y c =
     CLAMP 0 (base_color block_part1 (sub_block block_part1 x y) c
              + compressParams ! (2 * codeword block_part1 (sub_block block_part1 x y))
                  ! (unscramble ! texel_bits block_part2 x y)) 255"

text \<open>
  Where the punch-through decoder keeps the alpha byte of the texel at pixel position
  \<open>p\<close>, and the bytes that belong to that texel.
\<close>

definition alpha_address :: "int \<Rightarrow> int \<Rightarrow> target \<times> int" where
  "alpha_address channelsRGB p =
     (if channelsRGB = 3 then (To_alpha, p) else (To_img, 3 + p * 4))"

definition texel_cells :: "int \<Rightarrow> int \<Rightarrow> (target \<times> int) set" where
  "texel_cells channelsRGB p =
     {a. (\<exists>k. 0 \<le> k \<and> k < channelsRGB \<and> a = (To_img, channelsRGB * p + k))
         \<or> a = (To_alpha, p)}"

section \<open>Container reader\<close>

text \<open>
  \<^verbatim>\<open>LoadKTX\<close> reads a file through \<^verbatim>\<open>fread\<close> and \<^verbatim>\<open>fseek\<close>. A file is its bytes
  and a cursor. \<^verbatim>\<open>fread(ptr, size, 1, f) == 1\<close> holds when one whole item of \<open>size > 0\<close>
  bytes could be read; \<^verbatim>\<open>fseek(f, off, SEEK_CUR)\<close> moves the cursor and succeeds also
  beyond the end of a regular file. The host is little-endian, as the check of the
  endianness field against \<^verbatim>\<open>KTX_ENDIAN_REF\<close> presupposes for files written that way.
\<close>

record FILE =
  contents :: "uint8 list"
  cursor :: nat

definition fread :: "nat \<Rightarrow> FILE \<Rightarrow> (uint8 list \<times> FILE) option" where
  "fread sz f =
     (if 0 < sz \<and> cursor f + sz \<le> length (contents f)
      then Some (take sz (drop (cursor f) (contents f)), f\<lparr>cursor := cursor f + sz\<rparr>)
      else None)"

definition fseek_cur :: "nat \<Rightarrow> FILE \<Rightarrow> FILE" where
  "fseek_cur off f = f\<lparr>cursor := cursor f + off\<rparr>"

definition uint32_of :: "uint8 list \<Rightarrow> uint" where
  "uint32_of bs =
     (ucast (bs ! 0) OR push_bit 8 (ucast (bs ! 1)) OR push_bit 16 (ucast (bs ! 2))
      OR push_bit 24 (ucast (bs ! 3)))"

record KTX_header =
  ktx_identifier :: "uint8 list"
  endianness :: uint
  glType :: uint
  glTypeSize :: uint
  glFormat :: uint
  glInternalFormat :: uint
  glBaseInternalFormat :: uint
  pixelWidth :: uint
  pixelHeight :: uint
  pixelDepth :: uint
  numberOfArrayElements :: uint
  numberOfFaces :: uint
  numberOfMipmapLevels :: uint
  bytesOfKeyValueData :: uint

definition header_of :: "uint8 list \<Rightarrow> KTX_header" where
  "header_of bs =
     \<lparr>ktx_identifier = take 12 bs,
      endianness = uint32_of (drop 12 bs),
      glType = uint32_of (drop 16 bs),
      glTypeSize = uint32_of (drop 20 bs),
      glFormat = uint32_of (drop 24 bs),
      glInternalFormat = uint32_of (drop 28 bs),
      glBaseInternalFormat = uint32_of (drop 32 bs),
      pixelWidth = uint32_of (drop 36 bs),
      pixelHeight = uint32_of (drop 40 bs),
      pixelDepth = uint32_of (drop 44 bs),
      numberOfArrayElements = uint32_of (drop 48 bs),
      numberOfFaces = uint32_of (drop 52 bs),
      numberOfMipmapLevels = uint32_of (drop 56 bs),
      bytesOfKeyValueData = uint32_of (drop 60 bs)\<rparr>"

definition KTX_ENDIAN_REF :: uint where "KTX_ENDIAN_REF = 0x04030201"
definition GL_COMPRESSED_RGB8_ETC2 :: uint where "GL_COMPRESSED_RGB8_ETC2 = 0x9274"
definition GL_COMPRESSED_RGBA8_ETC2_EAC :: uint where "GL_COMPRESSED_RGBA8_ETC2_EAC = 0x9278"
definition GL_ETC1_RGB8_OES :: uint where "GL_ETC1_RGB8_OES = 0x8D64"

text \<open>
  The enumerations \<^verbatim>\<open>TextureFormat\<close> and \<^verbatim>\<open>TextureQuality\<close> are declared outside
  this file; these are the members the file names, and two further quality tiers for the
  values that are neither \<^verbatim>\<open>kLow\<close> nor \<^verbatim>\<open>kMedium\<close>.
\<close>

datatype TextureFormat = kETC2_RGB | kETC2_RGBA | kETC1

datatype TextureQuality = kLow | kMedium | kHigh | kHigher

text \<open>
  The errors of the specification. A failed \<^verbatim>\<open>BA_PRECONDITION\<close> and every
  \<^verbatim>\<open>throw\<close> end the load: a failed open, read or seek is an \<open>IOError\<close>, a failed
  allocation an \<open>AllocationError\<close>, every other failed check a \<open>StructuralError\<close>.
  \<open>ProcessExit\<close> stands for a decoder calling \<^verbatim>\<open>exit(1)\<close>.
\<close>

datatype error = IOError | StructuralError | AllocationError | FitError | ProcessExit

text \<open>
  Modelled from the spec: \<^verbatim>\<open>static_cast_check_fit\<close> is defined outside this file.
  As its name says it converts its argument and checks that the value fits the target
  type: the value when it fits a 32-bit \<^verbatim>\<open>int\<close>, and otherwise no result, which ends
  the load with \<open>FitError\<close>.
\<close>

definition static_cast_check_fit_int :: "uint \<Rightarrow> int option" where
  "static_cast_check_fit_int v = (if uint v < 2 ^ 31 then Some (uint v) else None)"

text \<open>
  The arrays the caller passes in: indexed by the level, with a null pointer as \<open>None\<close>
  and an allocated, filled buffer as its bytes.
\<close>

record outputs =
  buffers :: "nat \<Rightarrow> uint8 list option"
  widths :: "nat \<Rightarrow> int"
  heights :: "nat \<Rightarrow> int"
  formats :: "nat \<Rightarrow> TextureFormat"
  sizes :: "nat \<Rightarrow> nat"
  base_level :: int

text \<open>
  The variables the level loop changes: the file, the running dimensions \<^verbatim>\<open>x\<close> and
  \<^verbatim>\<open>y\<close> (32-bit \<^verbatim>\<open>int\<close>, halved rounding up by \<^verbatim>\<open>(x + 1) >> 1\<close>, an arithmetic
  shift), and the caller's arrays.
\<close>

record load_state =
  stream :: FILE
  x_dim :: uint
  y_dim :: uint
  out :: outputs

definition halve :: "uint \<Rightarrow> uint" where
  "halve v = signed_drop_bit 1 (v + 1)"

text \<open>
  One round of the loop over the levels. \<open>malloc_ok size\<close> tells whether
  \<^verbatim>\<open>malloc(size)\<close> returns a buffer.
\<close>

definition load_level ::
  "(uint \<Rightarrow> bool) \<Rightarrow> TextureFormat \<Rightarrow> load_state \<Rightarrow> uint \<Rightarrow> error + load_state" where
  "load_level malloc_ok internal_format st level =
     (case fread 4 (stream st) of
        None \<Rightarrow> Inl IOError
      | Some (bytes, f) \<Rightarrow>
          (let size = uint32_of bytes;
               sizeRounded = (size + 3) AND NOT 3
           in if size \<noteq> sizeRounded then Inl StructuralError
              else case static_cast_check_fit_int level of
                None \<Rightarrow> Inl FitError
              | Some lv \<Rightarrow>
                  if base_level (out st) \<le> lv then
                    (if \<not> malloc_ok size then Inl AllocationError
                     else case fread (unat size) f of
                       None \<Rightarrow> Inl IOError
                     | Some (payload, f') \<Rightarrow>
                         Inr (st\<lparr>stream := f',
                                 out := (out st)
                                   \<lparr>sizes := (sizes (out st))(unat level := unat size),
                                    buffers := (buffers (out st))(unat level := Some payload),
                                    widths := (widths (out st))(unat level := sint (x_dim st)),
                                    heights := (heights (out st))(unat level := sint (y_dim st)),
                                    formats := (formats (out st))(unat level := internal_format)\<rparr>,
                                 x_dim := halve (x_dim st),
                                 y_dim := halve (y_dim st)\<rparr>))
                  else
                    Inr (st\<lparr>stream := fseek_cur (unat size) f,
                            out := (out st)
                              \<lparr>buffers := (buffers (out st))(unat level := None)\<rparr>,
                            x_dim := halve (x_dim st),
                            y_dim := halve (y_dim st)\<rparr>)))"

fun load_levels ::
  "(uint \<Rightarrow> bool) \<Rightarrow> TextureFormat \<Rightarrow> nat list \<Rightarrow> load_state \<Rightarrow> error + load_state" where
  "load_levels malloc_ok internal_format [] st = Inr st"
| "load_levels malloc_ok internal_format (level # levels) st =
     (case load_level malloc_ok internal_format st (word_of_nat level) of
        Inl e \<Rightarrow> Inl e
      | Inr st' \<Rightarrow> load_levels malloc_ok internal_format levels st')"

definition internal_format_of :: "uint \<Rightarrow> TextureFormat option" where
  "internal_format_of f =
     (if f = GL_COMPRESSED_RGB8_ETC2 then Some kETC2_RGB
      else if f = GL_COMPRESSED_RGBA8_ETC2_EAC then Some kETC2_RGBA
      else if f = GL_COMPRESSED_RGBA8_ETC2_EAC then Some kETC2_RGBA
      else if f = GL_ETC1_RGB8_OES then Some kETC1
      else None)"

text \<open>
  The two steps that may raise the base level. The conversion of the level count is only
  evaluated when the conditions before it hold, as \<^verbatim>\<open>&&\<close> does.
\<close>

definition drop_level_medium_low ::
  "KTX_header \<Rightarrow> TextureQuality \<Rightarrow> int \<Rightarrow> int \<Rightarrow> error + int" where
  "drop_level_medium_low header texture_quality min_quality base =
     (if (texture_quality = kLow \<or> texture_quality = kMedium) \<and> min_quality < 2 then
        (case static_cast_check_fit_int (numberOfMipmapLevels header) of
           None \<Rightarrow> Inl FitError
         | Some n \<Rightarrow> Inr (if n \<ge> base + 1 then base + 1 else base))
      else Inr base)"

definition drop_level_low ::
  "KTX_header \<Rightarrow> TextureQuality \<Rightarrow> int \<Rightarrow> int \<Rightarrow> error + int" where
  "drop_level_low header texture_quality min_quality base =
     (if texture_quality = kLow \<and> min_quality < 1
         \<and> pixelWidth header > 128 \<and> pixelHeight header > 128 then
        (case static_cast_check_fit_int (numberOfMipmapLevels header) of
           None \<Rightarrow> Inl FitError
         | Some n \<Rightarrow> Inr (if n \<ge> base + 1 then base + 1 else base))
      else Inr base)"

text \<open>
  \<^verbatim>\<open>LoadKTX\<close> up to the end of the level loop. The file argument is \<open>None\<close> when it
  cannot be opened. The result is the state at the end of the loop, from which
  \<^verbatim>\<open>LoadKTX\<close> hands the caller's arrays back.
\<close>

definition LoadKTX_run ::
  "(uint \<Rightarrow> bool) \<Rightarrow> uint8 list option \<Rightarrow> outputs \<Rightarrow> TextureQuality \<Rightarrow> int
     \<Rightarrow> error + load_state" where
  "LoadKTX_run malloc_ok file_name outs texture_quality min_quality =
     (case file_name of
        None \<Rightarrow> Inl IOError
      | Some bytes \<Rightarrow>
         (case fread 64 \<lparr>contents = bytes, cursor = 0\<rparr> of
            None \<Rightarrow> Inl IOError
          | Some (hbytes, f) \<Rightarrow>
             (let header = header_of hbytes
              in if endianness header \<noteq> KTX_ENDIAN_REF then Inl StructuralError
                 else if numberOfArrayElements header \<noteq> 0 then Inl StructuralError
                 else if numberOfFaces header \<noteq> 1 then Inl StructuralError
                 else if bytesOfKeyValueData header \<noteq> 0 then Inl StructuralError
                 else if \<not> (pixelWidth header > 0 \<and> pixelHeight header > 0
                            \<and> pixelDepth header = 0) then Inl StructuralError
                 else case internal_format_of (glInternalFormat header) of
                   None \<Rightarrow> Inl StructuralError
                 | Some internal_format \<Rightarrow>
                    (case drop_level_medium_low header texture_quality min_quality 0 of
                       Inl e \<Rightarrow> Inl e
                     | Inr b1 \<Rightarrow>
                        (case drop_level_low header texture_quality min_quality b1 of
                           Inl e \<Rightarrow> Inl e
                         | Inr b2 \<Rightarrow>
                             load_levels malloc_ok internal_format
                               [0..<unat (numberOfMipmapLevels header)]
                               \<lparr>stream = f, x_dim = pixelWidth header,
                                y_dim = pixelHeight header,
                                out = outs\<lparr>base_level := b2\<rparr>\<rparr>)))))"

definition LoadKTX ::
  "(uint \<Rightarrow> bool) \<Rightarrow> uint8 list option \<Rightarrow> outputs \<Rightarrow> TextureQuality \<Rightarrow> int
     \<Rightarrow> error + outputs" where
  "LoadKTX malloc_ok file_name outs texture_quality min_quality =
     (case LoadKTX_run malloc_ok file_name outs texture_quality min_quality of
        Inl e \<Rightarrow> Inl e
      | Inr st \<Rightarrow> Inr (out st))"

text \<open>
  Where level \<open>l\<close> starts in a file, when every level before it has been consumed: the
  header takes 64 bytes, a level its four-byte length and that many bytes of payload.
\<close>

definition declared_size :: "uint8 list \<Rightarrow> nat \<Rightarrow> uint" where
  "declared_size bytes off = uint32_of (take 4 (drop off bytes))"

fun level_offset :: "uint8 list \<Rightarrow> nat \<Rightarrow> nat" where
  "level_offset bytes 0 = 64"
| "level_offset bytes (Suc l) =
     level_offset bytes l + 4 + unat (declared_size bytes (level_offset bytes l))"

definition mip_levels :: "uint8 list \<Rightarrow> nat" where
  "mip_levels bytes = unat (numberOfMipmapLevels (header_of (take 64 bytes)))"

text \<open>
  What a materialised level \<open>l\<close> looks like in the caller's arrays, and what the loop has
  established once it has gone through the levels below \<open>n\<close>.
\<close>

definition level_filled ::
  "uint8 list \<Rightarrow> TextureFormat \<Rightarrow> uint \<Rightarrow> uint \<Rightarrow> outputs \<Rightarrow> nat \<Rightarrow> bool" where
  "level_filled bytes fmt W H res l \<longleftrightarrow>
     (let sz = unat (declared_size bytes (level_offset bytes l))
      in 0 < sz \<and> level_offset bytes l + 4 + sz \<le> length bytes
         \<and> buffers res l = Some (take sz (drop (level_offset bytes l + 4) bytes))
         \<and> sizes res l = sz
         \<and> widths res l = sint ((halve ^^ l) W)
         \<and> heights res l = sint ((halve ^^ l) H)
         \<and> formats res l = fmt)"

definition levels_done ::
  "uint8 list \<Rightarrow> TextureFormat \<Rightarrow> uint \<Rightarrow> uint \<Rightarrow> int \<Rightarrow> nat \<Rightarrow> load_state \<Rightarrow> bool" where
  "levels_done bytes fmt W H k n st \<longleftrightarrow>
     contents (stream st) = bytes \<and> cursor (stream st) = level_offset bytes n
     \<and> x_dim st = (halve ^^ n) W \<and> y_dim st = (halve ^^ n) H
     \<and> base_level (out st) = k
     \<and> (\<forall>l<n. unat (declared_size bytes (level_offset bytes l)) mod 4 = 0
               \<and> (int l < k \<longrightarrow> buffers (out st) l = None)
               \<and> (k \<le> int l \<longrightarrow> level_filled bytes fmt W H (out st) l))"

text \<open>A small container and caller state, used to run the reader on.\<close>

definition example_outputs :: outputs where
  "example_outputs =
     \<lparr>buffers = (\<lambda>l. Some []), widths = (\<lambda>l. 0), heights = (\<lambda>l. 0),
      formats = (\<lambda>l. kETC1), sizes = (\<lambda>l. 0), base_level = 0\<rparr>"

definition example_state :: load_state where
  "example_state =
     \<lparr>stream = \<lparr>contents = [6, 0, 0, 0, 1, 2, 3, 4, 5, 6], cursor = 0\<rparr>,
      x_dim = 8, y_dim = 8, out = example_outputs\<rparr>"

definition example_file :: "uint8 list" where
  "example_file =
     [0xAB, 0x4B, 0x54, 0x58, 0x20, 0x31, 0x31, 0xBB, 0x0D, 0x0A, 0x1A, 0x0A,
      1, 2, 3, 4,  0, 0, 0, 0,  1, 0, 0, 0,  0, 0, 0, 0,
      0x74, 0x92, 0, 0,  0, 0, 0, 0,
      8, 0, 0, 0,  8, 0, 0, 0,  0, 0, 0, 0,
      0, 0, 0, 0,  1, 0, 0, 0,  2, 0, 0, 0,  0, 0, 0, 0,
      4, 0, 0, 0,  1, 2, 3, 4,
      4, 0, 0, 0,  5, 6, 7, 8]"

section \<open>Image assembler\<close>

text \<open>
  \<^verbatim>\<open>KTXUnpackETC\<close> computes with \<^verbatim>\<open>unsigned int\<close> and \<^verbatim>\<open>int\<close>; both are 32-bit
  words here, so that every product wraps as it does in C, and an \<^verbatim>\<open>int\<close> handed to a
  decoder is the signed reading of its word. The source pointer is the memory from
  \<^verbatim>\<open>srcETC\<close> on. The contents of freshly allocated memory are a parameter, \<open>junk\<close>, and
  so is the answer of \<^verbatim>\<open>malloc\<close> for a size.

  The local \<^verbatim>\<open>alphaFormat\<close> is only ever \<^verbatim>\<open>AF_NONE\<close> or \<^verbatim>\<open>AF_8BIT\<close>: the cases of
  the \<^verbatim>\<open>switch\<close> that would set the other two values are commented out in the source.
  The branches for \<^verbatim>\<open>AF_1BIT\<close> and \<^verbatim>\<open>AF_11BIT\<close> can therefore not be reached and
  the model has the two reachable values only.
\<close>

datatype alpha_format = AF_NONE | AF_8BIT

definition GL_RGB :: uint where "GL_RGB = 0x1907"
definition GL_RGBA :: uint where "GL_RGBA = 0x1908"
definition GL_UNSIGNED_BYTE :: uint where "GL_UNSIGNED_BYTE = 0x1401"

definition readBigEndian4byteWord :: "(nat \<Rightarrow> uint8) \<Rightarrow> uint" where
  "readBigEndian4byteWord s =
     (push_bit 24 (ucast (s 0)) OR push_bit 16 (ucast (s 1)) OR push_bit 8 (ucast (s 2))
      OR ucast (s 3))"

text \<open>
  The \<^verbatim>\<open>switch\<close> on the source format: channels, bytes per channel, the values stored
  through \<^verbatim>\<open>format\<close> and \<^verbatim>\<open>type\<close>, and the alpha format; \<open>None\<close> in the default case,
  which throws.
\<close>

definition format_case :: "uint \<Rightarrow> (uint \<times> uint \<times> uint \<times> uint \<times> alpha_format) option" where
  "format_case srcFormat =
     (if srcFormat = GL_ETC1_RGB8_OES \<or> srcFormat = GL_COMPRESSED_RGB8_ETC2
      then Some (3, 1, GL_RGB, GL_UNSIGNED_BYTE, AF_NONE)
      else if srcFormat = GL_COMPRESSED_RGBA8_ETC2_EAC
      then Some (4, 1, GL_RGBA, GL_UNSIGNED_BYTE, AF_8BIT)
      else None)"

text \<open>
  The body of the block loop, on the state (offset of \<^verbatim>\<open>src\<close>, stores into
  \<^verbatim>\<open>*dstImage\<close> so far). The alpha decoder is handed \<^verbatim>\<open>*dstImage + 3\<close>, so its stores
  land three bytes further. \<open>None\<close> when a decoder ends the process.
\<close>

definition unpack_block ::
  "globals \<Rightarrow> (nat \<Rightarrow> uint8) \<Rightarrow> alpha_format \<Rightarrow> uint \<Rightarrow> uint \<Rightarrow> uint \<Rightarrow> nat \<Rightarrow> nat
     \<Rightarrow> nat \<times> write list \<Rightarrow> (nat \<times> write list) option" where
  "unpack_block g srcETC alphaFormat width height dstChannels y x = (\<lambda>(src, ws).
     let (src, ws) =
           (if alphaFormat = AF_8BIT
            then (src + 8,
                  ws @ map (\<lambda>(a, v). (3 + a, v))
                         (decompressBlockAlphaC g (\<lambda>i. srcETC (src + i)) (sint width)
                            (sint height) (sint (4 * word_of_nat x :: uint))
                            (sint (4 * word_of_nat y :: uint)) (sint dstChannels)))
            else (src, ws));
         block_part1 = readBigEndian4byteWord (\<lambda>i. srcETC (src + i));
         src = src + 4;
         block_part2 = readBigEndian4byteWord (\<lambda>i. srcETC (src + i));
         src = src + 4
     in case decompressBlockETC2c block_part1 block_part2 (sint width) (sint height)
               (sint (4 * word_of_nat x :: uint)) (sint (4 * word_of_nat y :: uint))
               (sint dstChannels) of
          None \<Rightarrow> None
        | Some t \<Rightarrow> Some (src, ws @ t))"

fun unpack_blocks ::
  "(nat \<Rightarrow> nat \<times> write list \<Rightarrow> (nat \<times> write list) option) \<Rightarrow> nat list
     \<Rightarrow> nat \<times> write list \<Rightarrow> (nat \<times> write list) option" where
  "unpack_blocks body [] st = Some st"
| "unpack_blocks body (x # xs) st =
     (case body x st of None \<Rightarrow> None | Some st' \<Rightarrow> unpack_blocks body xs st')"

text \<open>
  The copy of the active area: the three nested loops over \<^verbatim>\<open>yy\<close>, \<^verbatim>\<open>xx\<close> and
  \<^verbatim>\<open>zz\<close>, each round one assignment \<^verbatim>\<open>newimg[...] = (*dstImage)[...]\<close> with both
  indices computed in \<^verbatim>\<open>unsigned int\<close>.
\<close>

definition copy_index :: "nat \<Rightarrow> uint \<Rightarrow> nat \<Rightarrow> uint \<Rightarrow> nat \<Rightarrow> nat" where
  "copy_index yy rowBytes xx dstPixelBytes zz =
     unat (word_of_nat yy * rowBytes + word_of_nat xx * dstPixelBytes + word_of_nat zz)"

definition copy_byte ::
  "memory \<Rightarrow> uint \<Rightarrow> uint \<Rightarrow> uint \<Rightarrow> nat \<Rightarrow> nat \<Rightarrow> nat \<Rightarrow> uint8 list \<Rightarrow> uint8 list" where
  "copy_byte dstImage activeRowBytes dstRowBytes dstPixelBytes yy xx zz newimg =
     newimg[copy_index yy activeRowBytes xx dstPixelBytes zz :=
              dstImage (int (copy_index yy dstRowBytes xx dstPixelBytes zz))]"

definition copy_active ::
  "memory \<Rightarrow> uint \<Rightarrow> uint \<Rightarrow> uint \<Rightarrow> uint \<Rightarrow> uint \<Rightarrow> uint8 list \<Rightarrow> uint8 list" where
  "copy_active dstImage activeRowBytes dstRowBytes dstPixelBytes activeWidth activeHeight newimg =
     fold (\<lambda>yy. fold (\<lambda>xx. fold (\<lambda>zz.
             copy_byte dstImage activeRowBytes dstRowBytes dstPixelBytes yy xx zz)
           [0..<unat dstPixelBytes]) [0..<unat activeWidth]) [0..<unat activeHeight] newimg"

record unpacked =
  dstImage :: "uint8 list"
  gl_format :: uint
  gl_type :: uint
  globals_after :: globals

definition padded_width :: "uint \<Rightarrow> uint" where
  "padded_width activeWidth = ((activeWidth + 3) div 4) * 4"

text \<open>
  The first part of \<^verbatim>\<open>KTXUnpackETC\<close>, up to the end of the block loop: the padded
  buffer, as the memory from \<^verbatim>\<open>*dstImage\<close> on after all stores.
\<close>

definition KTXUnpackETC_padded ::
  "globals \<Rightarrow> (nat \<Rightarrow> bool) \<Rightarrow> memory \<Rightarrow> (nat \<Rightarrow> uint8) \<Rightarrow> uint \<Rightarrow> uint \<Rightarrow> uint
     \<Rightarrow> error + (memory \<times> globals)" where
  "KTXUnpackETC_padded g malloc_ok junk srcETC srcFormat activeWidth activeHeight =
     (case format_case srcFormat of
        None \<Rightarrow> Inl StructuralError
      | Some (dstChannels, dstChannelBytes, format, type, alphaFormat) \<Rightarrow>
          (let width = padded_width activeWidth;
               height = padded_width activeHeight
           in if \<not> malloc_ok (unat (dstChannels * dstChannelBytes * width * height))
              then Inl AllocationError
              else
                (let g = (if alphaFormat \<noteq> AF_NONE then setupAlphaTable g else g)
                 in case unpack_blocks
                           (\<lambda>y. unpack_blocks
                                  (unpack_block g srcETC alphaFormat width height dstChannels y)
                                  [0..<unat (width div 4)])
                           [0..<unat (height div 4)] (0, []) of
                      None \<Rightarrow> Inl ProcessExit
                    | Some (src, ws) \<Rightarrow> Inr (store_writes ws junk, g))))"

definition KTXUnpackETC ::
  "globals \<Rightarrow> (nat \<Rightarrow> bool) \<Rightarrow> memory \<Rightarrow> (nat \<Rightarrow> uint8) \<Rightarrow> uint \<Rightarrow> uint \<Rightarrow> uint
     \<Rightarrow> error + unpacked" where
  "KTXUnpackETC g malloc_ok junk srcETC srcFormat activeWidth activeHeight =
     (case KTXUnpackETC_padded g malloc_ok junk srcETC srcFormat activeWidth activeHeight of
        Inl e \<Rightarrow> Inl e
      | Inr (padded, g) \<Rightarrow>
          (case format_case srcFormat of
             None \<Rightarrow> Inl StructuralError
           | Some (dstChannels, dstChannelBytes, format, type, alphaFormat) \<Rightarrow>
               (let width = padded_width activeWidth;
                    height = padded_width activeHeight
                in if \<not> (height = activeHeight \<and> width = activeWidth) then
                     (let dstPixelBytes = dstChannels * dstChannelBytes;
                          dstRowBytes = dstPixelBytes * width;
                          activeRowBytes = activeWidth * dstPixelBytes;
                          newsize = unat (dstPixelBytes * activeWidth * activeHeight)
                      in if \<not> malloc_ok newsize then Inl AllocationError
                         else Inr \<lparr>dstImage =
                                     copy_active padded activeRowBytes dstRowBytes
                                       dstPixelBytes activeWidth activeHeight
                                       (map (\<lambda>i. junk (int i)) [0..<newsize]),
                                   gl_format = format, gl_type = type, globals_after = g\<rparr>)
                   else
                     Inr \<lparr>dstImage =
                            map (\<lambda>i. padded (int i))
                              [0..<unat (dstChannels * dstChannelBytes * width * height)],
                          gl_format = format, gl_type = type, globals_after = g\<rparr>)))"

text \<open>
  The index of byte \<open>zz\<close> of pixel \<open>xx\<close> of row \<open>yy\<close> as a natural number, for rows
  of \<open>rowBytes\<close> bytes: what \<open>copy_index\<close> computes as long as nothing wraps.
\<close>

definition flat_index :: "nat \<Rightarrow> nat \<Rightarrow> nat \<times> nat \<times> nat \<Rightarrow> nat" where
  "flat_index rowBytes pixelBytes = (\<lambda>(yy, xx, zz). yy * rowBytes + xx * pixelBytes + zz)"

text \<open>
  An image of 6 by 5 pixels, padded to 8 by 8, unpacked from a source of zero bytes:
  the padded buffer and the result, for a source format.
\<close>

definition example_padded :: "uint \<Rightarrow> memory" where
  "example_padded srcFormat =
     (case KTXUnpackETC_padded initial_globals (\<lambda>n. True) (\<lambda>a. 0) (\<lambda>i. 0) srcFormat 6 5 of
        Inl e \<Rightarrow> (\<lambda>a. 0)
      | Inr (padded, g) \<Rightarrow> padded)"

definition example_unpacked :: "uint \<Rightarrow> unpacked" where
  "example_unpacked srcFormat =
     (case KTXUnpackETC initial_globals (\<lambda>n. True) (\<lambda>a. 0) (\<lambda>i. 0) srcFormat 6 5 of
        Inl e \<Rightarrow> \<lparr>dstImage = [], gl_format = 0, gl_type = 0, globals_after = initial_globals\<rparr>
      | Inr res \<Rightarrow> res)"

section \<open>Properties of the alpha modifier table\<close>

text \<open>The inner loops, one column at a time: which cells have changed after \<open>n\<close> columns.\<close>

lemma mul_cells_prefix:
  assumes "i < length t" "n \<le> length (t ! i)"
  shows "length (fold (\<lambda>j t. mul_cell i t j) [0..<n] t) = length t
       \<and> (\<forall>i'. length (fold (\<lambda>j t. mul_cell i t j) [0..<n] t ! i') = length (t ! i'))
       \<and> (\<forall>i' j'. fold (\<lambda>j t. mul_cell i t j) [0..<n] t ! i' ! j' =
            (if i' = i \<and> j' < n then t ! (16 + i mod 16) ! j' * int (i div 16)
             else t ! i' ! j'))"
  using assms
proof (induction n)
  case 0
  then show ?case by simp
next
  case (Suc n)
  let ?r = "fold (\<lambda>j t. mul_cell i t j) [0..<n] t"
  from Suc have IH: "length ?r = length t" "\<And>i'. length (?r ! i') = length (t ! i')"
    "\<And>i' j'. ?r ! i' ! j' =
       (if i' = i \<and> j' < n then t ! (16 + i mod 16) ! j' * int (i div 16) else t ! i' ! j')"
    by auto
  have step: "fold (\<lambda>j t. mul_cell i t j) [0..<Suc n] t
      = ?r[i := (?r ! i)[n := ?r ! (16 + i mod 16) ! n * int (i div 16)]]"
    by (simp add: mul_cell_def)
  have ilen: "i < length ?r" using IH Suc.prems by simp
  have nlen: "n < length (?r ! i)" using IH Suc.prems by simp
  show ?case
    unfolding step using ilen nlen IH
    by (auto simp: nth_list_update)
qed

lemma seed_cells_prefix:
  assumes "i < length t" "n \<le> length (t ! i)"
  shows "length (fold (\<lambda>j t. seed_cell i t j) [0..<n] t) = length t
       \<and> (\<forall>i'. length (fold (\<lambda>j t. seed_cell i t j) [0..<n] t ! i') = length (t ! i'))
       \<and> (\<forall>i' j'. fold (\<lambda>j t. seed_cell i t j) [0..<n] t ! i' ! j' =
            (if i' = i \<and> j' < n then seed (i - 16) j' else t ! i' ! j'))"
  using assms
proof (induction n)
  case 0
  then show ?case by simp
next
  case (Suc n)
  let ?r = "fold (\<lambda>j t. seed_cell i t j) [0..<n] t"
  from Suc have IH: "length ?r = length t" "\<And>i'. length (?r ! i') = length (t ! i')"
    "\<And>i' j'. ?r ! i' ! j' = (if i' = i \<and> j' < n then seed (i - 16) j' else t ! i' ! j')"
    by auto
  have step: "fold (\<lambda>j t. seed_cell i t j) [0..<Suc n] t
      = ?r[i := (?r ! i)[n := seed (i - 16) n]]"
    by (simp add: seed_cell_def seed_def Let_def)
  have ilen: "i < length ?r" using IH Suc.prems by simp
  have nlen: "n < length (?r ! i)" using IH Suc.prems by simp
  show ?case
    unfolding step using ilen nlen IH
    by (auto simp: nth_list_update)
qed

lemma seed_row_nth:
  assumes "i < length t" "8 \<le> length (t ! i)"
  shows "length (seed_row i t) = length t"
    and "length (seed_row i t ! i') = length (t ! i')"
    and "seed_row i t ! i' ! j' =
           (if i' = i \<and> j' < 8 then seed (i - 16) j' else t ! i' ! j')"
  using seed_cells_prefix [OF assms] unfolding seed_row_def by blast+

lemma mul_row_nth:
  assumes "i < length t" "8 \<le> length (t ! i)"
  shows "length (mul_row i t) = length t"
    and "length (mul_row i t ! i') = length (t ! i')"
    and "mul_row i t ! i' ! j' =
           (if i' = i \<and> j' < 8 then t ! (16 + i mod 16) ! j' * int (i div 16)
            else t ! i' ! j')"
  using mul_cells_prefix [OF assms] unfolding mul_row_def by blast+

text \<open>The outer loops, one row at a time.\<close>

lemma seed_rows_prefix:
  assumes "n \<le> 16" "16 + n \<le> length t"
    "\<forall>i. 16 \<le> i \<and> i < 32 \<longrightarrow> 8 \<le> length (t ! i)"
  shows "length (fold seed_row [16..<16 + n] t) = length t
       \<and> (\<forall>i'. length (fold seed_row [16..<16 + n] t ! i') = length (t ! i'))
       \<and> (\<forall>i' j'. fold seed_row [16..<16 + n] t ! i' ! j' =
            (if 16 \<le> i' \<and> i' < 16 + n \<and> j' < 8 then seed (i' - 16) j' else t ! i' ! j'))"
  using assms
proof (induction n)
  case 0
  then show ?case by simp
next
  case (Suc n)
  let ?r = "fold seed_row [16..<16 + n] t"
  from Suc have IH: "length ?r = length t" "\<And>i'. length (?r ! i') = length (t ! i')"
    "\<And>i' j'. ?r ! i' ! j' =
       (if 16 \<le> i' \<and> i' < 16 + n \<and> j' < 8 then seed (i' - 16) j' else t ! i' ! j')"
    by auto
  have "[16..<Suc (16 + n)] = [16..<16 + n] @ [16 + n]"
    by (rule upt_Suc_append) simp
  then have step: "fold seed_row [16..<16 + Suc n] t = seed_row (16 + n) ?r"
    by (simp only: add_Suc_right fold_append fold_simps o_apply)
  have a: "16 + n < length ?r" using IH Suc.prems by simp
  have b: "8 \<le> length (?r ! (16 + n))" using IH Suc.prems by simp
  show ?case
    unfolding step using IH
    by (auto simp: seed_row_nth [OF a b])
qed

lemma mul_rows_prefix:
  assumes "n \<le> 256" "256 \<le> length t" "\<forall>i < 256. 8 \<le> length (t ! i)"
  shows "length (fold mul_row [0..<n] t) = length t
       \<and> (\<forall>i'. length (fold mul_row [0..<n] t ! i') = length (t ! i'))
       \<and> (\<forall>i' j'. fold mul_row [0..<n] t ! i' ! j' =
            (if i' < n \<and> j' < 8 then t ! (16 + i' mod 16) ! j' * int (i' div 16)
             else t ! i' ! j'))"
  using assms
proof (induction n)
  case 0
  then show ?case by simp
next
  case (Suc n)
  let ?r = "fold mul_row [0..<n] t"
  from Suc have IH: "length ?r = length t" "\<And>i'. length (?r ! i') = length (t ! i')"
    "\<And>i' j'. ?r ! i' ! j' =
       (if i' < n \<and> j' < 8 then t ! (16 + i' mod 16) ! j' * int (i' div 16) else t ! i' ! j')"
    by auto
  have step: "fold mul_row [0..<Suc n] t = mul_row n ?r"
    by simp
  have a: "n < length ?r" using IH Suc.prems by simp
  have b: "8 \<le> length (?r ! n)" using IH Suc.prems by simp
  have old: "(16 + n mod 16) div 16 = 1" "(16 + n mod 16) mod 16 = n mod 16"
    by (simp_all add: div_add1_eq)
  have rd: "\<And>j'. ?r ! (16 + n mod 16) ! j' = t ! (16 + n mod 16) ! j'"
    using IH(3) old by simp
  show ?case
    unfolding step using IH(1,2) rd
    by (auto simp: mul_row_nth [OF a b] IH(3))
qed

lemma setupAlphaTable_entry:
  assumes "alphaTableInitialized s = 0" "table_shape (alphaTable s)" "i < 256" "j < 8"
  shows "alphaTable (setupAlphaTable s) ! i ! j = seed (i mod 16) j * int (i div 16)"
proof -
  let ?t = "alphaTable s"
  have len: "length ?t = 256" and rows: "\<And>i. i < 256 \<Longrightarrow> length (?t ! i) = 8"
    using assms(2) by (simp_all add: table_shape_def list_all_length)
  have sr: "seed_rows ?t = fold seed_row [16..<16 + 16] ?t"
    by (simp add: seed_rows_def del: upt_rec_numeral)
  have s: "length (seed_rows ?t) = length ?t"
    "\<And>i'. length (seed_rows ?t ! i') = length (?t ! i')"
    "\<And>i' j'. seed_rows ?t ! i' ! j' =
       (if 16 \<le> i' \<and> i' < 32 \<and> j' < 8 then seed (i' - 16) j' else ?t ! i' ! j')"
    using seed_rows_prefix [of 16 ?t] len rows unfolding sr by simp_all
  have m: "mul_rows (seed_rows ?t) ! i ! j
             = seed_rows ?t ! (16 + i mod 16) ! j * int (i div 16)"
    using mul_rows_prefix [of 256 "seed_rows ?t"] s(1,2) len rows assms(3,4)
    unfolding mul_rows_def by simp
  show ?thesis
    using assms(1) m s(3) [of "16 + i mod 16" j] assms(4)
    by (simp add: setupAlphaTable_def)
qed

lemma setupAlphaTable_again: "setupAlphaTable (setupAlphaTable s) = setupAlphaTable s"
  by (simp add: setupAlphaTable_def)

text \<open>
  Claim C5. Starting with the flag clear and the table a 256 by 8 array, after
  \<^verbatim>\<open>setupAlphaTable\<close> every entry of a row \<open>i\<close> from 16 to 255 is the seed entry of
  row \<open>(i - 16) mod 16\<close> times \<open>i div 16\<close>, and calling \<^verbatim>\<open>setupAlphaTable\<close> a second
  time changes nothing.
\<close>

theorem setupAlphaTable_rows_multiples:
  assumes "alphaTableInitialized s = 0" "table_shape (alphaTable s)"
    "16 \<le> i" "i \<le> 255" "j < 8"
  shows "alphaTable (setupAlphaTable s) ! i ! j = seed ((i - 16) mod 16) j * int (i div 16)
     \<and> setupAlphaTable (setupAlphaTable s) = setupAlphaTable s"
proof -
  have "(i - 16) mod 16 = i mod 16"
    using assms(3) le_mod_geq [of 16 i] by simp
  then show ?thesis
    using setupAlphaTable_entry [OF assms(1,2), of i j] assms setupAlphaTable_again
    by simp
qed

theorem setupAlphaTable_rows_multiples_witness:
  "alphaTableInitialized initial_globals = 0 \<and> table_shape (alphaTable initial_globals)
   \<and> (16::nat) \<le> 37 \<and> (37::nat) \<le> 255 \<and> (5::nat) < 8
   \<and> alphaTable (setupAlphaTable initial_globals) ! 37 ! 5 = 12
   \<and> setupAlphaTable (setupAlphaTable initial_globals) = setupAlphaTable initial_globals"
  using setupAlphaTable_rows_multiples [of initial_globals 37 5]
  by (simp add: initial_globals_def table_shape_def list_all_iff seed_def alphaBase_def)

section \<open>Bit fields as numbers\<close>

lemma GETBITSHIGH_take_drop:
  "GETBITSHIGH w sz pos = take_bit sz (drop_bit ((pos - 32) + 1 - sz) w)"
  unfolding GETBITSHIGH_def
  by (simp only: push_bit_of_1 take_bit_eq_mask mask_eq_exp_minus_1)

lemma GETBITS_take_drop:
  "GETBITS w sz pos = take_bit sz (drop_bit (pos + 1 - sz) w)"
  unfolding GETBITS_def
  by (simp only: push_bit_of_1 take_bit_eq_mask mask_eq_exp_minus_1)

lemma unat_GETBITSHIGH:
  "unat (GETBITSHIGH w sz pos) = (unat w div 2 ^ ((pos - 32) + 1 - sz)) mod 2 ^ sz"
  unfolding GETBITSHIGH_take_drop
  by (simp only: unsigned_take_bit_eq unat_drop_bit_eq
        take_bit_eq_mod [where ?'a = nat] drop_bit_eq_div [where ?'a = nat])

lemma unat_GETBITS:
  "unat (GETBITS w sz pos) = (unat w div 2 ^ (pos + 1 - sz)) mod 2 ^ sz"
  unfolding GETBITS_take_drop
  by (simp only: unsigned_take_bit_eq unat_drop_bit_eq
        take_bit_eq_mod [where ?'a = nat] drop_bit_eq_div [where ?'a = nat])

lemma unat_ucast8: "unat (x :: uint) < 256 \<Longrightarrow> unat (ucast x :: uint8) = unat x"
  by (simp add: unsigned_ucast_eq take_bit_eq_mod)

lemma unat_push1: "unat (x :: uint) < 128 \<Longrightarrow> unat (push_bit 1 x) = 2 * unat x"
proof -
  assume a: "unat x < 128"
  have "unat (push_bit 1 x) = take_bit LENGTH(32) (push_bit 1 (unat x))"
    by (simp only: unsigned_push_bit_eq)
  also have "\<dots> = 2 * unat x"
    using a by (simp add: take_bit_eq_mod push_bit_eq_mult)
  finally show ?thesis .
qed

lemma unat_field8:
  assumes "sz \<le> 8"
  shows "unat (ucast (GETBITSHIGH w sz pos) :: uint8)
           = (unat w div 2 ^ ((pos - 32) + 1 - sz)) mod 2 ^ sz"
proof -
  have "(2::nat) ^ sz \<le> 2 ^ 8" using assms by (intro power_increasing) simp_all
  moreover have "unat (GETBITSHIGH w sz pos) < 2 ^ sz"
    unfolding unat_GETBITSHIGH by simp
  ultimately have "unat (GETBITSHIGH w sz pos) < 256" by simp
  then show ?thesis by (simp add: unat_ucast8 unat_GETBITSHIGH)
qed

lemma uint_unat_less: "unat (b :: 'a::len word) < n \<Longrightarrow> uint b < int n"
proof -
  assume "unat b < n"
  then have "int (unat b) < int n" by (simp only: of_nat_less_iff)
  then show ?thesis by simp
qed

section \<open>The H-mode distance\<close>

text \<open>
  Claim C3. In the canonical H-mode layout the two stored distance bits are bits 33 and
  32 of the block (the two low bits of \<^verbatim>\<open>block_part1\<close>), \<^verbatim>\<open>col0\<close> is the twelve-bit
  field at bits 57 to 46 and \<^verbatim>\<open>col1\<close> the one at bits 45 to 34. The distance index is
  twice the stored value, plus one exactly when \<open>col0 \<ge> col1\<close>: its low bit is a function
  of the two packed colours alone. \<^verbatim>\<open>decompressBlockTHUMB58Hc\<close> computes its paint
  colours from this index.
\<close>

theorem THUMB58H_distance_reconstructed:
  "unat (THUMB58H_distance block_part1) =
     2 * (unat block_part1 mod 4)
     + (if (unat block_part1 div 2 ^ 2) mod 2 ^ 12 \<le> (unat block_part1 div 2 ^ 14) mod 2 ^ 12
        then 1 else 0)
   \<and> decompressBlockTHUMB58Hc block_part1 block_part2 width height startx starty channels =
       map_option (\<lambda>paint_colors. paint_block paint_colors block_part2 width startx starty channels)
         (calculatePaintColors58H (THUMB58H_distance block_part1) PATTERN_H
            (decompressColor 4 4 4
               [[ucast (GETBITSHIGH block_part1 4 57), ucast (GETBITSHIGH block_part1 4 53),
                 ucast (GETBITSHIGH block_part1 4 49)],
                [ucast (GETBITSHIGH block_part1 4 45), ucast (GETBITSHIGH block_part1 4 41),
                 ucast (GETBITSHIGH block_part1 4 37)]]))"
proof -
  have s: "unat (GETBITSHIGH block_part1 2 33) = unat block_part1 mod 4"
    by (simp add: unat_GETBITSHIGH)
  then have lt: "unat (GETBITSHIGH block_part1 2 33) < 4" by simp
  have p: "unat (push_bit 1 (GETBITSHIGH block_part1 2 33)) = 2 * (unat block_part1 mod 4)"
    using lt s unat_push1 [of "GETBITSHIGH block_part1 2 33"] by simp
  have d: "unat (ucast (push_bit 1 (GETBITSHIGH block_part1 2 33)) :: uint8)
             = 2 * (unat block_part1 mod 4)"
    using p lt unat_ucast8 [of "push_bit 1 (GETBITSHIGH block_part1 2 33)"] by simp
  have c: "(GETBITSHIGH block_part1 12 45 \<le> GETBITSHIGH block_part1 12 57)
      \<longleftrightarrow> (unat block_part1 div 2 ^ 2) mod 2 ^ 12 \<le> (unat block_part1 div 2 ^ 14) mod 2 ^ 12"
    by (simp add: word_le_nat_alt unat_GETBITSHIGH)
  have o: "unat ((ucast (push_bit 1 (GETBITSHIGH block_part1 2 33)) :: uint8) OR 1)
             = 2 * (unat block_part1 mod 4) + 1"
    by (simp only: unsigned_or_eq d unsigned_1) (simp add: or_Suc_0_eq)
  have dist: "unat (THUMB58H_distance block_part1) =
     2 * (unat block_part1 mod 4)
     + (if (unat block_part1 div 2 ^ 2) mod 2 ^ 12 \<le> (unat block_part1 div 2 ^ 14) mod 2 ^ 12
        then 1 else 0)"
    unfolding THUMB58H_distance_def Let_def
    using c d o by simp
  have dec: "decompressBlockTHUMB58Hc block_part1 block_part2 width height startx starty channels =
       map_option (\<lambda>paint_colors. paint_block paint_colors block_part2 width startx starty channels)
         (calculatePaintColors58H (THUMB58H_distance block_part1) PATTERN_H
            (decompressColor 4 4 4
               [[ucast (GETBITSHIGH block_part1 4 57), ucast (GETBITSHIGH block_part1 4 53),
                 ucast (GETBITSHIGH block_part1 4 49)],
                [ucast (GETBITSHIGH block_part1 4 45), ucast (GETBITSHIGH block_part1 4 41),
                 ucast (GETBITSHIGH block_part1 4 37)]]))"
    unfolding decompressBlockTHUMB58Hc_def Let_def
    by (simp split: option.split)
  show ?thesis using dist dec by (rule conjI)
qed

section \<open>The mode dispatcher\<close>

lemma small_word8_cases:
  assumes "unat (d :: uint8) < 8"
  shows "d = 0 \<or> d = 1 \<or> d = 2 \<or> d = 3 \<or> d = 4 \<or> d = 5 \<or> d = 6 \<or> d = 7"
proof -
  have e: "\<And>k. unat d = k \<Longrightarrow> d = word_of_nat k" by auto
  have "unat d = 0 \<or> unat d = 1 \<or> unat d = 2 \<or> unat d = 3
        \<or> unat d = 4 \<or> unat d = 5 \<or> unat d = 6 \<or> unat d = 7"
    using assms by arith
  then show ?thesis
    using e [of 0] e [of 1] e [of 2] e [of 3] e [of 4] e [of 5] e [of 6] e [of 7]
    by (elim disjE) simp_all
qed

lemma sint_extend_sign:
  assumes "unat (d :: uint8) < 8"
  shows "sint (extend_sign d) = sign_extend3 (unat d)"
  using small_word8_cases [OF assms]
  by (elim disjE) (simp_all add: extend_sign_def sign_extend3_def)

lemma sint_small8:
  assumes "unat (b :: uint8) < 128"
  shows "sint b = int (unat b)"
proof -
  have u: "uint b < 128" using uint_unat_less [OF assms] by simp
  have "sint b = signed_take_bit 7 (uint b)" by (simp add: sint_uint)
  also have "\<dots> = uint b"
  proof (rule signed_take_bit_int_eq_self)
    have "(0::int) \<le> uint b" by simp
    then show "- (2 ^ 7) \<le> uint b" by (rule order_trans [rotated]) simp
    show "uint b < 2 ^ 7" using u by simp
  qed
  finally show ?thesis by simp
qed

lemma sint_base_plus_diff:
  assumes "unat (b :: uint8) < 32" "unat (d :: uint8) < 8"
  shows "sint (b + extend_sign d) = int (unat b) + sign_extend3 (unat d)"
proof -
  have b: "sint b = int (unat b)" using assms(1) by (intro sint_small8) simp
  have d: "sint (extend_sign d) = sign_extend3 (unat d)"
    by (rule sint_extend_sign [OF assms(2)])
  have "- 4 \<le> sign_extend3 (unat d)" "sign_extend3 (unat d) \<le> 3"
    using assms(2) unfolding sign_extend3_def by (simp_all del: of_nat_unat)
  moreover have "0 \<le> int (unat b)" "int (unat b) < 32"
    using assms(1) by (simp_all del: of_nat_unat)
  ultimately have r: "- 128 \<le> int (unat b) + sign_extend3 (unat d)"
     "int (unat b) + sign_extend3 (unat d) < 128"
    by linarith+
  have "sint (b + extend_sign d) = signed_take_bit 7 (sint b + sint (extend_sign d))"
    by (simp add: sint_word_add)
  also have "\<dots> = sint b + sint (extend_sign d)"
    unfolding b d using r
    by (intro signed_take_bit_int_eq_self) simp_all
  finally show ?thesis unfolding b d .
qed

lemma base_field_bound: "unat (ucast (GETBITSHIGH w 5 p) :: uint8) < 32"
  by (simp add: unat_field8)

lemma delta_field_bound: "unat (ucast (GETBITSHIGH w 3 p) :: uint8) < 8"
  by (simp add: unat_field8)

lemma sint_second_color:
  "sint (second_color block_part1 ! 0) = second_base block_part1 0"
  "sint (second_color block_part1 ! 1) = second_base block_part1 1"
  "sint (second_color block_part1 ! 2) = second_base block_part1 2"
  unfolding second_color_def Let_def second_base_def base5_def delta3_def
  by (simp_all add: sint_base_plus_diff [OF base_field_bound delta_field_bound]
        unat_field8 del: of_nat_unat)

lemma diffbit_set:
  "GETBITSHIGH block_part1 1 33 \<noteq> 0 \<longleftrightarrow> (unat block_part1 div 2) mod 2 = 1"
proof -
  have "GETBITSHIGH block_part1 1 33 \<noteq> 0 \<longleftrightarrow> unat (GETBITSHIGH block_part1 1 33) \<noteq> 0"
    by (simp add: unat_eq_0)
  then show ?thesis by (simp add: unat_GETBITSHIGH)
qed

text \<open>
  Claim C1. A block has \<^verbatim>\<open>diffbit = 1\<close> when bit 33 is set. If then some channel of
  the second base colour (five-bit base plus sign-extended three-bit delta) lies outside
  0 to 31, the dispatcher picks T-mode when red is out of range, else H-mode when green
  is, else Planar; it never picks the differential decoder; and its output is that of
  the chosen decoder run on the unstuffed words.
\<close>

theorem decompressBlockETC2c_routes_by_priority:
  assumes "(unat block_part1 div 2) mod 2 = 1"
    and "out_of_range (second_base block_part1 0) \<or> out_of_range (second_base block_part1 1)
         \<or> out_of_range (second_base block_part1 2)"
  shows "ETC2c_mode block_part1 =
           (if out_of_range (second_base block_part1 0) then Mode_T
            else if out_of_range (second_base block_part1 1) then Mode_H
            else Mode_Planar)
       \<and> ETC2c_mode block_part1 \<noteq> Mode_DiffFlip
       \<and> decompressBlockETC2c block_part1 block_part2 width height startx starty channels =
           (if out_of_range (second_base block_part1 0) then
              decompressBlockTHUMB59Tc (fst (unstuff59bits block_part1 block_part2))
                (snd (unstuff59bits block_part1 block_part2))
                width height startx starty channels
            else if out_of_range (second_base block_part1 1) then
              decompressBlockTHUMB58Hc (fst (unstuff58bits block_part1 block_part2))
                (snd (unstuff58bits block_part1 block_part2))
                width height startx starty channels
            else
              Some (decompressBlockPlanar57c (fst (unstuff57bits block_part1 block_part2))
                (snd (unstuff57bits block_part1 block_part2))
                width height startx starty channels))"
proof -
  have m: "ETC2c_mode block_part1 =
           (if out_of_range (second_base block_part1 0) then Mode_T
            else if out_of_range (second_base block_part1 1) then Mode_H
            else Mode_Planar)"
    using assms
    unfolding ETC2c_mode_def Let_def diffbit_set sint_second_color out_of_range_def
    by auto
  show ?thesis
    unfolding decompressBlockETC2c_def m
    by (simp add: split_beta)
qed

theorem decompressBlockETC2c_routes_by_priority_witness:
  "(unat (0xFB000002 :: uint) div 2) mod 2 = 1
   \<and> out_of_range (second_base 0xFB000002 0)
   \<and> ETC2c_mode 0xFB000002 = Mode_T
   \<and> ETC2c_mode 0xFB000002 \<noteq> Mode_DiffFlip
   \<and> decompressBlockETC2c 0xFB000002 0 8 8 4 0 3 =
       decompressBlockTHUMB59Tc (fst (unstuff59bits 0xFB000002 0))
         (snd (unstuff59bits 0xFB000002 0)) 8 8 4 0 3"
  using decompressBlockETC2c_routes_by_priority [of "0xFB000002" 0 8 8 4 0 3]
  by (simp add: out_of_range_def second_base_def base5_def delta3_def sign_extend3_def)

section \<open>The height argument\<close>

text \<open>
  Claim C9. Each block decoder of the decompression interface takes a \<^verbatim>\<open>height\<close>
  argument and never uses it: two calls that differ in \<^verbatim>\<open>height\<close> only perform the
  same stores, at the same offsets, in the same order.
\<close>

theorem decoders_ignore_height:
  "decompressBlockETC2c block_part1 block_part2 width height startx starty channels
     = decompressBlockETC2c block_part1 block_part2 width height' startx starty channels
   \<and> decompressBlockDiffFlipC block_part1 block_part2 width height startx starty channels
     = decompressBlockDiffFlipC block_part1 block_part2 width height' startx starty channels
   \<and> decompressBlockTHUMB59Tc block_part1 block_part2 width height startx starty channels
     = decompressBlockTHUMB59Tc block_part1 block_part2 width height' startx starty channels
   \<and> decompressBlockTHUMB58Hc block_part1 block_part2 width height startx starty channels
     = decompressBlockTHUMB58Hc block_part1 block_part2 width height' startx starty channels
   \<and> decompressBlockPlanar57c block_part1 block_part2 width height startx starty channels
     = decompressBlockPlanar57c block_part1 block_part2 width height' startx starty channels
   \<and> decompressBlockDifferentialWithAlphaC block_part1 block_part2 width height
       startx starty channels
     = decompressBlockDifferentialWithAlphaC block_part1 block_part2 width height'
       startx starty channels
   \<and> decompressBlockAlphaC g data width height startx starty channels
     = decompressBlockAlphaC g data width height' startx starty channels"
  unfolding decompressBlockETC2c_def decompressBlockDiffFlipC_def decompressBlockTHUMB59Tc_def
    decompressBlockTHUMB58Hc_def decompressBlockPlanar57c_def
    decompressBlockDifferentialWithAlphaC_def decompressBlockAlphaC_def
  by (intro conjI refl)

section \<open>Alpha blocks with a table selector below 16\<close>

lemma getbit_bound:
  assumes "topos \<le> 2"
  shows "uint (getbit v frompos topos) < 8"
proof -
  let ?m = "push_bit frompos (1::int) AND uint v"
  have m0: "0 \<le> ?m" by simp
  have m1: "?m \<le> push_bit frompos 1" by (rule AND_upper1) simp
  have t: "(2::int) ^ topos \<le> 2 ^ 2" using assms by (intro power_increasing) simp_all
  have k: "0 \<le> k \<Longrightarrow> k < 8 \<Longrightarrow> uint (word_of_int k :: uint8) < 8" for k
    by (simp add: uint_word_of_int take_bit_eq_mod)
  show ?thesis
  proof (cases "frompos > topos")
    case True
    have "drop_bit (frompos - topos) ?m \<le> drop_bit (frompos - topos) (push_bit frompos 1)"
      using m1 by (simp add: drop_bit_eq_div zdiv_mono1)
    also have "\<dots> = 2 ^ topos"
      using True by (simp add: drop_bit_eq_div push_bit_eq_mult power_diff_power_eq)
    finally have "drop_bit (frompos - topos) ?m < 8" using t by simp
    moreover have "0 \<le> drop_bit (frompos - topos) ?m" by simp
    ultimately show ?thesis using True k by (simp add: getbit_def)
  next
    case False
    have "push_bit (topos - frompos) ?m \<le> push_bit (topos - frompos) (push_bit frompos 1)"
      using m1 by (simp add: push_bit_eq_mult)
    also have "\<dots> = 2 ^ topos"
      using False by (simp add: push_bit_eq_mult flip: power_add)
    finally have "push_bit (topos - frompos) ?m < 8" using t by simp
    moreover have "0 \<le> push_bit (topos - frompos) ?m" by simp
    ultimately show ?thesis using False k by (simp add: getbit_def)
  qed
qed

lemma alpha_index_step_bound:
  assumes "0 \<le> index" "index < 8" "bitpos \<le> 2"
  shows "0 \<le> fst (alpha_index_step data bitpos (index, bt, by1))
       \<and> fst (alpha_index_step data bitpos (index, bt, by1)) < 8"
proof -
  let ?b = "uint (getbit (data by1) (7 - bt) (2 - bitpos))"
  have b: "?b < 2 ^ 3" using getbit_bound [of "2 - bitpos"] by simp
  have "index OR ?b < 2 ^ 3" using assms(1,2) b by (intro OR_upper) simp_all
  moreover have "0 \<le> index OR ?b" using assms(1) by simp
  moreover have "fst (alpha_index_step data bitpos (index, bt, by1)) = index OR ?b"
    by (simp add: alpha_index_step_def Let_def)
  ultimately show ?thesis by (simp only:) simp
qed

lemma alpha_index_bound:
  "0 \<le> fst (fold (alpha_index_step data) [0..<3] (0, bt, by1))
   \<and> fst (fold (alpha_index_step data) [0..<3] (0, bt, by1)) < 8"
proof -
  obtain i1 b1 y1 where s1: "alpha_index_step data 0 (0, bt, by1) = (i1, b1, y1)"
    by (cases "alpha_index_step data 0 (0, bt, by1)") auto
  obtain i2 b2 y2 where s2: "alpha_index_step data 1 (i1, b1, y1) = (i2, b2, y2)"
    by (cases "alpha_index_step data 1 (i1, b1, y1)") auto
  have r1: "0 \<le> i1 \<and> i1 < 8"
    using alpha_index_step_bound [of 0 0 data bt by1] s1 by simp
  then have r2: "0 \<le> i2 \<and> i2 < 8"
    using alpha_index_step_bound [of i1 1 data b1 y1] s2 by simp
  have "[0..<3] = [0, 1, 2]" by (simp add: upt_rec)
  then show ?thesis
    using alpha_index_step_bound [of i2 2 data b2 y2] r2 s1 s2 by simp
qed

lemma alpha_texel_zero_row:
  assumes "\<forall>j<8. alphaTable g ! table ! j = 0" "0 \<le> alpha" "alpha < 256"
  shows "fst (alpha_texel g data alpha table width ix iy channels x y st)
           = fst st @ [((ix + int x + (iy + int y) * width) * channels, word_of_int alpha)]"
proof -
  obtain ws bt by1 where st: "st = (ws, bt, by1)" by (cases st) auto
  obtain i b y' where f: "fold (alpha_index_step data) [0..<3] (0, bt, by1) = (i, b, y')"
    by (cases "fold (alpha_index_step data) [0..<3] (0, bt, by1)") auto
  have "0 \<le> i \<and> i < 8" using alpha_index_bound [of data bt by1] f by simp
  then have "nat i < 8" by arith
  then have "alphaTable g ! table ! nat i = 0" using assms(1) by blast
  then show ?thesis
    using assms(2,3) unfolding alpha_texel_def st
    by (simp add: f clamp_def del: upt_rec_numeral)
qed

lemma alpha_rows_zero_row:
  assumes "\<forall>j<8. alphaTable g ! table ! j = 0" "0 \<le> alpha" "alpha < 256"
  shows "fst (fold (\<lambda>y st. alpha_texel g data alpha table width ix iy channels x y st) ys st)
           = fst st @ map (\<lambda>y. ((ix + int x + (iy + int y) * width) * channels, word_of_int alpha)) ys"
  by (induction ys arbitrary: st) (simp_all add: alpha_texel_zero_row [OF assms])

lemma alpha_block_zero_row:
  assumes "\<forall>j<8. alphaTable g ! table ! j = 0" "0 \<le> alpha" "alpha < 256"
  shows "fst (fold (\<lambda>x st. fold (\<lambda>y st. alpha_texel g data alpha table width ix iy channels x y st) ys st) xs st)
           = fst st @ concat (map (\<lambda>x. map (\<lambda>y.
               ((ix + int x + (iy + int y) * width) * channels, word_of_int alpha)) ys) xs)"
  by (induction xs arbitrary: st) (simp_all add: alpha_rows_zero_row [OF assms])

text \<open>
  Claim C10. After \<^verbatim>\<open>setupAlphaTable\<close> (from the flag clear and a 256 by 8 table) the
  rows 0 to 15 hold zeros, and a further call of \<^verbatim>\<open>setupAlphaTable\<close>, the only
  function that writes the table, leaves the state as it is. So an alpha block whose
  second byte is below 16 decodes to sixteen stores of its first byte, one per texel, in
  the order of the loops.
\<close>

theorem decompressBlockAlphaC_low_selector:
  assumes "alphaTableInitialized s = 0" "table_shape (alphaTable s)" "unat (data 1) < 16"
  shows "(\<forall>i<16. \<forall>j<8. alphaTable (setupAlphaTable s) ! i ! j = 0)
       \<and> setupAlphaTable (setupAlphaTable s) = setupAlphaTable s
       \<and> decompressBlockAlphaC (setupAlphaTable s) data width height ix iy channels =
           concat (map (\<lambda>x. map (\<lambda>y.
             ((ix + int x + (iy + int y) * width) * channels, data 0)) [0..<4]) [0..<4])"
proof -
  have rows: "\<forall>i<16. \<forall>j<8. alphaTable (setupAlphaTable s) ! i ! j = 0"
    using setupAlphaTable_entry [OF assms(1,2)] by simp
  then have row: "\<forall>j<8. alphaTable (setupAlphaTable s) ! unat (data 1) ! j = 0"
    using assms(3) by blast
  have a: "0 \<le> uint (data 0)" "uint (data 0) < 256"
    using uint_bounded [of "data 0"] by simp_all
  have "decompressBlockAlphaC (setupAlphaTable s) data width height ix iy channels =
           concat (map (\<lambda>x. map (\<lambda>y.
             ((ix + int x + (iy + int y) * width) * channels, data 0)) [0..<4]) [0..<4])"
    unfolding decompressBlockAlphaC_def Let_def
    by (subst alpha_block_zero_row [OF row a]) simp
  then show ?thesis using rows setupAlphaTable_again by blast
qed

theorem decompressBlockAlphaC_low_selector_witness:
  "alphaTableInitialized initial_globals = 0 \<and> table_shape (alphaTable initial_globals)
   \<and> unat (([100, 13, 1, 2, 3, 4, 5, 6] :: uint8 list) ! 1) < 16
   \<and> decompressBlockAlphaC (setupAlphaTable initial_globals)
         (\<lambda>k. [100, 13, 1, 2, 3, 4, 5, 6] ! k) 8 8 4 0 4 =
       [(16, 100), (48, 100), (80, 100), (112, 100), (20, 100), (52, 100), (84, 100),
        (116, 100), (24, 100), (56, 100), (88, 100), (120, 100), (28, 100), (60, 100),
        (92, 100), (124, 100)]"
  using decompressBlockAlphaC_low_selector
          [of initial_globals "\<lambda>k. [100, 13, 1, 2, 3, 4, 5, 6] ! k" 8 8 4 0 4]
  by (simp add: initial_globals_def table_shape_def list_all_iff upt_rec)

section \<open>Stores and the final memory\<close>

lemma store_writes_append:
  "store_writes (ws1 @ ws2) m = store_writes ws2 (store_writes ws1 m)"
  by (simp add: store_writes_def)

lemma store_writes_untouched:
  "a \<notin> fst ` set ws \<Longrightarrow> store_writes ws m a = m a"
proof (induction ws arbitrary: m)
  case Nil
  then show ?case by (simp add: store_writes_def)
next
  case (Cons w ws)
  have "store_writes (w # ws) m = store_writes ws (m(fst w := snd w))"
    by (simp add: store_writes_def split_beta)
  then show ?case using Cons by auto
qed

lemma store_writes_concat_untouched:
  "\<forall>c\<in>set cs. a \<notin> fst ` set c \<Longrightarrow> store_writes (concat cs) m a = m a"
  by (rule store_writes_untouched) auto

lemma store_writes_chunk:
  assumes "t \<in> set ts" "distinct ts" "\<forall>t'\<in>set ts. t' \<noteq> t \<longrightarrow> a \<notin> fst ` set (f t')"
  shows "\<exists>m'. store_writes (concat (map f ts)) m a = store_writes (f t) m' a"
proof -
  obtain pre post where ts: "ts = pre @ t # post"
    using assms(1) by (auto dest: split_list)
  have "t \<notin> set post" using assms(2) ts by simp
  then have post: "\<forall>c\<in>set (map f post). a \<notin> fst ` set c"
    using assms(3) ts by auto
  have "store_writes (concat (map f ts)) m a
      = store_writes (concat (map f post))
          (store_writes (f t) (store_writes (concat (map f pre)) m)) a"
    by (simp add: ts store_writes_append)
  also have "\<dots> = store_writes (f t) (store_writes (concat (map f pre)) m) a"
    by (rule store_writes_concat_untouched [OF post])
  finally show ?thesis by blast
qed

section \<open>Texel addresses\<close>

lemma channel_offset_inj:
  assumes "0 < (n::int)" "0 \<le> c" "c < n" "0 \<le> c'" "c' < n" "n * p + c = n * p' + c'"
  shows "p = p' \<and> c = c'"
proof -
  have "(n * p + c) div n = p"
    using assms(1-3) by (simp add: div_pos_pos_trivial)
  moreover have "(n * p' + c') div n = p'"
    using assms(1,4,5) by (simp add: div_pos_pos_trivial)
  ultimately have "p = p'" using assms(6) by simp
  then show ?thesis using assms(6) by simp
qed

lemma texel_pos_inj:
  assumes "4 \<le> (w::int)" "x < 4" "y < 4" "x' < 4" "y' < 4"
    "(sy + int y) * w + (sx + int x) = (sy + int y') * w + (sx + int x')"
  shows "x = x' \<and> y = y'"
proof -
  have e: "w * int y + int x = w * int y' + int x'"
    using assms(6) by (simp add: algebra_simps)
  have "int y = int y' \<and> int x = int x'"
    using assms(1,2,4) by (intro channel_offset_inj [OF _ _ _ _ _ e]) simp_all
  then show ?thesis by simp
qed

lemma small_nat_cases: "(n::nat) < 4 \<Longrightarrow> n = 0 \<or> n = 1 \<or> n = 2 \<or> n = 3"
  by arith

lemma texel_order_member:
  assumes "x < 4" "y < 4"
  shows "(x, y) \<in> set (texel_order block_part1)"
  using small_nat_cases [OF assms(1)] small_nat_cases [OF assms(2)]
  by (elim disjE) (simp_all add: texel_order_def)

lemma texel_order_bounds:
  assumes "t \<in> set (texel_order block_part1)"
  shows "fst t < 4 \<and> snd t < 4"
proof -
  have "list_all (\<lambda>t. fst t < 4 \<and> snd t < 4) (texel_order block_part1)"
    by (simp add: texel_order_def)
  then show ?thesis using assms by (simp add: list_all_iff)
qed

lemma texel_order_distinct: "distinct (texel_order block_part1)"
  by (simp add: texel_order_def)

section \<open>The differential decoders, texel by texel\<close>

lemma steps_unroll:
  "steps a 2 = [a, a + 1]" "steps a 4 = [a, a + 1, a + 2, a + 3]"
  by (simp_all add: steps_def upt_rec)

lemma texel_loops_2x4:
  "texel_loops body [x0, x1] [y0, y1, y2, y3] s 0 =
     body x0 y0 s @ body x0 y1 (s + 1) @ body x0 y2 (s + 2) @ body x0 y3 (s + 3)
     @ body x1 y0 (s + 4) @ body x1 y1 (s + 5) @ body x1 y2 (s + 6) @ body x1 y3 (s + 7)"
  by (simp add: texel_loops_def texel_rows_def eval_nat_numeral)

lemma texel_loops_4x2:
  "texel_loops body [x0, x1, x2, x3] [y0, y1] s 2 =
     body x0 y0 s @ body x0 y1 (s + 1) @ body x1 y0 (s + 4) @ body x1 y1 (s + 5)
     @ body x2 y0 (s + 8) @ body x2 y1 (s + 9) @ body x3 y0 (s + 12) @ body x3 y1 (s + 13)"
  by (simp add: texel_loops_def texel_rows_def eval_nat_numeral)

lemma DiffFlipC_chunks:
  "decompressBlockDiffFlipC block_part1 block_part2 width height startx starty channels
     = concat (map (diff_chunk block_part1 block_part2 width startx starty channels)
                 (texel_order block_part1))"
  unfolding decompressBlockDiffFlipC_def Let_def texel_order_def
  by (simp add: steps_unroll texel_loops_2x4 texel_loops_4x2 diff_chunk_def in_second_half_def
        avg_individual_def avg_differential_def half_table_def add.assoc del: add_2_eq_Suc add_2_eq_Suc')

lemma WithAlphaC_chunks:
  "decompressBlockDifferentialWithAlphaC block_part1 block_part2 width height startx starty channels
     = concat (map (alpha_diff_chunk block_part1 block_part2 width startx starty channels)
                 (texel_order block_part1))"
  unfolding decompressBlockDifferentialWithAlphaC_def Let_def texel_order_def
  by (simp add: steps_unroll texel_loops_2x4 texel_loops_4x2 alpha_diff_chunk_def in_second_half_def
        avg_differential_def half_table_def add.assoc del: add_2_eq_Suc add_2_eq_Suc')

lemma and1_drop: "drop_bit s (w::uint) AND 1 = of_bool (bit w s)"
  by (simp add: and_one_eq mod_2_eq_odd bit_iff_odd_drop_bit)

lemma bit_planes:
  assumes "s < 16"
  shows "bit (GETBITS w 16 31) s = bit w (16 + s)" "bit (GETBITS w 16 15) s = bit w s"
  using assms by (simp_all add: GETBITS_take_drop bit_take_bit_iff bit_drop_bit_eq)

lemma div_mod_2_bit: "(unat (w::uint) div 2 ^ k) mod 2 = of_bool (bit w k)"
proof -
  have "(unat w div 2 ^ k) mod 2 = of_bool (bit (unat w) k)"
    by (simp only: mod_2_eq_odd bit_nat_def)
  moreover have "bit (unat w) k = bit w k"
    by (simp add: bit_unsigned_iff)
  ultimately show ?thesis by simp
qed

lemma pixel_index_bits:
  assumes "s < 16"
  shows "pixel_index (GETBITS w 16 31) (GETBITS w 16 15) s =
           unscramble ! (2 * ((unat w div 2 ^ (16 + s)) mod 2) + (unat w div 2 ^ s) mod 2)"
proof -
  have "unat (push_bit 1 (of_bool p :: uint) OR of_bool q) = 2 * of_bool p + of_bool q" for p q
    by (cases p; cases q) simp_all
  then show ?thesis
    unfolding pixel_index_def Let_def and1_drop bit_planes [OF assms] div_mod_2_bit
    by simp
qed

lemma uint_push_small:
  assumes "uint (c :: uint8) < 2 ^ (8 - n)" "n \<le> 8"
  shows "uint (push_bit n c) = push_bit n (uint c)"
proof -
  have "push_bit n (uint c) < 2 ^ n * 2 ^ (8 - n)"
    using assms(1) by (simp add: push_bit_eq_mult)
  also have "\<dots> = 2 ^ 8" using assms(2) by (simp flip: power_add)
  finally have "push_bit n (uint c) < 2 ^ 8" .
  moreover have "0 \<le> push_bit n (uint c)" by simp
  moreover have "uint (push_bit n c) = take_bit LENGTH(8) (push_bit n (uint c))"
    by (simp only: unsigned_push_bit_eq)
  ultimately show ?thesis by (simp add: take_bit_int_eq_self)
qed

lemma uint_drop8: "uint (drop_bit n (c :: uint8)) = drop_bit n (uint c)"
proof -
  have "take_bit LENGTH(8) (uint c) = uint c"
    using uint_bounded [of c] by (simp add: take_bit_int_eq_self)
  then show ?thesis by (simp only: unsigned_drop_bit_eq)
qed

lemma uint_expand4:
  assumes "unat (c :: uint8) < 16"
  shows "uint (expand4 c) = push_bit 4 (uint c) OR uint c"
proof -
  have "uint c < 2 ^ (8 - 4)" using uint_unat_less [OF assms] by simp
  then have "uint (push_bit 4 c) = push_bit 4 (uint c)" by (intro uint_push_small) simp_all
  then show ?thesis unfolding expand4_def by (simp only: uint_or or.commute)
qed

lemma uint_expand5:
  assumes "unat (c :: uint8) < 32"
  shows "uint (expand5 c) = push_bit 3 (uint c) OR drop_bit 2 (uint c)"
proof -
  have "uint c < 2 ^ (8 - 3)" using uint_unat_less [OF assms] by simp
  then have "uint (push_bit 3 c) = push_bit 3 (uint c)" by (intro uint_push_small) simp_all
  then show ?thesis unfolding expand5_def by (simp only: uint_or uint_drop8)
qed

lemma uint_base_plus_diff:
  assumes "unat (b :: uint8) < 32" "unat (d :: uint8) < 8"
    "0 \<le> int (unat b) + sign_extend3 (unat d)" "int (unat b) + sign_extend3 (unat d) \<le> 31"
  shows "uint (b + extend_sign d) = int (unat b) + sign_extend3 (unat d)"
    and "unat (b + extend_sign d) < 32"
proof -
  let ?v = "int (unat b) + sign_extend3 (unat d)"
  have w: "word_of_int (sint w) = w" for w :: uint8
    by (simp flip: scast_eq)
  have "sint (b + extend_sign d) = ?v" by (rule sint_base_plus_diff [OF assms(1,2)])
  then have "b + extend_sign d = word_of_int ?v"
    using w [of "b + extend_sign d"] by (simp only:)
  then have "uint (b + extend_sign d) = take_bit LENGTH(8) ?v"
    by (simp only: uint_word_of_int_eq)
  also have "\<dots> = ?v" using assms(3,4) by (simp add: take_bit_int_eq_self)
  finally show u: "uint (b + extend_sign d) = ?v" .
  have "int (unat (b + extend_sign d)) < 32" using u assms(4) by simp
  then show "unat (b + extend_sign d) < 32" by (simp del: of_nat_unat)
qed

lemma flipbit_clear: "GETBITSHIGH block_part1 1 32 = 0 \<longleftrightarrow> unat block_part1 mod 2 = 0"
proof -
  have "GETBITSHIGH block_part1 1 32 = 0 \<longleftrightarrow> unat (GETBITSHIGH block_part1 1 32) = 0"
    by (simp add: unat_eq_0)
  then show ?thesis by (simp add: unat_GETBITSHIGH)
qed

lemma diffbit_clear: "GETBITSHIGH block_part1 1 33 = 0 \<longleftrightarrow> (unat block_part1 div 2) mod 2 = 0"
  using diffbit_set [of block_part1] by auto

lemma half_table_codeword:
  "half_table block_part1 second = 2 * codeword block_part1 (if second then 1 else 0)"
proof -
  have b: "unat (GETBITSHIGH block_part1 3 p) < 128" for p
    by (simp add: unat_GETBITSHIGH)
  have t: "unat (push_bit 1 (GETBITSHIGH block_part1 3 p))
             = 2 * ((unat block_part1 div 2 ^ ((p - 32) + 1 - 3)) mod 2 ^ 3)" for p
    using unat_push1 [OF b] unfolding unat_GETBITSHIGH .
  show ?thesis
    unfolding half_table_def codeword_def t by simp
qed

lemma in_second_half_sub_block:
  "in_second_half block_part1 x y \<longleftrightarrow> sub_block block_part1 x y = 1"
  "(if in_second_half block_part1 x y then 1 else 0) = sub_block block_part1 x y"
  unfolding in_second_half_def sub_block_def flipbit_clear by auto

lemma small_nat_cases3: "(n::nat) < 3 \<Longrightarrow> n = 0 \<or> n = 1 \<or> n = 2"
  by arith

lemma uint_field8:
  assumes "sz \<le> 8"
  shows "uint (ucast (GETBITSHIGH w sz pos) :: uint8)
           = int ((unat w div 2 ^ ((pos - 32) + 1 - sz)) mod 2 ^ sz)"
  using unat_field8 [OF assms, of w pos] by (simp only: uint_nat)

lemma field4_bound: "unat (ucast (GETBITSHIGH w 4 p) :: uint8) < 16"
  by (simp add: unat_field8)

lemma avg_individual_value:
  assumes "c < 3"
  shows "uint (avg_individual block_part1 second ! c) =
           push_bit 4 (int (base4 block_part1 (if second then 1 else 0) c))
             OR int (base4 block_part1 (if second then 1 else 0) c)"
  using small_nat_cases3 [OF assms]
  by (elim disjE)
     (simp_all add: avg_individual_def uint_expand4 [OF field4_bound] uint_field8 base4_def
        del: of_nat_unat)

lemma avg_differential_first:
  assumes "c < 3"
  shows "uint (avg_differential block_part1 False ! c) =
           push_bit 3 (int (base5 block_part1 c)) OR drop_bit 2 (int (base5 block_part1 c))"
  using small_nat_cases3 [OF assms]
  by (elim disjE)
     (simp_all add: avg_differential_def uint_expand5 [OF base_field_bound] uint_field8 base5_def
        del: of_nat_unat)

lemma second_base_unfold:
  "second_base block_part1 0 =
     int (unat (ucast (GETBITSHIGH block_part1 5 63) :: uint8))
     + sign_extend3 (unat (ucast (GETBITSHIGH block_part1 3 58) :: uint8))"
  "second_base block_part1 1 =
     int (unat (ucast (GETBITSHIGH block_part1 5 55) :: uint8))
     + sign_extend3 (unat (ucast (GETBITSHIGH block_part1 3 50) :: uint8))"
  "second_base block_part1 2 =
     int (unat (ucast (GETBITSHIGH block_part1 5 47) :: uint8))
     + sign_extend3 (unat (ucast (GETBITSHIGH block_part1 3 42) :: uint8))"
  "second_base block_part1 (Suc 0) =
     int (unat (ucast (GETBITSHIGH block_part1 5 55) :: uint8))
     + sign_extend3 (unat (ucast (GETBITSHIGH block_part1 3 50) :: uint8))"
  by (simp_all add: second_base_def base5_def delta3_def unat_field8 del: of_nat_unat)

lemma avg_differential_second:
  assumes "c < 3" "\<not> out_of_range (second_base block_part1 c)"
  shows "uint (avg_differential block_part1 True ! c) =
           push_bit 3 (second_base block_part1 c) OR drop_bit 2 (second_base block_part1 c)"
proof -
  have r: "0 \<le> second_base block_part1 c" "second_base block_part1 c \<le> 31"
    using assms(2) by (simp_all add: out_of_range_def)
  note e = uint_base_plus_diff [OF base_field_bound delta_field_bound]
  from small_nat_cases3 [OF assms(1)] show ?thesis
  proof (elim disjE)
    assume c: "c = 0"
    note r0 = r [unfolded c second_base_unfold]
    show ?thesis
      unfolding c avg_differential_def
      by (simp add: uint_expand5 [OF e(2) [OF r0]] e(1) [OF r0] second_base_unfold del: of_nat_unat)
  next
    assume c: "c = 1"
    note r0 = r [unfolded c second_base_unfold]
    show ?thesis
      unfolding c avg_differential_def
      by (simp add: uint_expand5 [OF e(2) [OF r0]] e(1) [OF r0] second_base_unfold del: of_nat_unat)
  next
    assume c: "c = 2"
    note r0 = r [unfolded c second_base_unfold]
    show ?thesis
      unfolding c avg_differential_def
      by (simp add: uint_expand5 [OF e(2) [OF r0]] e(1) [OF r0] second_base_unfold del: of_nat_unat)
  qed
qed

lemma diff_texel_store:
  assumes "c < 3"
  shows "store_writes (diff_texel avg table msb lsb width channels X Y s) m
           (channels * (Y * width + X) + int c)
         = clamp_uint8 (uint (avg ! c) + compressParams ! table ! pixel_index msb lsb s)"
  using small_nat_cases3 [OF assms]
  by (elim disjE) (simp_all add: diff_texel_def store_writes_def Let_def)

lemma diff_texel_addresses:
  assumes "a \<in> fst ` set (diff_texel avg table msb lsb width channels X Y s)"
  shows "\<exists>k. 0 \<le> k \<and> k < 3 \<and> a = channels * (Y * width + X) + k"
proof -
  have "a = channels * (Y * width + X) + 0 \<or> a = channels * (Y * width + X) + 1
        \<or> a = channels * (Y * width + X) + 2"
    using assms by (auto simp: diff_texel_def Let_def)
  then show ?thesis
  proof (elim disjE)
    assume "a = channels * (Y * width + X) + 0"
    then show ?thesis by (intro exI [of _ 0]) simp
  next
    assume "a = channels * (Y * width + X) + 1"
    then show ?thesis by (intro exI [of _ 1]) simp
  next
    assume "a = channels * (Y * width + X) + 2"
    then show ?thesis by (intro exI [of _ 2]) simp
  qed
qed

lemma uint_clamp_uint8: "uint (clamp_uint8 v) = CLAMP 0 v 255"
proof -
  have "0 \<le> CLAMP 0 v 255" "CLAMP 0 v 255 < 2 ^ 8" by (simp_all add: CLAMP_def)
  then have "take_bit LENGTH(8) (CLAMP 0 v 255) = CLAMP 0 v 255"
    by (simp add: take_bit_int_eq_self)
  then show ?thesis unfolding clamp_uint8_def by (simp only: uint_word_of_int_eq)
qed

lemma base_color_individual:
  assumes "(unat block_part1 div 2) mod 2 = 0" "c < 3"
  shows "uint (avg_individual block_part1 second ! c)
           = base_color block_part1 (if second then 1 else 0) c"
  using assms(1) by (simp add: base_color_def avg_individual_value [OF assms(2)] Let_def)

lemma base_color_differential:
  assumes "(unat block_part1 div 2) mod 2 \<noteq> 0" "c < 3"
    "\<not> out_of_range (second_base block_part1 c)"
  shows "uint (avg_differential block_part1 second ! c)
           = base_color block_part1 (if second then 1 else 0) c"
  using assms(1)
  by (cases second)
     (simp_all add: base_color_def avg_differential_first [OF assms(2)]
        avg_differential_second [OF assms(2,3)] Let_def)


lemma texel_store_value:
  assumes valid: "(unat block_part1 div 2) mod 2 = 0
                  \<or> (\<forall>c<3. \<not> out_of_range (second_base block_part1 c))"
    and texel: "x < 4" "y < 4" "c < 3"
  shows "clamp_uint8 (uint ((if GETBITSHIGH block_part1 1 33 = 0
                           then avg_individual block_part1 (in_second_half block_part1 x y)
                           else avg_differential block_part1 (in_second_half block_part1 x y)) ! c)
                    + compressParams ! half_table block_part1 (in_second_half block_part1 x y)
                        ! pixel_index (GETBITS block_part2 16 31) (GETBITS block_part2 16 15)
                            (4 * x + y))
         = word_of_int (texel_value block_part1 block_part2 x y c)"
proof -
  let ?second = "in_second_half block_part1 x y"
  have s: "4 * x + y < 16" using texel(1,2) by simp
  have sb: "(if ?second then 1 else 0) = sub_block block_part1 x y"
    by (rule in_second_half_sub_block(2))
  have avg: "uint ((if GETBITSHIGH block_part1 1 33 = 0
                           then avg_individual block_part1 ?second
                           else avg_differential block_part1 ?second) ! c)
              = base_color block_part1 (sub_block block_part1 x y) c"
  proof (cases "(unat block_part1 div 2) mod 2 = 0")
    case True
    then have d: "GETBITSHIGH block_part1 1 33 = 0" by (simp only: diffbit_clear)
    show ?thesis
      using base_color_individual [OF True texel(3), of ?second]
      by (simp only: d sb) simp
  next
    case False
    then have d: "GETBITSHIGH block_part1 1 33 \<noteq> 0"
      by (simp only: diffbit_clear not_False_eq_True)
    have "\<not> out_of_range (second_base block_part1 c)" using False valid texel(3) by auto
    then show ?thesis
      using base_color_differential [OF False texel(3), of ?second]
      using d by (simp only: sb) simp
  qed
  show ?thesis
    unfolding avg half_table_codeword pixel_index_bits [OF s] sb clamp_uint8_def
      texel_value_def texel_bits_def ..
qed

lemma diff_chunk_values:
  assumes valid: "(unat block_part1 div 2) mod 2 = 0
                  \<or> (\<forall>c<3. \<not> out_of_range (second_base block_part1 c))"
    and t: "t \<in> set (texel_order block_part1)"
  shows "diff_chunk block_part1 block_part2 width startx starty channels t
     = (\<lambda>(x, y). map (\<lambda>c.
          (channels * ((starty + int y) * width + (startx + int x)) + int c,
           word_of_int (texel_value block_part1 block_part2 x y c))) [0..<3]) t"
proof -
  obtain x y where xy: "t = (x, y)" by (cases t)
  have b: "x < 4" "y < 4" using texel_order_bounds [OF t] xy by simp_all
  have l: "[0..<3] = [0, 1, 2]" by (simp add: upt_rec)
  note v = texel_store_value [OF valid b, where ?block_part2.0 = block_part2]
  show ?thesis
    unfolding xy split_conv diff_chunk_def diff_texel_def Let_def l
    using v [where c = 0] v [where c = 1] v [where c = 2] by simp
qed


text \<open>
  Claim C2. In individual mode (bit 33 clear) or in differential mode with the second
  base colour in range, the stores of \<^verbatim>\<open>decompressBlockDiffFlipC\<close> are, texel by texel
  in the order of its loops, the three channel stores of the value
  \<open>clamp(base_color[sub-block] + compressParams[2 * codeword][unscramble[index]], 0, 255)\<close>;
  and on an image at least four texels wide with at least three channels, where the
  sixteen texels occupy distinct bytes, reading channel \<open>c\<close> of texel \<open>(x, y)\<close> back
  after decoding yields that value.
\<close>

theorem decompressBlockDiffFlipC_texel_values:
  assumes "(unat block_part1 div 2) mod 2 = 0
           \<or> (\<forall>c<3. \<not> out_of_range (second_base block_part1 c))"
  shows "decompressBlockDiffFlipC block_part1 block_part2 width height startx starty channels
           = concat (map (\<lambda>(x, y). map (\<lambda>c.
               (channels * ((starty + int y) * width + (startx + int x)) + int c,
                word_of_int (texel_value block_part1 block_part2 x y c))) [0..<3])
               (texel_order block_part1))
       \<and> (\<forall>x<4. \<forall>y<4. \<forall>c<3. 4 \<le> width \<and> 3 \<le> channels \<longrightarrow>
            uint (store_writes
                    (decompressBlockDiffFlipC block_part1 block_part2 width height
                       startx starty channels)
                    m (channels * ((starty + int y) * width + (startx + int x)) + int c))
            = texel_value block_part1 block_part2 x y c)"
proof (intro conjI allI impI)
  show "decompressBlockDiffFlipC block_part1 block_part2 width height startx starty channels
           = concat (map (\<lambda>(x, y). map (\<lambda>c.
               (channels * ((starty + int y) * width + (startx + int x)) + int c,
                word_of_int (texel_value block_part1 block_part2 x y c))) [0..<3])
               (texel_order block_part1))"
    unfolding DiffFlipC_chunks
    by (rule arg_cong [where f = concat], rule map_cong [OF refl])
       (rule diff_chunk_values [OF assms])
next
  fix x y c :: nat
  assume texel: "x < 4" "y < 4" "c < 3" and "4 \<le> width \<and> 3 \<le> channels"
  then have dims: "4 \<le> width" "3 \<le> channels" by simp_all
  let ?f = "diff_chunk block_part1 block_part2 width startx starty channels"
  let ?a = "channels * ((starty + int y) * width + (startx + int x)) + int c"
  have other: "\<forall>t'\<in>set (texel_order block_part1). t' \<noteq> (x, y) \<longrightarrow> ?a \<notin> fst ` set (?f t')"
  proof (intro ballI impI notI)
    fix t' assume t': "t' \<in> set (texel_order block_part1)" "t' \<noteq> (x, y)"
      and a: "?a \<in> fst ` set (?f t')"
    obtain x' y' where xy: "t' = (x', y')" by (cases t')
    have b: "x' < 4" "y' < 4" using texel_order_bounds [OF t'(1)] xy by simp_all
    obtain k where k: "0 \<le> k" "k < 3"
      "?a = channels * ((starty + int y') * width + (startx + int x')) + k"
      using diff_texel_addresses a unfolding xy diff_chunk_def split_conv by blast
    have "(starty + int y) * width + (startx + int x)
            = (starty + int y') * width + (startx + int x') \<and> int c = k"
      using dims(2) texel(3) k(1,2)
      by (intro channel_offset_inj [OF _ _ _ _ _ k(3)]) simp_all
    then have "x = x' \<and> y = y'"
      using texel_pos_inj [OF dims(1) texel(1,2) b] by blast
    then show False using t'(2) xy by simp
  qed
  obtain m' where "store_writes (concat (map ?f (texel_order block_part1))) m ?a
                     = store_writes (?f (x, y)) m' ?a"
    using store_writes_chunk [OF texel_order_member [OF texel(1,2)] texel_order_distinct other]
    by blast
  then have "store_writes
                 (decompressBlockDiffFlipC block_part1 block_part2 width height startx starty channels)
                 m ?a
     = word_of_int (texel_value block_part1 block_part2 x y c)"
    unfolding DiffFlipC_chunks diff_chunk_def split_conv
    by (simp only: diff_texel_store [OF texel(3)] texel_store_value [OF assms texel])
  moreover have "uint (word_of_int (texel_value block_part1 block_part2 x y c) :: uint8)
                   = texel_value block_part1 block_part2 x y c"
    using uint_clamp_uint8 unfolding clamp_uint8_def texel_value_def .
  ultimately show "uint (store_writes
                    (decompressBlockDiffFlipC block_part1 block_part2 width height
                       startx starty channels) m ?a)
            = texel_value block_part1 block_part2 x y c"
    by (simp only:)
qed

theorem decompressBlockDiffFlipC_texel_values_witness:
  "(unat (0x88442200 :: uint) div 2) mod 2 = 0 \<and> (1::nat) < 4 \<and> (2::nat) < 4 \<and> (0::nat) < 3
   \<and> (4::int) \<le> 8 \<and> (3::int) \<le> 3
   \<and> texel_value 0x88442200 0x0000FFFF 1 2 0 = 144
   \<and> uint (store_writes (decompressBlockDiffFlipC 0x88442200 0x0000FFFF 8 8 4 0 3) (\<lambda>a. 0)
             (3 * ((0 + int 2) * 8 + (4 + int 1)) + int 0)) = 144"
proof -
  have v: "texel_value 0x88442200 0x0000FFFF 1 2 0 = 144"
    by (simp add: texel_value_def base_color_def sub_block_def codeword_def base4_def
          texel_bits_def unscramble_def compressParams_def CLAMP_def)
  have "uint (store_writes (decompressBlockDiffFlipC 0x88442200 0x0000FFFF 8 8 4 0 3) (\<lambda>a. 0)
             (3 * ((0 + int 2) * 8 + (4 + int 1)) + int 0))
          = texel_value 0x88442200 0x0000FFFF 1 2 0"
    using decompressBlockDiffFlipC_texel_values [of "0x88442200" "0x0000FFFF" 8 8 4 0 3 "\<lambda>a. 0",
                THEN conjunct2, rule_format, of 1 2 0]
    by simp
  then show ?thesis using v by simp
qed

section \<open>Punch-through alpha\<close>

lemma alpha_diff_texel_addresses:
  assumes "a \<in> fst ` set (alpha_diff_texel diffbit avg table msb lsb width channelsRGB X Y s)"
    "channelsRGB = 3 \<or> channelsRGB = 4"
  shows "(\<exists>k. 0 \<le> k \<and> k < channelsRGB \<and> a = (To_img, channelsRGB * (Y * width + X) + k))
         \<or> a = (To_alpha, Y * width + X)"
proof -
  have "a = (To_img, channelsRGB * (Y * width + X) + 0)
        \<or> a = (To_img, channelsRGB * (Y * width + X) + 1)
        \<or> a = (To_img, channelsRGB * (Y * width + X) + 2)
        \<or> a = fst (alpha_store channelsRGB ((Y * width + X) * (if channelsRGB = 3 then 1 else 4)) 0)"
    using assms(1) by (auto simp: alpha_diff_texel_def Let_def alpha_store_def split: if_splits)
  then show ?thesis
  proof (elim disjE)
    assume "a = (To_img, channelsRGB * (Y * width + X) + 0)"
    then show ?thesis using assms(2) by (intro disjI1 exI [of _ 0]) auto
  next
    assume "a = (To_img, channelsRGB * (Y * width + X) + 1)"
    then show ?thesis using assms(2) by (intro disjI1 exI [of _ 1]) auto
  next
    assume "a = (To_img, channelsRGB * (Y * width + X) + 2)"
    then show ?thesis using assms(2) by (intro disjI1 exI [of _ 2]) auto
  next
    assume a: "a = fst (alpha_store channelsRGB ((Y * width + X) * (if channelsRGB = 3 then 1 else 4)) 0)"
    show ?thesis
    proof (cases "channelsRGB = 3")
      case True
      then show ?thesis using a by (simp add: alpha_store_def)
    next
      case False
      then have "channelsRGB = 4" using assms(2) by simp
      then show ?thesis using a by (intro disjI1 exI [of _ 3]) (simp add: alpha_store_def)
    qed
  qed
qed

lemma alpha_diff_texel_transparent:
  assumes "channelsRGB = 3 \<or> channelsRGB = 4" "pixel_index msb lsb s = 1"
  shows "store_writes (alpha_diff_texel 0 avg table msb lsb width channelsRGB X Y s) m
           (To_img, channelsRGB * (Y * width + X) + 0) = 0"
    and "store_writes (alpha_diff_texel 0 avg table msb lsb width channelsRGB X Y s) m
           (To_img, channelsRGB * (Y * width + X) + 1) = 0"
    and "store_writes (alpha_diff_texel 0 avg table msb lsb width channelsRGB X Y s) m
           (To_img, channelsRGB * (Y * width + X) + 2) = 0"
    and "store_writes (alpha_diff_texel 0 avg table msb lsb width channelsRGB X Y s) m
           (alpha_address channelsRGB (Y * width + X)) = 0"
  using assms
  by (auto simp: alpha_diff_texel_def store_writes_def Let_def alpha_store_def alpha_address_def)

lemma alpha_diff_texel_opaque:
  assumes "channelsRGB = 3 \<or> channelsRGB = 4" "pixel_index msb lsb s \<noteq> 1"
  shows "store_writes (alpha_diff_texel 0 avg table msb lsb width channelsRGB X Y s) m
           (alpha_address channelsRGB (Y * width + X)) = 255"
  using assms
  by (auto simp: alpha_diff_texel_def store_writes_def Let_def alpha_store_def alpha_address_def)

lemma texel_cells_disjoint:
  assumes "0 < channelsRGB" "a \<in> texel_cells channelsRGB p" "a \<in> texel_cells channelsRGB p'"
  shows "p = p'"
  using assms channel_offset_inj [of channelsRGB _ _ p p']
  unfolding texel_cells_def by auto

lemma alpha_address_cell:
  assumes "channelsRGB = 3 \<or> channelsRGB = 4"
  shows "alpha_address channelsRGB p \<in> texel_cells channelsRGB p"
  using assms unfolding texel_cells_def alpha_address_def
  by (auto intro: exI [of _ 3])

lemma colour_address_cell:
  assumes "3 \<le> channelsRGB" "0 \<le> k" "k < 3"
  shows "(To_img, channelsRGB * p + k) \<in> texel_cells channelsRGB p"
  using assms unfolding texel_cells_def by auto

lemma alpha_chunk_final:
  assumes dims: "4 \<le> width" "channelsRGB = 3 \<or> channelsRGB = 4"
    and texel: "x < 4" "y < 4"
    and a: "a \<in> texel_cells channelsRGB ((starty + int y) * width + (startx + int x))"
  shows "\<exists>m'. store_writes
             (decompressBlockDifferentialWithAlphaC block_part1 block_part2 width height
                startx starty channelsRGB) m a
          = store_writes
              (alpha_diff_chunk block_part1 block_part2 width startx starty channelsRGB (x, y))
              m' a"
proof -
  let ?f = "alpha_diff_chunk block_part1 block_part2 width startx starty channelsRGB"
  have pos: "0 < channelsRGB" using dims(2) by auto
  have other: "\<forall>t'\<in>set (texel_order block_part1). t' \<noteq> (x, y) \<longrightarrow> a \<notin> fst ` set (?f t')"
  proof (intro ballI impI notI)
    fix t' assume t': "t' \<in> set (texel_order block_part1)" "t' \<noteq> (x, y)"
      and m: "a \<in> fst ` set (?f t')"
    obtain x' y' where xy: "t' = (x', y')" by (cases t')
    have b: "x' < 4" "y' < 4" using texel_order_bounds [OF t'(1)] xy by simp_all
    have "a \<in> texel_cells channelsRGB ((starty + int y') * width + (startx + int x'))"
      using alpha_diff_texel_addresses [OF _ dims(2)] m
      unfolding xy alpha_diff_chunk_def split_conv texel_cells_def by blast
    then have "(starty + int y) * width + (startx + int x)
                 = (starty + int y') * width + (startx + int x')"
      using texel_cells_disjoint [OF pos a] by blast
    then have "x = x' \<and> y = y'"
      using texel_pos_inj [OF dims(1) texel b] by blast
    then show False using t'(2) xy by simp
  qed
  show ?thesis
    unfolding WithAlphaC_chunks
    by (rule store_writes_chunk [OF texel_order_member [OF texel] texel_order_distinct other])
qed

lemma punch_through_final:
  assumes "(unat block_part1 div 2) mod 2 = 0"
    and dims: "4 \<le> width" "channelsRGB = 3 \<or> channelsRGB = 4"
    and texel: "x < 4" "y < 4"
  shows "let m' = store_writes
                    (decompressBlockDifferentialWithAlphaC block_part1 block_part2 width height
                       startx starty channelsRGB) m;
             p = (starty + int y) * width + (startx + int x)
         in (unscramble ! texel_bits block_part2 x y = 1 \<longrightarrow>
               m' (To_img, channelsRGB * p + 0) = 0 \<and> m' (To_img, channelsRGB * p + 1) = 0
               \<and> m' (To_img, channelsRGB * p + 2) = 0 \<and> m' (alpha_address channelsRGB p) = 0)
          \<and> (unscramble ! texel_bits block_part2 x y \<noteq> 1 \<longrightarrow>
               m' (alpha_address channelsRGB p) = 255)"
proof -
  let ?p = "(starty + int y) * width + (startx + int x)"
  let ?t = "decompressBlockDifferentialWithAlphaC block_part1 block_part2 width height
                       startx starty channelsRGB"
  have d: "GETBITSHIGH block_part1 1 33 = 0" using assms(1) by (simp only: diffbit_clear)
  have s: "4 * x + y < 16" using texel by simp
  have idx: "pixel_index (GETBITS block_part2 16 31) (GETBITS block_part2 16 15) (4 * x + y)
               = unscramble ! texel_bits block_part2 x y"
    unfolding pixel_index_bits [OF s] texel_bits_def ..
  have ch: "3 \<le> channelsRGB" using dims(2) by auto
  have chunk: "alpha_diff_chunk block_part1 block_part2 width startx starty channelsRGB (x, y)
      = alpha_diff_texel 0 (avg_differential block_part1 (in_second_half block_part1 x y))
          (half_table block_part1 (in_second_half block_part1 x y))
          (GETBITS block_part2 16 31) (GETBITS block_part2 16 15) width channelsRGB
          (startx + int x) (starty + int y) (4 * x + y)"
    unfolding alpha_diff_chunk_def split_conv d ..
  have transparent: "store_writes ?t m a = 0"
    if "unscramble ! texel_bits block_part2 x y = 1"
      and "a \<in> {(To_img, channelsRGB * ?p + 0), (To_img, channelsRGB * ?p + 1),
                 (To_img, channelsRGB * ?p + 2), alpha_address channelsRGB ?p}" for a
  proof -
    have "a \<in> texel_cells channelsRGB ?p"
      using that(2) colour_address_cell [OF ch, of 0 ?p] colour_address_cell [OF ch, of 1 ?p]
        colour_address_cell [OF ch, of 2 ?p] alpha_address_cell [OF dims(2), of ?p]
      by auto
    then obtain m' where "store_writes ?t m a
        = store_writes (alpha_diff_chunk block_part1 block_part2 width startx starty channelsRGB (x, y)) m' a"
      using alpha_chunk_final [OF dims texel] by blast
    then show ?thesis
      using that alpha_diff_texel_transparent [OF dims(2), of "GETBITS block_part2 16 31"
          "GETBITS block_part2 16 15" "4 * x + y" _ _ width "startx + int x" "starty + int y"]
      unfolding chunk idx by auto
  qed
  have opaque: "store_writes ?t m (alpha_address channelsRGB ?p) = 255"
    if "unscramble ! texel_bits block_part2 x y \<noteq> 1"
  proof -
    obtain m' where "store_writes ?t m (alpha_address channelsRGB ?p)
        = store_writes (alpha_diff_chunk block_part1 block_part2 width startx starty channelsRGB (x, y)) m'
            (alpha_address channelsRGB ?p)"
      using alpha_chunk_final [OF dims texel alpha_address_cell [OF dims(2)]] by blast
    then show ?thesis
      using that alpha_diff_texel_opaque [OF dims(2), of "GETBITS block_part2 16 31"
          "GETBITS block_part2 16 15" "4 * x + y" _ _ width "startx + int x" "starty + int y"]
      unfolding chunk idx by auto
  qed
  show ?thesis
    unfolding Let_def using transparent opaque by simp
qed

lemma texel_bits_cases:
  "texel_bits w x y = 0 \<or> texel_bits w x y = 1 \<or> texel_bits w x y = 2 \<or> texel_bits w x y = 3"
proof -
  have "texel_bits w x y < 4" unfolding texel_bits_def
    by (rule less_le_trans [of _ "2 * 1 + 2"]) (intro add_le_less_mono mult_le_mono, simp_all)
  then show ?thesis by arith
qed

lemma transparent_index: "unscramble ! texel_bits w x y = 1 \<longleftrightarrow> texel_bits w x y = 2"
  using texel_bits_cases [of w x y] by (auto simp: unscramble_def)


text \<open>
  Claim C4. The 2-bit index of a texel is made of its two plane bits, the high bit from
  the upper half of the second word and the low bit from the lower half; the decoder
  tests what \<^verbatim>\<open>unscramble\<close> gives for it, and that is 1 exactly when the 2-bit index
  is 2. With bit 33 clear, on an image at least four texels wide, with the alpha bytes
  either in a separate buffer (\<^verbatim>\<open>channelsRGB = 3\<close>) or interleaved
  (\<^verbatim>\<open>channelsRGB = 4\<close>): after \<^verbatim>\<open>decompressBlockDifferentialWithAlphaC\<close> a texel
  whose 2-bit index is 2 (unscrambled: 1) holds 0 in its three colour channels and in its
  alpha, and every other texel of the block holds alpha 255.
\<close>

theorem decompressBlockDifferentialWithAlphaC_punch_through:
  assumes "(unat block_part1 div 2) mod 2 = 0"
    and "4 \<le> width" "channelsRGB = 3 \<or> channelsRGB = 4"
    and "x < 4" "y < 4"
  shows "(unscramble ! texel_bits block_part2 x y = 1 \<longrightarrow>
            store_writes
              (decompressBlockDifferentialWithAlphaC block_part1 block_part2 width height
                 startx starty channelsRGB) m
              (To_img, channelsRGB * ((starty + int y) * width + (startx + int x)) + 0) = 0
          \<and> store_writes
              (decompressBlockDifferentialWithAlphaC block_part1 block_part2 width height
                 startx starty channelsRGB) m
              (To_img, channelsRGB * ((starty + int y) * width + (startx + int x)) + 1) = 0
          \<and> store_writes
              (decompressBlockDifferentialWithAlphaC block_part1 block_part2 width height
                 startx starty channelsRGB) m
              (To_img, channelsRGB * ((starty + int y) * width + (startx + int x)) + 2) = 0
          \<and> store_writes
              (decompressBlockDifferentialWithAlphaC block_part1 block_part2 width height
                 startx starty channelsRGB) m
              (alpha_address channelsRGB ((starty + int y) * width + (startx + int x))) = 0)
       \<and> (unscramble ! texel_bits block_part2 x y \<noteq> 1 \<longrightarrow>
            store_writes
              (decompressBlockDifferentialWithAlphaC block_part1 block_part2 width height
                 startx starty channelsRGB) m
              (alpha_address channelsRGB ((starty + int y) * width + (startx + int x))) = 255)
       \<and> ((unscramble ! texel_bits block_part2 x y = 1) = (texel_bits block_part2 x y = 2))"
  using punch_through_final [OF assms, of block_part2 height startx starty m]
    transparent_index [of block_part2 x y]
  unfolding Let_def by blast

theorem decompressBlockDifferentialWithAlphaC_punch_through_witness:
  "(unat (0x88442200 :: uint) div 2) mod 2 = 0 \<and> (4::int) \<le> 8 \<and> (1::nat) < 4 \<and> (2::nat) < 4
   \<and> unscramble ! texel_bits 0xFFFF0000 1 2 = 1
   \<and> store_writes (decompressBlockDifferentialWithAlphaC 0x88442200 0xFFFF0000 8 8 4 0 4)
         (\<lambda>a. 7) (To_img, 4 * ((0 + int 2) * 8 + (4 + int 1)) + 0) = 0
   \<and> store_writes (decompressBlockDifferentialWithAlphaC 0x88442200 0xFFFF0000 8 8 4 0 4)
         (\<lambda>a. 7) (alpha_address 4 ((0 + int 2) * 8 + (4 + int 1))) = 0"
proof -
  have i: "unscramble ! texel_bits 0xFFFF0000 1 2 = 1"
    by (simp add: texel_bits_def unscramble_def)
  show ?thesis
    using decompressBlockDifferentialWithAlphaC_punch_through [of "0x88442200" 8 4 1 2 "0xFFFF0000" 8 4 0 "\<lambda>a. 7"] i
    by (simp add: Let_def)
qed

text \<open>
  With the 2-bit index 1 in place of 2 the statement of C4 does not hold. In the block
  below, bit 33 is clear and texel \<open>(1, 2)\<close> has the plane bits 0 and 1, so its 2-bit
  index is 1; the decoder's index for it is 3, and the texel ends opaque, with the colour
  of its sub-block under the last modifier of its table.
\<close>

lemma opaque_example_chunk:
  "alpha_diff_chunk 0x88442200 0x0000FFFF 8 4 0 4 (1, 2)
   = [((To_img, 84), 148), ((To_img, 85), 74), ((To_img, 86), 41), ((To_img, 87), 255)]"
  by (simp add: alpha_diff_chunk_def alpha_diff_texel_def GETBITSHIGH_def GETBITS_def
      in_second_half_def avg_differential_def half_table_def pixel_index_def
      compressParams_def unscramble_def expand5_def extend_sign_def clamp_uint8_def
      alpha_store_def CLAMP_def Let_def)

theorem decompressBlockDifferentialWithAlphaC_plane_value_1_counterexample:
  "(unat (0x88442200 :: uint) div 2) mod 2 = 0
   \<and> texel_bits 0x0000FFFF 1 2 = 1
   \<and> store_writes (decompressBlockDifferentialWithAlphaC 0x88442200 0x0000FFFF 8 8 4 0 4)
         (\<lambda>a. 7) (To_img, 4 * ((0 + int 2) * 8 + (4 + int 1)) + 0) = 148
   \<and> store_writes (decompressBlockDifferentialWithAlphaC 0x88442200 0x0000FFFF 8 8 4 0 4)
         (\<lambda>a. 7) (To_img, 4 * ((0 + int 2) * 8 + (4 + int 1)) + 1) = 74
   \<and> store_writes (decompressBlockDifferentialWithAlphaC 0x88442200 0x0000FFFF 8 8 4 0 4)
         (\<lambda>a. 7) (To_img, 4 * ((0 + int 2) * 8 + (4 + int 1)) + 2) = 41
   \<and> store_writes (decompressBlockDifferentialWithAlphaC 0x88442200 0x0000FFFF 8 8 4 0 4)
         (\<lambda>a. 7) (alpha_address 4 ((0 + int 2) * 8 + (4 + int 1))) = 255"
proof -
  let ?t = "decompressBlockDifferentialWithAlphaC 0x88442200 0x0000FFFF 8 8 4 0 4"
  have bits: "texel_bits 0x0000FFFF 1 2 = 1"
    by (simp add: texel_bits_def)
  have p: "(0 + int 2) * 8 + (4 + int 1) = 21" by simp
  have cells: "(To_img, 4 * 21 + k) \<in> texel_cells 4 21" if "0 \<le> k" "k < 4" for k
    using that unfolding texel_cells_def by blast
  have final: "\<exists>m'. store_writes ?t (\<lambda>a. 7) (To_img, 4 * 21 + k)
                 = store_writes [((To_img, 84), 148), ((To_img, 85), 74), ((To_img, 86), 41),
                                 ((To_img, 87), 255)] m' (To_img, 4 * 21 + k)"
    if "0 \<le> k" "k < 4" for k
    using alpha_chunk_final [of 8 4 1 2 "(To_img, 4 * 21 + k)" 0 4 "0x88442200" "0x0000FFFF" 8
        "\<lambda>a. 7"] cells [OF that]
    unfolding p opaque_example_chunk by simp
  have r: "store_writes ?t (\<lambda>a. 7) (To_img, 84) = 148"
    using final [of 0] by (auto simp: store_writes_def)
  have g: "store_writes ?t (\<lambda>a. 7) (To_img, 85) = 74"
    using final [of 1] by (auto simp: store_writes_def)
  have b: "store_writes ?t (\<lambda>a. 7) (To_img, 86) = 41"
    using final [of 2] by (auto simp: store_writes_def)
  have a: "store_writes ?t (\<lambda>a. 7) (To_img, 87) = 255"
    using final [of 3] by (auto simp: store_writes_def)
  show ?thesis
    using bits r g b a by (simp add: alpha_address_def)
qed

section \<open>The container reader\<close>

lemma take2: "take_bit 2 (w::uint) = 0 \<longleftrightarrow> unat w mod 4 = 0"
proof -
  have "unat (take_bit 2 w) = unat w mod 4"
    by (simp only: unsigned_take_bit_eq take_bit_eq_mod [where ?'a = nat]) simp
  then show ?thesis by (metis unat_eq_0)
qed

lemma m3: "(3 :: uint) = mask 2" by (simp add: mask_eq_exp_minus_1)

lemma aligned_iff: "(sz = (sz + 3) AND NOT 3) \<longleftrightarrow> unat (sz :: uint) mod 4 = 0"
proof
  assume e: "sz = (sz + 3) AND NOT 3"
  have "take_bit 2 sz = take_bit 2 ((sz + 3) AND NOT (mask 2))"
    using e by (simp only: m3)
  also have "\<dots> = 0"
    by (simp only: take_bit_and take_bit_not_mask_eq_0 [OF order_refl] and_zero_eq zero_and_eq)
  finally show "unat sz mod 4 = 0" by (simp only: take2)
next
  assume "unat sz mod 4 = 0"
  then have t: "sz AND mask 2 = 0" by (simp only: take2 [symmetric] take_bit_eq_mask)
  have d: "\<not> (bit sz n \<and> bit (mask 2 :: uint) n)" for n
  proof -
    have "\<not> bit (sz AND mask 2) n" by (simp only: t bit_0_eq) simp
    then show ?thesis by (simp add: bit_and_iff)
  qed
  have "sz + mask 2 = sz OR mask 2"
    by (rule disjunctive_add_eq_or [OF t])
  then have "(sz + 3) AND NOT 3 = (sz OR mask 2) AND NOT (mask 2)" by (simp only: m3)
  also have "\<dots> = sz"
    by (rule bit_eqI) (use d in \<open>auto simp add: bit_and_iff bit_or_iff bit_not_iff\<close>)
  finally show "sz = (sz + 3) AND NOT 3" by simp
qed

lemma load_levels_append:
  "load_levels malloc_ok fmt (xs @ ys) st =
     (case load_levels malloc_ok fmt xs st of
        Inl e \<Rightarrow> Inl e
      | Inr st' \<Rightarrow> load_levels malloc_ok fmt ys st')"
  by (induction xs arbitrary: st) (simp_all split: sum.splits)

lemma fread_Some:
  assumes "fread sz f = Some (bs, f')"
  shows "0 < sz" "cursor f + sz \<le> length (contents f)"
    "bs = take sz (drop (cursor f) (contents f))"
    "contents f' = contents f" "cursor f' = cursor f + sz"
  using assms by (auto simp: fread_def split: if_splits)

lemma check_fit_Some:
  assumes "static_cast_check_fit_int v = Some i"
  shows "i = uint v" "uint v < 2 ^ 31"
  using assms by (auto simp: static_cast_check_fit_int_def split: if_splits)

lemma unat_level: "n < 2 ^ 32 \<Longrightarrow> unat (word_of_nat n :: uint) = n"
  by (simp add: unat_of_nat take_bit_eq_mod)

lemma uint_level: "n < 2 ^ 32 \<Longrightarrow> uint (word_of_nat n :: uint) = int n"
  using unat_level [of n] by (simp only: uint_nat) 

lemma load_level_step:
  assumes inv: "levels_done bytes fmt W H k n st"
    and n: "n < 2 ^ 32"
    and step: "load_level malloc_ok fmt st (word_of_nat n) = Inr st'"
  shows "levels_done bytes fmt W H k (Suc n) st'"
proof -
  from step obtain bs f where r: "fread 4 (stream st) = Some (bs, f)"
    by (auto simp: load_level_def split: option.splits)
  note f = fread_Some [OF r]
  have c: "contents (stream st) = bytes" "cursor (stream st) = level_offset bytes n"
    "x_dim st = (halve ^^ n) W" "y_dim st = (halve ^^ n) H" "base_level (out st) = k"
    using inv by (simp_all add: levels_done_def)
  have old: "\<forall>l<n. unat (declared_size bytes (level_offset bytes l)) mod 4 = 0
               \<and> (int l < k \<longrightarrow> buffers (out st) l = None)
               \<and> (k \<le> int l \<longrightarrow> level_filled bytes fmt W H (out st) l)"
    using inv by (simp add: levels_done_def)
  let ?size = "declared_size bytes (level_offset bytes n)"
  have sz: "uint32_of bs = ?size"
    using f(3) c by (simp add: declared_size_def)
  have al: "?size = (?size + 3) AND NOT 3"
    using step r sz by (auto simp: load_level_def Let_def split: if_splits)
  then have al4: "unat ?size mod 4 = 0" by (simp only: aligned_iff)
  obtain lv where lv: "static_cast_check_fit_int (word_of_nat n) = Some lv"
    using step r sz al by (auto simp: load_level_def Let_def split: option.splits if_splits)
  have lvn: "lv = int n" using check_fit_Some(1) [OF lv] uint_level [OF n] by simp
  have off: "level_offset bytes (Suc n) = level_offset bytes n + 4 + unat ?size" by simp
  show ?thesis
  proof (cases "k \<le> int n")
    case True
    then obtain payload f' where p: "fread (unat ?size) f = Some (payload, f')"
      and st': "st' = st\<lparr>stream := f',
                 out := (out st)
                   \<lparr>sizes := (sizes (out st))(n := unat ?size),
                    buffers := (buffers (out st))(n := Some payload),
                    widths := (widths (out st))(n := sint (x_dim st)),
                    heights := (heights (out st))(n := sint (y_dim st)),
                    formats := (formats (out st))(n := fmt)\<rparr>,
                 x_dim := halve (x_dim st), y_dim := halve (y_dim st)\<rparr>"
      using step r sz al lv lvn c(5) unat_level [OF n]
      by (auto simp: load_level_def Let_def split: option.splits if_splits)
    note g = fread_Some [OF p]
    have filled: "level_filled bytes fmt W H (out st') n"
      using g f c unfolding level_filled_def st' Let_def by simp
    have keep: "level_filled bytes fmt W H (out st') l" if "l < n" "level_filled bytes fmt W H (out st) l" for l
      using that unfolding level_filled_def st' Let_def by simp
    show ?thesis
      unfolding levels_done_def
    proof (intro conjI allI impI)
      fix l assume l: "l < Suc n"
      show "unat (declared_size bytes (level_offset bytes l)) mod 4 = 0"
        using l old al4 by (cases "l = n") auto
      show "buffers (out st') l = None" if "int l < k"
        using that l old True unfolding st' by (cases "l = n") auto
      show "level_filled bytes fmt W H (out st') l" if "k \<le> int l"
        using that l old filled keep by (cases "l = n") auto
    qed (use g f c off in \<open>simp_all add: st'\<close>)
  next
    case False
    then have st': "st' = st\<lparr>stream := fseek_cur (unat ?size) f,
                            out := (out st)\<lparr>buffers := (buffers (out st))(n := None)\<rparr>,
                            x_dim := halve (x_dim st), y_dim := halve (y_dim st)\<rparr>"
      using step r sz al lv lvn c(5) unat_level [OF n]
      by (auto simp: load_level_def Let_def split: option.splits if_splits)
    have keep: "level_filled bytes fmt W H (out st') l" if "l < n" "level_filled bytes fmt W H (out st) l" for l
      using that unfolding level_filled_def st' Let_def by simp
    show ?thesis
      unfolding levels_done_def
    proof (intro conjI allI impI)
      fix l assume l: "l < Suc n"
      show "unat (declared_size bytes (level_offset bytes l)) mod 4 = 0"
        using l old al4 by (cases "l = n") auto
      show "buffers (out st') l = None" if "int l < k"
        using that l old unfolding st' by (cases "l = n") auto
      show "level_filled bytes fmt W H (out st') l" if "k \<le> int l"
        using that l old False keep by (cases "l = n") auto
    qed (use f c off in \<open>simp_all add: st' fseek_cur_def\<close>)
  qed
qed

lemma load_levels_inv:
  assumes "levels_done bytes fmt W H k 0 st0" "n < 2 ^ 32"
    "load_levels malloc_ok fmt [0..<n] st0 = Inr st"
  shows "levels_done bytes fmt W H k n st"
  using assms(2,3)
proof (induction n arbitrary: st)
  case 0
  then show ?case using assms(1) by simp
next
  case (Suc n)
  from Suc.prems(2) obtain st1 where a: "load_levels malloc_ok fmt [0..<n] st0 = Inr st1"
    and b: "load_level malloc_ok fmt st1 (word_of_nat n) = Inr st"
    by (auto simp: load_levels_append split: sum.splits)
  have "levels_done bytes fmt W H k n st1" using Suc.IH [OF _ a] Suc.prems(1) by simp
  then show ?case using load_level_step [OF _ _ b] Suc.prems(1) by simp
qed

lemma drop_level_medium_low_bounds:
  assumes "drop_level_medium_low header q mq 0 = Inr b"
  shows "0 \<le> b" "b \<le> 1" "b \<le> uint (numberOfMipmapLevels header)"
  using assms
  by (auto simp: drop_level_medium_low_def dest: check_fit_Some split: if_splits option.splits)

lemma drop_level_low_bounds:
  assumes "drop_level_low header q mq b1 = Inr b" "0 \<le> b1" "b1 \<le> 1"
    "b1 \<le> uint (numberOfMipmapLevels header)"
  shows "0 \<le> b" "b \<le> 2" "b \<le> uint (numberOfMipmapLevels header)"
  using assms
  by (auto simp: drop_level_low_def dest: check_fit_Some split: if_splits option.splits)

lemma LoadKTX_run_success:
  assumes "LoadKTX_run malloc_ok (Some bytes) outs q mq = Inr st"
  shows "\<exists>fmt. internal_format_of (glInternalFormat (header_of (take 64 bytes))) = Some fmt
           \<and> 0 \<le> base_level (out st) \<and> base_level (out st) \<le> 2
           \<and> base_level (out st) \<le> int (mip_levels bytes)
           \<and> levels_done bytes fmt (pixelWidth (header_of (take 64 bytes)))
                 (pixelHeight (header_of (take 64 bytes))) (base_level (out st))
                 (mip_levels bytes) st"
proof -
  let ?h = "header_of (take 64 bytes)"
  from assms obtain hb f where r: "fread 64 \<lparr>contents = bytes, cursor = 0\<rparr> = Some (hb, f)"
    by (auto simp: LoadKTX_run_def split: option.splits)
  note fr = fread_Some [OF r]
  have hb: "hb = take 64 bytes" using fr(3) by simp
  have f: "contents f = bytes" "cursor f = 64" using fr(4,5) by simp_all
  from assms r hb obtain fmt where fmt: "internal_format_of (glInternalFormat ?h) = Some fmt"
    by (auto simp: LoadKTX_run_def Let_def split: option.splits if_splits)
  from assms r hb fmt obtain b1 where b1: "drop_level_medium_low ?h q mq 0 = Inr b1"
    by (auto simp: LoadKTX_run_def Let_def split: option.splits if_splits sum.splits)
  from assms r hb fmt b1 obtain b2 where b2: "drop_level_low ?h q mq b1 = Inr b2"
    by (auto simp: LoadKTX_run_def Let_def split: option.splits if_splits sum.splits)
  let ?st0 = "\<lparr>stream = f, x_dim = pixelWidth ?h, y_dim = pixelHeight ?h,
               out = outs\<lparr>base_level := b2\<rparr>\<rparr>"
  have run: "load_levels malloc_ok fmt [0..<unat (numberOfMipmapLevels ?h)] ?st0 = Inr st"
    using assms r hb fmt b1 b2
    by (auto simp: LoadKTX_run_def Let_def split: option.splits if_splits sum.splits)
  have inv0: "levels_done bytes fmt (pixelWidth ?h) (pixelHeight ?h) b2 0 ?st0"
    using f by (simp add: levels_done_def)
  have n: "unat (numberOfMipmapLevels ?h) < 2 ^ 32"
    using unsigned_less [of "numberOfMipmapLevels ?h", where ?'a = nat] by simp
  have inv: "levels_done bytes fmt (pixelWidth ?h) (pixelHeight ?h) b2
               (unat (numberOfMipmapLevels ?h)) st"
    by (rule load_levels_inv [OF inv0 n run])
  then have k: "base_level (out st) = b2" by (simp add: levels_done_def)
  note bb1 = drop_level_medium_low_bounds [OF b1]
  note bb2 = drop_level_low_bounds [OF b2 bb1]
  have "b2 \<le> int (mip_levels bytes)"
    using bb2(3) by (simp add: mip_levels_def)
  then show ?thesis
    using fmt bb2 inv unfolding k mip_levels_def by blast
qed

lemma load_level_unaligned:
  assumes "fread 4 (stream st) = Some (bs, f)" "unat (uint32_of bs) mod 4 \<noteq> 0"
  shows "load_level malloc_ok fmt st level = Inl StructuralError"
proof -
  have "uint32_of bs \<noteq> (uint32_of bs + 3) AND NOT 3"
    unfolding aligned_iff using assms(2) .
  then show ?thesis
    unfolding load_level_def Let_def assms(1) by simp
qed

lemma load_level_aligned:
  assumes "fread 4 (stream st) = Some (bs, f)" "unat (uint32_of bs) mod 4 = 0"
  shows "load_level malloc_ok fmt st level \<noteq> Inl StructuralError"
proof -
  have a: "uint32_of bs = (uint32_of bs + 3) AND NOT 3"
    unfolding aligned_iff using assms(2) .
  have "load_level malloc_ok fmt st level =
     (case static_cast_check_fit_int level of
                None \<Rightarrow> Inl FitError
              | Some lv \<Rightarrow>
                  if base_level (out st) \<le> lv then
                    (if \<not> malloc_ok (uint32_of bs) then Inl AllocationError
                     else case fread (unat (uint32_of bs)) f of
                       None \<Rightarrow> Inl IOError
                     | Some (payload, f') \<Rightarrow>
                         Inr (st\<lparr>stream := f',
                                 out := (out st)
                                   \<lparr>sizes := (sizes (out st))(unat level := unat (uint32_of bs)),
                                    buffers := (buffers (out st))(unat level := Some payload),
                                    widths := (widths (out st))(unat level := sint (x_dim st)),
                                    heights := (heights (out st))(unat level := sint (y_dim st)),
                                    formats := (formats (out st))(unat level := fmt)\<rparr>,
                                 x_dim := halve (x_dim st),
                                 y_dim := halve (y_dim st)\<rparr>))
                  else
                    Inr (st\<lparr>stream := fseek_cur (unat (uint32_of bs)) f,
                            out := (out st)
                              \<lparr>buffers := (buffers (out st))(unat level := None)\<rparr>,
                            x_dim := halve (x_dim st),
                            y_dim := halve (y_dim st)\<rparr>))"
    unfolding load_level_def Let_def assms(1) option.case prod.case
    using a by (simp only: if_False not_not not_True_eq_False refl)
  then show ?thesis
    by (simp split: option.splits)
qed

lemma LoadKTX_success_aligned:
  assumes ok: "LoadKTX malloc_ok (Some bytes) outs q mq = Inr res" and l: "l < mip_levels bytes"
  shows "unat (declared_size bytes (level_offset bytes l)) mod 4 = 0"
proof -
  from ok obtain st'
    where run: "LoadKTX_run malloc_ok (Some bytes) outs q mq = Inr st'"
    by (auto simp: LoadKTX_def split: sum.splits)
  from LoadKTX_run_success [OF run] obtain fmt where
    "levels_done bytes fmt (pixelWidth (header_of (take 64 bytes)))
                 (pixelHeight (header_of (take 64 bytes))) (base_level (out st'))
                 (mip_levels bytes) st'" by blast
  then show ?thesis using l by (simp add: levels_done_def)
qed

text \<open>
  Claim C6. When the loop has gone through the levels below \<open>l\<close> and reads the length
  of level \<open>l\<close>: a length that is not a multiple of 4 ends that round, and with it the
  whole loop, with a structural error (nothing is rounded up); a length that is a multiple
  of 4 is never the reason for a structural error of that round. In a load that succeeds
  every level has a length that is a multiple of 4.
\<close>

theorem LoadKTX_rejects_unaligned_size:
  assumes "load_levels malloc_ok fmt [0..<l] st0 = Inr st" "l < n"
    "fread 4 (stream st) = Some (bs, f)"
  shows "(unat (uint32_of bs) mod 4 \<noteq> 0 \<longrightarrow>
            load_level malloc_ok fmt st (word_of_nat l) = Inl StructuralError
            \<and> load_levels malloc_ok fmt [0..<n] st0 = Inl StructuralError)
       \<and> (unat (uint32_of bs) mod 4 = 0 \<longrightarrow>
            load_level malloc_ok fmt st (word_of_nat l) \<noteq> Inl StructuralError)
       \<and> (\<forall>bytes outs q mq res.
            LoadKTX malloc_ok (Some bytes) outs q mq = Inr res \<longrightarrow>
            (\<forall>l < mip_levels bytes. unat (declared_size bytes (level_offset bytes l)) mod 4 = 0))"
proof (intro conjI impI allI)
  assume m: "unat (uint32_of bs) mod 4 \<noteq> 0"
  show step: "load_level malloc_ok fmt st (word_of_nat l) = Inl StructuralError"
    by (rule load_level_unaligned [OF assms(3) m])
  have "[0..<n] = [0..<l] @ [l..<n]"
    using assms(2) upt_add_eq_append [of 0 l "n - l"] by simp
  moreover have "[l..<n] = l # [Suc l..<n]"
    using assms(2) by (rule upt_conv_Cons)
  ultimately have "[0..<n] = [0..<l] @ l # [Suc l..<n]" by simp
  then show "load_levels malloc_ok fmt [0..<n] st0 = Inl StructuralError"
    using assms(1) step by (simp add: load_levels_append)
next
  assume "unat (uint32_of bs) mod 4 = 0"
  then show "load_level malloc_ok fmt st (word_of_nat l) \<noteq> Inl StructuralError"
    by (rule load_level_aligned [OF assms(3)])
next
  fix bytes outs q mq res l
  assume "LoadKTX malloc_ok (Some bytes) outs q mq = Inr res" "l < mip_levels bytes"
  then show "unat (declared_size bytes (level_offset bytes l)) mod 4 = 0"
    by (rule LoadKTX_success_aligned)
qed


theorem LoadKTX_rejects_unaligned_size_witness:
  "load_levels (\<lambda>s. True) kETC1 [0..<0] example_state = Inr example_state \<and> (0::nat) < 1
   \<and> fread 4 (stream example_state) = Some ([6, 0, 0, 0], \<lparr>contents = [6, 0, 0, 0, 1, 2, 3, 4, 5, 6], cursor = 4\<rparr>)
   \<and> unat (uint32_of [6, 0, 0, 0]) mod 4 \<noteq> 0
   \<and> load_levels (\<lambda>s. True) kETC1 [0..<1] example_state = Inl StructuralError"
proof -
  have f: "fread 4 (stream example_state) = Some ([6, 0, 0, 0], \<lparr>contents = [6, 0, 0, 0, 1, 2, 3, 4, 5, 6], cursor = 4\<rparr>)"
    by (simp add: fread_def example_state_def)
  have u: "unat (uint32_of [6, 0, 0, 0]) mod 4 \<noteq> 0"
    by (simp add: uint32_of_def)
  have l: "load_levels (\<lambda>s. True) kETC1 [0..<0] example_state = Inr example_state" by simp
  show ?thesis
    using LoadKTX_rejects_unaligned_size [OF l _ f, of 1] u f l by simp
qed

text \<open>
  Claim C7. After a successful load of a container that declares \<open>N\<close> levels, with the
  base level \<open>k\<close> the function computed: \<open>0 \<le> k \<le> N\<close>; the slots below \<open>k\<close> hold a
  null pointer; each slot from \<open>k\<close> to \<open>N - 1\<close> holds the payload of its level, found
  behind the lengths and payloads of all levels before it, with its size, width, height
  and format; the slots that are not null are exactly those from \<open>k\<close> to \<open>N - 1\<close>; and
  the cursor has moved past every level, the skipped ones included.
\<close>

theorem LoadKTX_materialises_levels_from_base:
  assumes "LoadKTX malloc_ok (Some bytes) outs texture_quality min_quality = Inr res"
  shows "0 \<le> base_level res \<and> base_level res \<le> int (mip_levels bytes)
       \<and> (\<forall>l < mip_levels bytes.
             (int l < base_level res \<longrightarrow> buffers res l = None)
             \<and> (base_level res \<le> int l \<longrightarrow>
                  (\<exists>fmt. internal_format_of (glInternalFormat (header_of (take 64 bytes))) = Some fmt
                     \<and> level_filled bytes fmt (pixelWidth (header_of (take 64 bytes)))
                          (pixelHeight (header_of (take 64 bytes))) res l)))
       \<and> {l. l < mip_levels bytes \<and> buffers res l \<noteq> None}
            = {nat (base_level res)..<mip_levels bytes}
       \<and> (\<exists>st. LoadKTX_run malloc_ok (Some bytes) outs texture_quality min_quality = Inr st
              \<and> out st = res
              \<and> cursor (stream st) = level_offset bytes (mip_levels bytes))"
proof -
  from assms obtain st
    where run: "LoadKTX_run malloc_ok (Some bytes) outs texture_quality min_quality = Inr st"
      and res: "res = out st"
    by (auto simp: LoadKTX_def split: sum.splits)
  let ?h = "header_of (take 64 bytes)"
  from LoadKTX_run_success [OF run] obtain fmt
    where fmt: "internal_format_of (glInternalFormat ?h) = Some fmt"
      and k: "0 \<le> base_level res" "base_level res \<le> int (mip_levels bytes)"
      and inv: "levels_done bytes fmt (pixelWidth ?h) (pixelHeight ?h) (base_level res)
                  (mip_levels bytes) st"
    unfolding res by blast
  have lev: "\<forall>l < mip_levels bytes.
             (int l < base_level res \<longrightarrow> buffers res l = None)
             \<and> (base_level res \<le> int l \<longrightarrow> level_filled bytes fmt (pixelWidth ?h)
                          (pixelHeight ?h) res l)"
    using inv unfolding levels_done_def res by blast
  have cur: "cursor (stream st) = level_offset bytes (mip_levels bytes)"
    using inv unfolding levels_done_def by blast
  have nn: "buffers res l \<noteq> None" if "l < mip_levels bytes" "base_level res \<le> int l" for l
    using lev that unfolding level_filled_def Let_def by auto
  have set: "{l. l < mip_levels bytes \<and> buffers res l \<noteq> None}
            = {nat (base_level res)..<mip_levels bytes}"
  proof (intro set_eqI iffI)
    fix l assume "l \<in> {l. l < mip_levels bytes \<and> buffers res l \<noteq> None}"
    then have "l < mip_levels bytes" "\<not> int l < base_level res" using lev by auto
    then show "l \<in> {nat (base_level res)..<mip_levels bytes}" by auto
  next
    fix l assume "l \<in> {nat (base_level res)..<mip_levels bytes}"
    then have "l < mip_levels bytes" "base_level res \<le> int l" by auto
    then show "l \<in> {l. l < mip_levels bytes \<and> buffers res l \<noteq> None}" using nn by simp
  qed
  show ?thesis
    using k lev fmt set run res cur by blast
qed

lemma example_file_loads: "\<exists>res. LoadKTX (\<lambda>s. True) (Some example_file) example_outputs kMedium 0 = Inr res
           \<and> base_level res = 1"
  by (simp add: LoadKTX_def LoadKTX_run_def fread_def header_of_def uint32_of_def
        KTX_ENDIAN_REF_def internal_format_of_def GL_COMPRESSED_RGB8_ETC2_def
        GL_COMPRESSED_RGBA8_ETC2_EAC_def GL_ETC1_RGB8_OES_def drop_level_medium_low_def
        drop_level_low_def static_cast_check_fit_int_def load_level_def Let_def fseek_cur_def
        example_file_def example_outputs_def upt_rec)

lemma example_file_levels: "mip_levels example_file = 2"
  by (simp add: mip_levels_def header_of_def uint32_of_def example_file_def)


theorem LoadKTX_materialises_levels_from_base_witness:
  "\<exists>res. LoadKTX (\<lambda>s. True) (Some example_file) example_outputs kMedium 0 = Inr res
         \<and> base_level res = 1 \<and> buffers res 0 = None
         \<and> {l. l < 2 \<and> buffers res l \<noteq> None} = {1..<2}"
proof -
  from example_file_loads obtain res
    where r: "LoadKTX (\<lambda>s. True) (Some example_file) example_outputs kMedium 0 = Inr res"
      and k: "base_level res = 1" by blast
  from LoadKTX_materialises_levels_from_base [OF r] have "\<forall>l < mip_levels example_file. int l < base_level res \<longrightarrow> buffers res l = None"
    and "{l. l < mip_levels example_file \<and> buffers res l \<noteq> None}
            = {nat (base_level res)..<mip_levels example_file}"
    by blast+
  then have "buffers res 0 = None" "{l. l < 2 \<and> buffers res l \<noteq> None} = {1..<2}"
    unfolding example_file_levels k by simp_all
  then show ?thesis using r k by blast
qed

section \<open>The copy of the active area\<close>

text \<open>
  The three nested loops are one loop over the triples \<open>(yy, xx, zz)\<close>; each triple
  stores to a byte of its own, so the byte read at the end is the one its triple stored.
\<close>

lemma fold_nested_product:
  "fold (\<lambda>x. fold (h x) ys) xs = fold (\<lambda>(x, y). h x y) (List.product xs ys)"
  by (induction xs) (simp_all add: fold_map comp_def)

lemma fold_update_length:
  "length (fold (\<lambda>i l. l[f i := g i]) is l) = length l"
  by (induction "is" arbitrary: l) simp_all

lemma fold_update_nth:
  "i \<in> set is \<Longrightarrow> inj_on f (set is) \<Longrightarrow> f i < length l
   \<Longrightarrow> fold (\<lambda>i l. l[f i := g i]) is l ! f i = g i"
proof (induction "is" arbitrary: l rule: rev_induct)
  case Nil
  then show ?case by simp
next
  case (snoc x xs)
  show ?case
  proof (cases "x = i")
    case True
    then show ?thesis using snoc.prems by (simp add: fold_update_length)
  next
    case False
    then have "i \<in> set xs" using snoc.prems by simp
    moreover have "inj_on f (set xs)" using snoc.prems by (simp add: inj_on_def)
    moreover have "f x \<noteq> f i" using snoc.prems False \<open>i \<in> set xs\<close> by (auto simp: inj_on_def)
    ultimately show ?thesis using snoc.IH [of l] snoc.prems by simp
  qed
qed

lemma unat_padded_width:
  assumes "unat a + 3 < 2 ^ 32"
  shows "unat (padded_width a) = (unat a + 3) div 4 * 4"
proof -
  have 1: "unat (a + 3) = unat a + 3"
    using assms by (simp add: unat_add_lem [THEN iffD1])
  have 2: "unat ((a + 3) div 4) = (unat a + 3) div 4"
    by (simp add: unat_div 1)
  have "unat ((a + 3) div 4) * unat (4 :: uint) < 2 ^ LENGTH(32)"
    using assms by (simp add: 2)
  then have "unat ((a + 3) div 4 * 4) = unat ((a + 3) div 4) * unat (4 :: uint)"
    by (simp only: unat_mult_lem [THEN iffD1])
  then show ?thesis by (simp add: padded_width_def 2)
qed

lemma unat_of_nat_uint: "unat (word_of_nat n :: uint) = n mod 2 ^ 32"
  by (simp add: unat_of_nat take_bit_eq_mod)

lemma copy_index_nat:
  assumes "yy * unat rb + xx * unat pb + zz < 2 ^ 32"
  shows "copy_index yy rb xx pb zz = yy * unat rb + xx * unat pb + zz"
proof -
  have "word_of_nat yy * rb + word_of_nat xx * pb + word_of_nat zz
        = (word_of_nat (yy * unat rb + xx * unat pb + zz) :: uint)"
    by simp
  then have "copy_index yy rb xx pb zz = unat (word_of_nat (yy * unat rb + xx * unat pb + zz) :: uint)"
    unfolding copy_index_def by (rule arg_cong)
  also have "\<dots> = (yy * unat rb + xx * unat pb + zz) mod 2 ^ 32"
    by (simp only: unat_of_nat_uint)
  also have "\<dots> = yy * unat rb + xx * unat pb + zz"
    using assms by (rule mod_less)
  finally show ?thesis .
qed

lemma copy_active_flat:
  "copy_active dst arb drb pb aw ah newimg =
     fold (\<lambda>(yy, xx, zz). copy_byte dst arb drb pb yy xx zz)
       (List.product [0..<unat ah] (List.product [0..<unat aw] [0..<unat pb])) newimg"
  unfolding copy_active_def
  by (simp only: fold_nested_product)

lemma flat_index_inj:
  fixes PB :: nat
  assumes "0 < PB"
  shows "inj_on (flat_index (AW * PB) PB) (set (List.product [0..<AH] (List.product [0..<AW] [0..<PB])))"
proof (rule inj_onI)
  fix s t
  assume s: "s \<in> set (List.product [0..<AH] (List.product [0..<AW] [0..<PB]))"
    and t: "t \<in> set (List.product [0..<AH] (List.product [0..<AW] [0..<PB]))"
    and eq: "flat_index (AW * PB) PB s = flat_index (AW * PB) PB t"
  obtain y x z where s': "s = (y, x, z)" by (cases s) auto
  obtain y' x' z' where t': "t = (y', x', z')" by (cases t) auto
  have b: "x < AW" "z < PB" "x' < AW" "z' < PB" using s t s' t' by auto
  have e: "(y * AW + x) * PB + z = (y' * AW + x') * PB + z'"
    using eq by (simp add: flat_index_def s' t' algebra_simps)
  have "((y * AW + x) * PB + z) div PB = y * AW + x" using b by simp
  moreover have "((y' * AW + x') * PB + z') div PB = y' * AW + x'" using b by simp
  ultimately have e2: "y * AW + x = y' * AW + x'" using e by simp
  have "((y * AW + x) * PB + z) mod PB = z" using b by simp
  moreover have "((y' * AW + x') * PB + z') mod PB = z'" using b by simp
  ultimately have z: "z = z'" using e by simp
  have "(y * AW + x) div AW = y" using b by simp
  moreover have "(y' * AW + x') div AW = y'" using b by simp
  ultimately have y: "y = y'" using e2 by simp
  have "x = x'" using e2 y by simp
  then show "s = t" using y z s' t' by simp
qed

lemma flat_index_bound:
  fixes y x z AH AW PB W :: nat
  assumes "y < AH" "x < AW" "z < PB" "AW \<le> W"
  shows "y * (W * PB) + x * PB + z < PB * W * AH"
proof -
  have "x * PB + z < AW * PB"
  proof -
    have "x * PB + z < x * PB + PB" using assms by simp
    also have "\<dots> = (x + 1) * PB" by simp
    also have "\<dots> \<le> AW * PB" using assms by (intro mult_le_mono1) simp
    finally show ?thesis .
  qed
  also have "\<dots> \<le> W * PB" using assms by simp
  finally have "y * (W * PB) + x * PB + z < y * (W * PB) + W * PB" by simp
  also have "\<dots> = (y + 1) * (W * PB)" by simp
  also have "\<dots> \<le> AH * (W * PB)" using assms by (intro mult_le_mono1) simp
  finally show ?thesis by (simp add: mult.commute mult.left_commute)
qed

lemma copy_active_bytes:
  assumes arb: "unat arb = unat aw * unat pb"
    and drb: "unat drb = W * unat pb"
    and le: "unat aw \<le> W"
    and fit: "unat pb * W * unat ah < 2 ^ 32"
    and len: "length newimg = unat pb * unat aw * unat ah"
    and pos: "0 < unat pb"
  shows "length (copy_active dst arb drb pb aw ah newimg) = unat pb * unat aw * unat ah"
    and "y < unat ah \<Longrightarrow> x < unat aw \<Longrightarrow> z < unat pb \<Longrightarrow>
         copy_active dst arb drb pb aw ah newimg ! (y * (unat aw * unat pb) + x * unat pb + z)
         = dst (int (y * (W * unat pb) + x * unat pb + z))"
proof -
  let ?ts = "List.product [0..<unat ah] (List.product [0..<unat aw] [0..<unat pb])"
  let ?F = "flat_index (unat aw * unat pb) (unat pb)"
  let ?G = "\<lambda>t. dst (int (flat_index (W * unat pb) (unat pb) t))"
  have step: "(case t of (yy, xx, zz) \<Rightarrow> copy_byte dst arb drb pb yy xx zz) = (\<lambda>l. l[?F t := ?G t])"
    if "t \<in> set ?ts" for t
  proof -
    obtain yy xx zz where t: "t = (yy, xx, zz)" by (cases t) auto
    have b: "yy < unat ah" "xx < unat aw" "zz < unat pb" using that t by auto
    have 1: "yy * (W * unat pb) + xx * unat pb + zz < unat pb * W * unat ah"
      using b le by (rule flat_index_bound)
    have 2: "yy * (unat aw * unat pb) + xx * unat pb + zz < unat pb * unat aw * unat ah"
      using b by (rule flat_index_bound) simp
    have "unat pb * unat aw * unat ah \<le> unat pb * W * unat ah"
      using le by simp
    then have 3: "yy * (unat aw * unat pb) + xx * unat pb + zz < 2 ^ 32"
      using 2 fit by linarith
    have 4: "yy * (W * unat pb) + xx * unat pb + zz < 2 ^ 32"
      using 1 fit by linarith
    have "copy_index yy arb xx pb zz = yy * (unat aw * unat pb) + xx * unat pb + zz"
      using 3 by (simp add: copy_index_nat arb)
    moreover have "copy_index yy drb xx pb zz = yy * (W * unat pb) + xx * unat pb + zz"
      using 4 by (simp add: copy_index_nat drb)
    ultimately show ?thesis
      by (simp add: t copy_byte_def flat_index_def fun_eq_iff)
  qed
  have flat: "copy_active dst arb drb pb aw ah newimg = fold (\<lambda>t l. l[?F t := ?G t]) ?ts newimg"
    unfolding copy_active_flat
    by (rule fold_cong) (simp_all add: step)
  show "length (copy_active dst arb drb pb aw ah newimg) = unat pb * unat aw * unat ah"
    by (simp add: flat fold_update_length len)
  show "copy_active dst arb drb pb aw ah newimg ! (y * (unat aw * unat pb) + x * unat pb + z)
         = dst (int (y * (W * unat pb) + x * unat pb + z))"
    if b: "y < unat ah" "x < unat aw" "z < unat pb"
  proof -
    have m: "(y, x, z) \<in> set ?ts" using b by simp
    have "?F (y, x, z) < length newimg"
      unfolding len flat_index_def prod.case
      using b by (rule flat_index_bound) simp
    then have "fold (\<lambda>t l. l[?F t := ?G t]) ?ts newimg ! ?F (y, x, z) = ?G (y, x, z)"
      using m flat_index_inj [OF pos] by (rule fold_update_nth [rotated 2])
    then show ?thesis by (simp add: flat flat_index_def)
  qed
qed

lemma decompressBlockETC2c_returns:
  "\<exists>t. decompressBlockETC2c block_part1 block_part2 width height startx starty channels = Some t"
  by (simp add: decompressBlockETC2c_def decompressBlockTHUMB59Tc_def
      decompressBlockTHUMB58Hc_def calculatePaintColors59T_def calculatePaintColors58H_def
      Let_def split: mode.split prod.split)

lemma unpack_block_returns:
  "\<exists>st'. unpack_block g srcETC af width height dstChannels y x st = Some st'"
proof -
  obtain src ws where st: "st = (src, ws)" by (cases st)
  show ?thesis
    using decompressBlockETC2c_returns
    by (simp add: unpack_block_def st Let_def split: option.split prod.split) (metis option.distinct(1))
qed

lemma unpack_blocks_returns:
  assumes "\<And>x st. \<exists>st'. body x st = Some st'"
  shows "\<exists>st'. unpack_blocks body xs st = Some st'"
proof (induction xs arbitrary: st)
  case Nil
  show ?case by simp
next
  case (Cons x xs)
  obtain st1 where "body x st = Some st1" using assms by blast
  then show ?case using Cons.IH [of st1] by simp
qed

lemma KTXUnpackETC_padded_returns:
  assumes "format_case srcFormat = Some (dstChannels, dstChannelBytes, fmt, ty, af)"
    and "malloc_ok (unat (dstChannels * dstChannelBytes * padded_width activeWidth
                          * padded_width activeHeight))"
  shows "\<exists>padded g'. KTXUnpackETC_padded g malloc_ok junk srcETC srcFormat activeWidth activeHeight
                      = Inr (padded, g')"
proof -
  let ?g = "if af \<noteq> AF_NONE then setupAlphaTable g else g"
  have "\<exists>st'. unpack_blocks
                (\<lambda>y. unpack_blocks
                       (unpack_block ?g srcETC af (padded_width activeWidth)
                          (padded_width activeHeight) dstChannels y)
                       [0..<unat (padded_width activeWidth div 4)])
                [0..<unat (padded_width activeHeight div 4)] (0, []) = Some st'"
    by (intro unpack_blocks_returns unpack_block_returns)
  then obtain src ws where "unpack_blocks
                (\<lambda>y. unpack_blocks
                       (unpack_block ?g srcETC af (padded_width activeWidth)
                          (padded_width activeHeight) dstChannels y)
                       [0..<unat (padded_width activeWidth div 4)])
                [0..<unat (padded_width activeHeight div 4)] (0, []) = Some (src, ws)"
    by (metis surj_pair)
  then show ?thesis
    using assms by (simp add: KTXUnpackETC_padded_def Let_def)
qed

lemma format_case_stride:
  assumes "format_case srcFormat = Some (dstChannels, dstChannelBytes, fmt, ty, af)"
  shows "unat (dstChannels * dstChannelBytes) = unat dstChannels * unat dstChannelBytes"
    and "0 < unat dstChannels * unat dstChannelBytes"
  using assms by (auto simp: format_case_def split: if_splits)

lemma padded_width_bounds:
  fixes a :: uint
  assumes "unat a + 3 < 2 ^ 32"
  shows "unat a \<le> unat (padded_width a)" and "unat (padded_width a) \<le> unat a + 3"
  using assms by (simp_all add: unat_padded_width)

lemma unat_mult_fit:
  fixes a b :: uint
  assumes "unat a * unat b < 2 ^ 32"
  shows "unat (a * b) = unat a * unat b"
  using assms by (simp add: unat_mult_lem [THEN iffD1])

text \<open>
  Claim C8. Take a call of \<^verbatim>\<open>KTXUnpackETC\<close> that returns and whose active dimensions
  differ from the padded ones, with sizes that fit the 32-bit arithmetic of the function:
  \<open>stride * (activeWidth + 3) * (activeHeight + 3) < 2 ^ 32\<close>, where \<open>stride\<close> is the number
  of channels times the bytes per channel. Then the returned buffer has
  \<open>activeWidth * activeHeight * stride\<close> bytes, and for every row \<open>r\<close> below
  \<open>activeHeight\<close> the row \<open>r\<close> of the returned buffer, \<open>activeWidth * stride\<close> bytes from
  \<open>r * activeWidth * stride\<close> on, is the first \<open>activeWidth * stride\<close> bytes of row \<open>r\<close>
  of the padded buffer, which starts at \<open>r * width * stride\<close>. The instance after it is
  an image of 6 by 5 padded to 8 by 8, in both formats: \<open>6 * 5 * stride\<close> bytes, row
  \<open>r\<close> the bytes from \<open>r * 8 * stride\<close> to \<open>r * 8 * stride + 6 * stride\<close> of the padded
  buffer.
\<close>

theorem KTXUnpackETC_crops_to_active_area:
  assumes padded: "KTXUnpackETC_padded g malloc_ok junk srcETC srcFormat activeWidth activeHeight
                   = Inr (padded, g')"
    and res: "KTXUnpackETC g malloc_ok junk srcETC srcFormat activeWidth activeHeight = Inr res"
    and fc: "format_case srcFormat = Some (dstChannels, dstChannelBytes, fmt, ty, af)"
    and differ: "\<not> (padded_width activeHeight = activeHeight
                    \<and> padded_width activeWidth = activeWidth)"
    and stride: "stride = unat dstChannels * unat dstChannelBytes"
    and fit: "stride * (unat activeWidth + 3) * (unat activeHeight + 3) < 2 ^ 32"
  shows "length (dstImage res) = unat activeWidth * unat activeHeight * stride \<and>
         (\<forall>r < unat activeHeight.
            take (unat activeWidth * stride) (drop (r * (unat activeWidth * stride)) (dstImage res))
            = map (\<lambda>k. padded (int (r * (unat (padded_width activeWidth) * stride) + k)))
                [0..<unat activeWidth * stride])"
proof -
  let ?pb = "dstChannels * dstChannelBytes"
  let ?AW = "unat activeWidth" and ?AH = "unat activeHeight"
  let ?W = "unat (padded_width activeWidth)"
  let ?arb = "activeWidth * ?pb" and ?drb = "?pb * padded_width activeWidth"
  let ?new = "map (\<lambda>i. junk (int i)) [0..<unat (?pb * activeWidth * activeHeight)]"
  have pb: "unat ?pb = stride" and pos: "0 < unat ?pb"
    using format_case_stride [OF fc] stride by simp_all
  have spos: "0 < stride" using pos pb by simp
  have "stride * (?AW + 3) * 1 \<le> stride * (?AW + 3) * (?AH + 3)"
    by (rule mult_le_mono2) simp
  then have "stride * (?AW + 3) \<le> stride * (?AW + 3) * (?AH + 3)"
    by (simp only: mult_1_right)
  then have fitw: "stride * (?AW + 3) < 2 ^ 32" using fit by (rule le_less_trans)
  have "1 * (?AW + 3) \<le> stride * (?AW + 3)"
    using spos by (intro mult_le_mono1) simp
  then have "?AW + 3 \<le> stride * (?AW + 3)"
    by (simp only: mult_1)
  then have aw3: "?AW + 3 < 2 ^ 32" using fitw by (rule le_less_trans)
  have W: "?AW \<le> ?W" "?W \<le> ?AW + 3"
    using padded_width_bounds [OF aw3] by simp_all
  have "stride * ?W * ?AH \<le> stride * (?AW + 3) * (?AH + 3)"
    using W by (intro mult_le_mono) simp_all
  then have fitWH: "stride * ?W * ?AH < 2 ^ 32" using fit by (rule le_less_trans)
  have "stride * ?W \<le> stride * (?AW + 3)" using W by (intro mult_le_mono) simp_all
  then have fitW: "stride * ?W < 2 ^ 32" using fitw by (rule le_less_trans)
  have "stride * ?AW \<le> stride * ?W" using W by (intro mult_le_mono) simp_all
  then have fitA: "stride * ?AW < 2 ^ 32" using fitW by (rule le_less_trans)
  have "stride * ?AW * ?AH \<le> stride * ?W * ?AH" using W by (intro mult_le_mono) simp_all
  then have fitAH: "stride * ?AW * ?AH < 2 ^ 32" using fitWH by (rule le_less_trans)
  have fitA': "?AW * stride < 2 ^ 32"
    using fitA by (simp only: mult.commute [of ?AW stride])
  have arb: "unat ?arb = ?AW * unat ?pb"
    by (rule unat_mult_fit) (use fitA' in \<open>simp only: pb\<close>)
  have "unat ?drb = unat ?pb * ?W"
    by (rule unat_mult_fit) (use fitW in \<open>simp only: pb\<close>)
  then have drb: "unat ?drb = ?W * unat ?pb" by (simp only: mult.commute [of ?W "unat ?pb"])
  have pa: "unat (?pb * activeWidth) = unat ?pb * ?AW"
    by (rule unat_mult_fit) (use fitA in \<open>simp only: pb\<close>)
  have "unat (?pb * activeWidth * activeHeight) = unat (?pb * activeWidth) * ?AH"
    by (rule unat_mult_fit) (use fitAH in \<open>simp only: pa pb\<close>)
  then have newsize: "unat (?pb * activeWidth * activeHeight) = unat ?pb * ?AW * ?AH"
    by (simp only: pa)
  have len: "length ?new = unat ?pb * ?AW * ?AH"
    by (simp add: newsize)
  have image: "dstImage res = copy_active padded ?arb ?drb ?pb activeWidth activeHeight ?new"
    using res differ
    by (auto simp: KTXUnpackETC_def padded fc Let_def split: if_splits)
  note bytes = copy_active_bytes [OF arb drb W(1) _ len pos, where dst = padded]
  have fit': "unat ?pb * ?W * ?AH < 2 ^ 32" using fitWH pb by simp
  have "length (dstImage res) = unat ?pb * ?AW * ?AH"
    unfolding image by (rule bytes(1) [OF fit'])
  then have "length (dstImage res) = stride * ?AW * ?AH"
    by (simp only: pb)
  then have length: "length (dstImage res) = ?AW * ?AH * stride"
    by (simp only: mult.commute mult.left_commute mult.assoc)
  have rows: "take (?AW * stride) (drop (r * (?AW * stride)) (dstImage res))
            = map (\<lambda>k. padded (int (r * (?W * stride) + k))) [0..<?AW * stride]"
    if r: "r < ?AH" for r
  proof (rule nth_equalityI)
    have "r * (?AW * stride) + ?AW * stride = (r + 1) * (?AW * stride)" by simp
    also have "\<dots> \<le> ?AH * (?AW * stride)" using r by (intro mult_le_mono1) simp
    finally have le: "r * (?AW * stride) + ?AW * stride \<le> length (dstImage res)"
      by (simp add: length mult.commute mult.left_commute)
    then show "length (take (?AW * stride) (drop (r * (?AW * stride)) (dstImage res)))
               = length (map (\<lambda>k. padded (int (r * (?W * stride) + k))) [0..<?AW * stride])"
      by simp
    fix k
    assume "k < length (take (?AW * stride) (drop (r * (?AW * stride)) (dstImage res)))"
    then have k: "k < ?AW * stride" by simp
    have kd: "k div stride < ?AW"
      using k spos by (simp add: less_mult_imp_div_less)
    have km: "k mod stride < unat ?pb" using spos pb by simp
    have keq: "k div stride * stride + k mod stride = k" by simp
    have "dstImage res ! (r * (?AW * unat ?pb) + k div stride * unat ?pb + k mod stride)
          = padded (int (r * (?W * unat ?pb) + k div stride * unat ?pb + k mod stride))"
      unfolding image using fit' r kd km by (rule bytes(2))
    then have "dstImage res ! (r * (?AW * stride) + k) = padded (int (r * (?W * stride) + k))"
      by (simp only: pb add.assoc keq)
    then show "take (?AW * stride) (drop (r * (?AW * stride)) (dstImage res)) ! k
               = map (\<lambda>k. padded (int (r * (?W * stride) + k))) [0..<?AW * stride] ! k"
      using k le by simp
  qed
  show ?thesis using length rows by blast
qed

theorem KTXUnpackETC_crops_to_active_area_witness:
  "padded_width 6 = 8 \<and> padded_width 5 = 8
   \<and> KTXUnpackETC initial_globals (\<lambda>n. True) (\<lambda>a. 0) (\<lambda>i. 0) GL_COMPRESSED_RGB8_ETC2 6 5
       = Inr (example_unpacked GL_COMPRESSED_RGB8_ETC2)
   \<and> length (dstImage (example_unpacked GL_COMPRESSED_RGB8_ETC2)) = 6 * 5 * 3
   \<and> map (\<lambda>r. take (6 * 3) (drop (r * (6 * 3)) (dstImage (example_unpacked GL_COMPRESSED_RGB8_ETC2))))
         [0..<5]
       = map (\<lambda>r. map (\<lambda>k. example_padded GL_COMPRESSED_RGB8_ETC2 (int (r * (8 * 3) + k)))
                    [0..<6 * 3]) [0..<5]
   \<and> KTXUnpackETC initial_globals (\<lambda>n. True) (\<lambda>a. 0) (\<lambda>i. 0) GL_COMPRESSED_RGBA8_ETC2_EAC 6 5
       = Inr (example_unpacked GL_COMPRESSED_RGBA8_ETC2_EAC)
   \<and> length (dstImage (example_unpacked GL_COMPRESSED_RGBA8_ETC2_EAC)) = 6 * 5 * 4
   \<and> map (\<lambda>r. take (6 * 4) (drop (r * (6 * 4)) (dstImage (example_unpacked GL_COMPRESSED_RGBA8_ETC2_EAC))))
         [0..<5]
       = map (\<lambda>r. map (\<lambda>k. example_padded GL_COMPRESSED_RGBA8_ETC2_EAC (int (r * (8 * 4) + k)))
                    [0..<6 * 4]) [0..<5]"
proof -
  have pw: "padded_width 6 = 8" "padded_width 5 = 8"
    by (simp_all add: padded_width_def)
  have differ: "\<not> (padded_width 5 = (5 :: uint) \<and> padded_width 6 = (6 :: uint))"
    by (simp add: pw)
  have main:
    "KTXUnpackETC initial_globals (\<lambda>n. True) (\<lambda>a. 0) (\<lambda>i. 0) f 6 5 = Inr (example_unpacked f)
     \<and> length (dstImage (example_unpacked f)) = 6 * 5 * stride
     \<and> (\<forall>r < 5. take (6 * stride) (drop (r * (6 * stride)) (dstImage (example_unpacked f)))
                  = map (\<lambda>k. example_padded f (int (r * (8 * stride) + k))) [0..<6 * stride])"
    if fc: "format_case f = Some (c, b, fm, ty, af)"
      and stride: "stride = unat c * unat b" and fit: "stride * 72 < 2 ^ 32"
    for f c b fm ty af stride
  proof -
    obtain padded g' where
      p: "KTXUnpackETC_padded initial_globals (\<lambda>n. True) (\<lambda>a. 0) (\<lambda>i. 0) f 6 5 = Inr (padded, g')"
      using KTXUnpackETC_padded_returns [OF fc, where malloc_ok = "\<lambda>n. True"
          and g = initial_globals and junk = "\<lambda>a. 0" and srcETC = "\<lambda>i. 0"
          and activeWidth = 6 and activeHeight = 5]
      by auto
    then have p': "KTXUnpackETC_padded initial_globals (\<lambda>n. True) (\<lambda>a. 0) (\<lambda>i. 0) f 6 5
                   = Inr (example_padded f, g')"
      by (simp add: example_padded_def)
    have "\<exists>res. KTXUnpackETC initial_globals (\<lambda>n. True) (\<lambda>a. 0) (\<lambda>i. 0) f 6 5 = Inr res"
      by (simp add: KTXUnpackETC_def p' fc pw Let_def)
    then have res: "KTXUnpackETC initial_globals (\<lambda>n. True) (\<lambda>a. 0) (\<lambda>i. 0) f 6 5
                    = Inr (example_unpacked f)"
      by (auto simp: example_unpacked_def)
    have fit': "stride * (unat (6 :: uint) + 3) * (unat (5 :: uint) + 3) < 2 ^ 32"
      using fit by simp
    show ?thesis
      using KTXUnpackETC_crops_to_active_area [OF p' res fc differ stride fit'] res
      by (simp add: pw)
  qed
  have rgb: "format_case GL_COMPRESSED_RGB8_ETC2 = Some (3, 1, GL_RGB, GL_UNSIGNED_BYTE, AF_NONE)"
    by (simp add: format_case_def)
  have rgba: "format_case GL_COMPRESSED_RGBA8_ETC2_EAC
              = Some (4, 1, GL_RGBA, GL_UNSIGNED_BYTE, AF_8BIT)"
    by (simp add: format_case_def GL_COMPRESSED_RGBA8_ETC2_EAC_def GL_ETC1_RGB8_OES_def
        GL_COMPRESSED_RGB8_ETC2_def)
  show ?thesis
    using main [OF rgb, of 3] main [OF rgba, of 4] by (simp add: pw)
qed

end
